theory Spec2Isabelle
  imports Main "HOL-Library.AList"
begin

section \<open>JavaScript strings\<close>

text \<open>
  A JavaScript string is modelled as a \<open>string\<close>: a list of code units. The functions below
  are the string methods the resolvers call: \<open>startsWith\<close>, \<open>includes\<close> (here
  \<open>includesChar\<close>), \<open>split\<close> on a one-character separator, \<open>join\<close> and \<open>trim\<close>;
  \<open>s.slice(1).split('')\<close> is the list of the characters of \<open>drop 1 s\<close>.
\<close>

definition startsWith :: "string \<Rightarrow> string \<Rightarrow> bool" where
  "startsWith s p = (take (length p) s = p)"

definition includesChar :: "string \<Rightarrow> char \<Rightarrow> bool" where
  "includesChar s c = (c \<in> set s)"

text \<open>\<open>s.split(sep)\<close>: always at least one part; \<open>''.split(sep)\<close> is \<open>['']\<close>.\<close>

fun split :: "string \<Rightarrow> char \<Rightarrow> string list" where
  "split [] sep = [[]]"
| "split (c # cs) sep =
     (if c = sep then [] # split cs sep
      else (case split cs sep of [] \<Rightarrow> [[c]] | p # ps \<Rightarrow> (c # p) # ps))"

fun join :: "string list \<Rightarrow> string \<Rightarrow> string" where
  "join [] sep = []"
| "join [x] sep = x"
| "join (x # y # ys) sep = x @ sep @ join (y # ys) sep"

text \<open>The white space that \<open>trim\<close> removes, among the 8-bit code units: TAB, LF, VT, FF, CR,
  SPACE and NBSP.\<close>

definition isWhiteSpace :: "char \<Rightarrow> bool" where
  "isWhiteSpace c = (of_char c \<in> {9, 10, 11, 12, 13, 32, 160 :: nat})"

definition trim :: "string \<Rightarrow> string" where
  "trim s = rev (dropWhile isWhiteSpace (rev (dropWhile isWhiteSpace s)))"

text \<open>\<open>xs[i]\<close> on an array: \<open>undefined\<close> (here \<open>None\<close>) out of range.\<close>

definition at :: "'a list \<Rightarrow> nat \<Rightarrow> 'a option" where
  "at xs i = (if i < length xs then Some (xs ! i) else None)"

text \<open>Truthiness of a \<open>string | undefined\<close>: \<open>undefined\<close> and the empty string are falsy.\<close>

fun truthy :: "string option \<Rightarrow> bool" where
  "truthy None = False"
| "truthy (Some s) = (s \<noteq> [])"

text \<open>
  The destructuring \<open>if (arg.includes('=')) { [arg, value] = arg.split('='); }\<close>: the first two
  parts of the split, whatever follows a second \<open>=\<close> being dropped. Without \<open>=\<close> the
  token stays and \<open>value\<close> is \<open>undefined\<close>.
\<close>

definition splitInlineValue :: "string \<Rightarrow> string \<times> string option" where
  "splitInlineValue arg =
     (if includesChar arg (CHR ''='') then
        (case split arg (CHR ''='') of
           a # v # _ \<Rightarrow> (a, Some v)
         | [a] \<Rightarrow> (a, None)
         | [] \<Rightarrow> (arg, None))
      else (arg, None))"

section \<open>The schema library, as the code uses it\<close>

text \<open>
  The classes the resolvers test with \<open>instanceof\<close>. \<open>ZodOtherType\<close> is any other field
  type; it fails every test, as \<open>undefined\<close> does.
\<close>

datatype zodType =
    ZodString
  | ZodNumber
  | ZodBoolean
  | ZodArray zodType
  | ZodOptional zodType
  | ZodOtherType

text \<open>A field of a shape: its type, \<open>_def.aliases\<close> (set by \<open>aliases(...)\<close>, else
  \<open>undefined\<close>), \<open>_def.description\<close> and the library's \<open>isOptional()\<close>.\<close>

record field =
  fieldType :: zodType
  defAliases :: "string list option"
  defDescription :: "string option"
  isOptional :: bool

text \<open>A schema: an object with its shape (in the order of \<open>Object.keys\<close>), an effects wrapper
  (\<open>refine\<close>) around a schema, or anything else; each with its \<open>_def.description\<close>.\<close>

datatype schema =
    ZodObject "(string \<times> field) list" "string option"
  | ZodEffects schema "string option"
  | ZodOtherSchema "string option"

text \<open>zod-extensions: \<open>aliases(...)\<close> stores a one-character alias with one dash and any other
  alias with two; \<open>getAliases()\<close> is \<open>_def.aliases || []\<close>.\<close>

definition aliases :: "string list \<Rightarrow> string list" where
  "aliases as = map (\<lambda>alias. if length alias = 1 then ''-'' @ alias else ''--'' @ alias) as"

definition getAliases :: "field \<Rightarrow> string list" where
  "getAliases f = (case defAliases f of None \<Rightarrow> [] | Some as \<Rightarrow> as)"

fun getDescription :: "schema \<Rightarrow> string option" where
  "getDescription (ZodObject shape d) = d"
| "getDescription (ZodEffects inner d) = d"
| "getDescription (ZodOtherSchema d) = d"

text \<open>\<open>x || 'No description available'\<close>.\<close>

definition orNoDescription :: "string option \<Rightarrow> string" where
  "orNoDescription d = (if truthy d then the d else ''No description available'')"

text \<open>\<open>t instanceof ZodBoolean || (t instanceof ZodOptional && t._def.innerType instanceof
  ZodBoolean)\<close>, and the same for numbers; \<open>t instanceof ZodArray\<close>.\<close>

fun isBooleanKind :: "zodType \<Rightarrow> bool" where
  "isBooleanKind ZodBoolean = True"
| "isBooleanKind (ZodOptional ZodBoolean) = True"
| "isBooleanKind _ = False"

fun isNumberKind :: "zodType \<Rightarrow> bool" where
  "isNumberKind ZodNumber = True"
| "isNumberKind (ZodOptional ZodNumber) = True"
| "isNumberKind _ = False"

fun isZodArray :: "zodType \<Rightarrow> bool" where
  "isZodArray (ZodArray _) = True"
| "isZodArray _ = False"

text \<open>The values a resolver stores in \<open>parsedArgs\<close>. \<open>'n\<close> is the type of numbers: the
  built-in \<open>Number\<close> is a parameter \<open>string \<Rightarrow> 'n option\<close>, \<open>None\<close> for \<open>NaN\<close>.\<close>

datatype 'n jsValue =
    VString string
  | VNumber 'n
  | VBoolean bool
  | VArray "string list"
  | VUndefined

type_synonym 'n parsed = "(string \<times> 'n jsValue) list"

text \<open>An issue of a failed \<open>safeParse\<close>: its path (each segment as \<open>join\<close> prints it) and
  its message. \<open>safeParse\<close> itself is a parameter
  \<open>schema \<Rightarrow> 'n parsed \<Rightarrow> issue list + 'n parsed\<close>.\<close>

record issue =
  path :: "string list"
  message :: string

datatype jsError = Error string | TypeError

section \<open>parseValue (the same in the three files)\<close>

definition parseValue :: "(string \<Rightarrow> 'n option) \<Rightarrow> string \<Rightarrow> zodType \<Rightarrow> 'n jsValue" where
  "parseValue Number value type =
     (if isNumberKind type then
        (case Number value of None \<Rightarrow> VString value | Some parsed \<Rightarrow> VNumber parsed)
      else if isBooleanKind type then
        (if value = ''true'' \<or> value = ''false'' then VBoolean (value = ''true'')
         else VString value)
      else VString value)"

text \<open>\<open>parseValue(value!, type)\<close> where \<open>value\<close> may be \<open>undefined\<close>: \<open>Number(undefined)\<close>
  is \<open>NaN\<close> and \<open>undefined\<close> equals no string, so \<open>undefined\<close> comes back.\<close>

definition parseValueOpt :: "(string \<Rightarrow> 'n option) \<Rightarrow> string option \<Rightarrow> zodType \<Rightarrow> 'n jsValue" where
  "parseValueOpt Number value type =
     (case value of None \<Rightarrow> VUndefined | Some v \<Rightarrow> parseValue Number v type)"

section \<open>The state of a scan\<close>

text \<open>
  The locals of a resolver that its helpers read and write: the index \<open>i\<close>, \<open>parsedArgs\<close>
  (assignment keeps the place of a key that is already there), \<open>processedIndices\<close>, the
  lines written with \<open>console.error\<close>, and the instance field \<open>shouldDisplayHelp\<close> (the first
  copy in zli.ts has no such field and never touches it).
\<close>

record 'n scan =
  idx :: nat
  parsedArgs :: "'n parsed"
  processedIndices :: "nat set"
  consoleError :: "string list"
  shouldDisplayHelp :: bool

definition logError :: "string \<Rightarrow> 'n scan \<Rightarrow> 'n scan" where
  "logError msg st = st\<lparr>consoleError := consoleError st @ [msg]\<rparr>"

definition assign :: "string \<Rightarrow> 'n jsValue \<Rightarrow> 'n scan \<Rightarrow> 'n scan" where
  "assign k v st = st\<lparr>parsedArgs := AList.update k v (parsedArgs st)\<rparr>"

definition markProcessed :: "nat \<Rightarrow> 'n scan \<Rightarrow> 'n scan" where
  "markProcessed j st = st\<lparr>processedIndices := insert j (processedIndices st)\<rparr>"

definition setIdx :: "nat \<Rightarrow> 'n scan \<Rightarrow> 'n scan" where
  "setIdx j st = st\<lparr>idx := j\<rparr>"

definition setHelp :: "'n scan \<Rightarrow> 'n scan" where
  "setHelp st = st\<lparr>shouldDisplayHelp := True\<rparr>"

definition initialScan :: "bool \<Rightarrow> 'n scan" where
  "initialScan h =
     \<lparr>idx = 0, parsedArgs = [], processedIndices = {}, consoleError = [],
      shouldDisplayHelp = h\<rparr>"

text \<open>One pass of a loop body either goes on with the next pass or leaves the resolver with
  \<open>return null\<close>.\<close>

datatype 'a flow = Continue 'a | ReturnNull 'a

text \<open>\<open>recognizedOptions.get(arg)\<close> followed by \<open>if (!optionKey)\<close>: a missing entry and the
  empty key are both falsy.\<close>

definition lookupKey :: "(string \<rightharpoonup> string) \<Rightarrow> string \<Rightarrow> string option" where
  "lookupKey tbl arg = (case tbl arg of None \<Rightarrow> None | Some k \<Rightarrow> if k = [] then None else Some k)"

text \<open>\<open>schemaShape[optionKey]\<close>, and its type for the \<open>instanceof\<close> tests (a missing field
  fails them all).\<close>

definition typeOf :: "(string \<times> field) list \<Rightarrow> string \<Rightarrow> zodType" where
  "typeOf shape key = (case map_of shape key of None \<Rightarrow> ZodOtherType | Some f \<Rightarrow> fieldType f)"

text \<open>The greedy loop of an array option, the same in both copies of zli.ts:
  \<open>while (i < args.length && !args[i].startsWith('-')) { values.push(args[i]);
  processedIndices.add(i); i++; }\<close>\<close>

function consumeArrayValues :: "string list \<Rightarrow> string list \<Rightarrow> 'n scan \<Rightarrow> string list \<times> 'n scan" where
  "consumeArrayValues args values st =
     (if idx st < length args \<and> \<not> startsWith (args ! idx st) ''-'' then
        consumeArrayValues args (values @ [args ! idx st])
          (setIdx (idx st + 1) (markProcessed (idx st) st))
      else (values, st))"
  by pat_completeness auto
termination
  by (relation "measure (\<lambda>(args, values, st). length args - idx st)")
     (auto simp: setIdx_def markProcessed_def)

declare consumeArrayValues.simps [simp del]


section \<open>zli.ts, first copy: parseArgs\<close>

text \<open>The alias table: for every key \<open>--key\<close>, then the field's aliases; a later \<open>set\<close>
  of the same token wins.\<close>

definition recognizedOptions1 :: "(string \<times> field) list \<Rightarrow> (string \<rightharpoonup> string)" where
  "recognizedOptions1 shape =
     foldl (\<lambda>m (key, f). foldl (\<lambda>m alias. m(alias \<mapsto> key)) (m(''--'' @ key \<mapsto> key)) (getAliases f))
       Map.empty shape"

text \<open>The first copy unwraps one effects layer only.\<close>

fun unwrapSchema1 :: "schema \<Rightarrow> jsError + (string \<times> field) list \<times> string option" where
  "unwrapSchema1 (ZodEffects (ZodObject shape d) d') = Inr (shape, d)"
| "unwrapSchema1 (ZodObject shape d) = Inr (shape, d)"
| "unwrapSchema1 _ = Inl (Error ''Unsupported schema type'')"

text \<open>The scalar case of a long or short option: with no (truthy) inline value the next
  token is the value, unless it is missing or starts with a dash.\<close>

definition scalarOption1 ::
  "(string \<Rightarrow> 'n option) \<Rightarrow> string list \<Rightarrow> string \<Rightarrow> string option \<Rightarrow> string \<Rightarrow> zodType
     \<Rightarrow> 'n scan \<Rightarrow> 'n scan flow" where
  "scalarOption1 Number args arg value optionKey type st =
     (if \<not> truthy value then
        (case at args (idx st + 1) of
           None \<Rightarrow> ReturnNull (logError (''Option '' @ arg @ '' requires a value'') st)
         | Some v \<Rightarrow>
             if startsWith v ''-'' then
               ReturnNull (logError (''Option '' @ arg @ '' requires a value'') st)
             else
               Continue (setIdx (idx st + 2)
                 (assign optionKey (parseValue Number v type) (markProcessed (idx st + 1) st))))
      else
        Continue (setIdx (idx st + 1) (assign optionKey (parseValueOpt Number value type) st)))"

definition booleanOption1 :: "string option \<Rightarrow> string \<Rightarrow> 'n scan \<Rightarrow> 'n scan flow" where
  "booleanOption1 value optionKey st =
     Continue (setIdx (idx st + 1)
       (assign optionKey (VBoolean (if truthy value then value = Some ''true'' else True)) st))"

text \<open>The branch \<open>arg.startsWith('--')\<close>.\<close>

definition longOption1 ::
  "(string \<Rightarrow> 'n option) \<Rightarrow> (string \<rightharpoonup> string) \<Rightarrow> (string \<times> field) list \<Rightarrow> string list
     \<Rightarrow> 'n scan \<Rightarrow> 'n scan flow" where
  "longOption1 Number tbl shape args st =
     (case splitInlineValue (args ! idx st) of (arg, value) \<Rightarrow>
        (case lookupKey tbl arg of
           None \<Rightarrow> ReturnNull (logError (''Unknown option: '' @ arg) st)
         | Some optionKey \<Rightarrow>
             (let st1 = markProcessed (idx st) st; type = typeOf shape optionKey in
              if isBooleanKind type then booleanOption1 value optionKey st1
              else if isZodArray type then
                (case consumeArrayValues args [] (setIdx (idx st1 + 1) st1) of
                   (values, st2) \<Rightarrow> Continue (assign optionKey (VArray values) st2))
              else scalarOption1 Number args arg value optionKey type st1)))"

text \<open>The loop over the characters of combined short flags. A flag that is not boolean takes
  \<open>args[i + 1]\<close> and moves \<open>i\<close>.\<close>

fun combinedFlags1 ::
  "(string \<Rightarrow> 'n option) \<Rightarrow> (string \<rightharpoonup> string) \<Rightarrow> (string \<times> field) list \<Rightarrow> string list
     \<Rightarrow> string \<Rightarrow> 'n scan \<Rightarrow> 'n scan flow" where
  "combinedFlags1 Number tbl shape args [] st = Continue st"
| "combinedFlags1 Number tbl shape args (flag # flags) st =
     (let flagArg = [CHR ''-'', flag] in
      case lookupKey tbl flagArg of
        None \<Rightarrow> ReturnNull (logError (''Unknown option: '' @ flagArg) st)
      | Some optionKey \<Rightarrow>
          (let type = typeOf shape optionKey in
           if isBooleanKind type then
             combinedFlags1 Number tbl shape args flags (assign optionKey (VBoolean True) st)
           else
             (case at args (idx st + 1) of
                None \<Rightarrow> ReturnNull (logError (''Option '' @ flagArg @ '' requires a value'') st)
              | Some v \<Rightarrow>
                  if startsWith v ''-'' then
                    ReturnNull (logError (''Option '' @ flagArg @ '' requires a value'') st)
                  else
                    combinedFlags1 Number tbl shape args flags
                      (setIdx (idx st + 1)
                        (markProcessed (idx st + 1)
                          (assign optionKey (parseValue Number v type) st))))))"

text \<open>The branch \<open>arg.startsWith('-')\<close> of a token of at most two characters: as a long
  option, but with no array case.\<close>

definition shortOption1 ::
  "(string \<Rightarrow> 'n option) \<Rightarrow> (string \<rightharpoonup> string) \<Rightarrow> (string \<times> field) list \<Rightarrow> string list
     \<Rightarrow> 'n scan \<Rightarrow> 'n scan flow" where
  "shortOption1 Number tbl shape args st =
     (case splitInlineValue (args ! idx st) of (arg, value) \<Rightarrow>
        (case lookupKey tbl arg of
           None \<Rightarrow> ReturnNull (logError (''Unknown option: '' @ arg) st)
         | Some optionKey \<Rightarrow>
             (let st1 = markProcessed (idx st) st; type = typeOf shape optionKey in
              if isBooleanKind type then booleanOption1 value optionKey st1
              else scalarOption1 Number args arg value optionKey type st1)))"

text \<open>One pass of \<open>while (i < args.length)\<close>.\<close>

definition iteration1 ::
  "(string \<Rightarrow> 'n option) \<Rightarrow> (string \<rightharpoonup> string) \<Rightarrow> (string \<times> field) list \<Rightarrow> string list
     \<Rightarrow> 'n scan \<Rightarrow> 'n scan flow" where
  "iteration1 Number tbl shape args st =
     (let arg = args ! idx st in
      if startsWith arg ''--'' then longOption1 Number tbl shape args st
      else if startsWith arg ''-'' \<and> length arg > 2 then
        (case combinedFlags1 Number tbl shape args (drop 1 arg) st of
           ReturnNull s \<Rightarrow> ReturnNull s
         | Continue s \<Rightarrow> Continue (setIdx (idx s + 1) (markProcessed (idx s) s)))
      else if startsWith arg ''-'' then shortOption1 Number tbl shape args st
      else Continue (setIdx (idx st + 1) (markProcessed (idx st) st)))"


section \<open>The first copy's loop ends\<close>

lemma scan_updates [simp]:
  "idx (logError msg st) = idx st"
  "idx (assign k v st) = idx st"
  "idx (markProcessed j st) = idx st"
  "idx (setIdx j st) = j"
  "idx (setHelp st) = idx st"
  "parsedArgs (logError msg st) = parsedArgs st"
  "parsedArgs (assign k v st) = AList.update k v (parsedArgs st)"
  "parsedArgs (markProcessed j st) = parsedArgs st"
  "parsedArgs (setIdx j st) = parsedArgs st"
  "parsedArgs (setHelp st) = parsedArgs st"
  "processedIndices (logError msg st) = processedIndices st"
  "processedIndices (assign k v st) = processedIndices st"
  "processedIndices (markProcessed j st) = insert j (processedIndices st)"
  "processedIndices (setIdx j st) = processedIndices st"
  "processedIndices (setHelp st) = processedIndices st"
  "consoleError (logError msg st) = consoleError st @ [msg]"
  "consoleError (assign k v st) = consoleError st"
  "consoleError (markProcessed j st) = consoleError st"
  "consoleError (setIdx j st) = consoleError st"
  "consoleError (setHelp st) = consoleError st"
  "shouldDisplayHelp (logError msg st) = shouldDisplayHelp st"
  "shouldDisplayHelp (assign k v st) = shouldDisplayHelp st"
  "shouldDisplayHelp (markProcessed j st) = shouldDisplayHelp st"
  "shouldDisplayHelp (setIdx j st) = shouldDisplayHelp st"
  "shouldDisplayHelp (setHelp st) = True"
  by (simp_all add: logError_def assign_def markProcessed_def setIdx_def setHelp_def)

lemma consumeArrayValues_idx:
  "consumeArrayValues args vals st = (vs, s) \<Longrightarrow> idx st \<le> idx s"
proof (induction args vals st rule: consumeArrayValues.induct)
  case (1 args vals st)
  show ?case
  proof (cases "idx st < length args \<and> \<not> startsWith (args ! idx st) ''-''")
    case True
    with "1.prems" have "consumeArrayValues args (vals @ [args ! idx st])
          (setIdx (idx st + 1) (markProcessed (idx st) st)) = (vs, s)"
      by (simp add: consumeArrayValues.simps [of args vals st])
    from "1.IH" [OF True this] show ?thesis
      by simp
  next
    case False
    with "1.prems" show ?thesis
      by (simp add: consumeArrayValues.simps [of args vals st])
  qed
qed

lemma combinedFlags1_idx:
  "combinedFlags1 Number tbl shape args flags st = Continue s \<Longrightarrow> idx st \<le> idx s"
proof (induction flags arbitrary: st)
  case Nil
  then show ?case by simp
next
  case (Cons flag flags)
  then show ?case
    by (fastforce simp: Let_def split: option.splits if_splits)
qed



lemma booleanOption1_idx:
  "booleanOption1 value optionKey st = Continue s \<Longrightarrow> idx s = idx st + 1"
  by (auto simp: booleanOption1_def)

lemma scalarOption1_idx:
  "scalarOption1 Number args arg value optionKey type st = Continue s \<Longrightarrow> idx st < idx s"
  by (auto simp: scalarOption1_def split: option.splits if_splits)

lemma longOption1_idx:
  assumes "longOption1 Number tbl shape args st = Continue s"
  shows "idx st < idx s"
proof -
  obtain arg inl where sp: "splitInlineValue (args ! idx st) = (arg, inl)"
    by (cases "splitInlineValue (args ! idx st)")
  show ?thesis
  proof (cases "lookupKey tbl arg")
    case None
    with assms sp show ?thesis by (simp add: longOption1_def)
  next
    case (Some optionKey)
    let ?st1 = "markProcessed (idx st) st"
    let ?type = "typeOf shape optionKey"
    consider (b) "isBooleanKind ?type"
      | (a) "\<not> isBooleanKind ?type" "isZodArray ?type"
      | (s) "\<not> isBooleanKind ?type" "\<not> isZodArray ?type"
      by blast
    then show ?thesis
    proof cases
      case b
      with assms sp Some have "booleanOption1 inl optionKey ?st1 = Continue s"
        by (simp add: longOption1_def)
      from booleanOption1_idx [OF this] show ?thesis by simp
    next
      case a
      obtain vs st2 where c: "consumeArrayValues args [] (setIdx (idx ?st1 + 1) ?st1) = (vs, st2)"
        by (cases "consumeArrayValues args [] (setIdx (idx ?st1 + 1) ?st1)")
      with a assms sp Some have "s = assign optionKey (VArray vs) st2"
        by (simp add: longOption1_def Let_def)
      with consumeArrayValues_idx [OF c] show ?thesis by simp
    next
      case s
      with assms sp Some
      have "scalarOption1 Number args arg inl optionKey ?type ?st1 = Continue s"
        by (simp add: longOption1_def)
      from scalarOption1_idx [OF this] show ?thesis by simp
    qed
  qed
qed

lemma shortOption1_idx:
  assumes "shortOption1 Number tbl shape args st = Continue s"
  shows "idx st < idx s"
proof -
  obtain arg inl where sp: "splitInlineValue (args ! idx st) = (arg, inl)"
    by (cases "splitInlineValue (args ! idx st)")
  show ?thesis
  proof (cases "lookupKey tbl arg")
    case None
    with assms sp show ?thesis by (simp add: shortOption1_def)
  next
    case (Some optionKey)
    let ?st1 = "markProcessed (idx st) st"
    let ?type = "typeOf shape optionKey"
    show ?thesis
    proof (cases "isBooleanKind ?type")
      case True
      with assms sp Some have "booleanOption1 inl optionKey ?st1 = Continue s"
        by (simp add: shortOption1_def)
      from booleanOption1_idx [OF this] show ?thesis by simp
    next
      case False
      with assms sp Some
      have "scalarOption1 Number args arg inl optionKey ?type ?st1 = Continue s"
        by (simp add: shortOption1_def)
      from scalarOption1_idx [OF this] show ?thesis by simp
    qed
  qed
qed

lemma iteration1_progress:
  assumes "iteration1 Number tbl shape args st = Continue s"
  shows "idx st < idx s"
proof -
  let ?arg = "args ! idx st"
  consider (long) "startsWith ?arg ''--''"
    | (combined) "\<not> startsWith ?arg ''--''" "startsWith ?arg ''-'' \<and> length ?arg > 2"
    | (short) "\<not> startsWith ?arg ''--''" "\<not> (startsWith ?arg ''-'' \<and> length ?arg > 2)"
        "startsWith ?arg ''-''"
    | (bare) "\<not> startsWith ?arg ''--''" "\<not> (startsWith ?arg ''-'' \<and> length ?arg > 2)"
        "\<not> startsWith ?arg ''-''"
    by blast
  then show ?thesis
  proof cases
    case long
    with assms have "longOption1 Number tbl shape args st = Continue s"
      by (simp add: iteration1_def)
    then show ?thesis by (rule longOption1_idx)
  next
    case combined
    with assms obtain s' where
      c: "combinedFlags1 Number tbl shape args (drop 1 ?arg) st = Continue s'" and
      s: "s = setIdx (idx s' + 1) (markProcessed (idx s') s')"
      by (auto simp: iteration1_def split: flow.splits)
    from combinedFlags1_idx [OF c] s show ?thesis by simp
  next
    case short
    with assms have "shortOption1 Number tbl shape args st = Continue s"
      by (simp add: iteration1_def)
    then show ?thesis by (rule shortOption1_idx)
  next
    case bare
    with assms show ?thesis by (auto simp: iteration1_def)
  qed
qed

text \<open>\<open>while (i < args.length) { ... }\<close>: every pass moves \<open>i\<close> forward.\<close>

function scan1 ::
  "(string \<Rightarrow> 'n option) \<Rightarrow> (string \<rightharpoonup> string) \<Rightarrow> (string \<times> field) list \<Rightarrow> string list
     \<Rightarrow> 'n scan \<Rightarrow> 'n scan flow" where
  "scan1 Number tbl shape args st =
     (if idx st < length args then
        (case iteration1 Number tbl shape args st of
           ReturnNull s \<Rightarrow> ReturnNull s
         | Continue s \<Rightarrow> scan1 Number tbl shape args s)
      else Continue st)"
  by pat_completeness auto
termination
proof (relation "measure (\<lambda>(Number, tbl, shape, args, st). length args - idx st)")
  show "wf (measure (\<lambda>(Number, tbl, shape, args, st). length args - idx st))"
    by simp
next
  fix Number :: "string \<Rightarrow> 'n option" and tbl shape args and st s :: "'n scan"
  assume "idx st < length args" and "iteration1 Number tbl shape args st = Continue s"
  then show "((Number, tbl, shape, args, s), (Number, tbl, shape, args, st))
      \<in> measure (\<lambda>(Number, tbl, shape, args, st). length args - idx st)"
    using iteration1_progress [of Number tbl shape args st s] by simp
qed

declare scan1.simps [simp del]


section \<open>Validation errors\<close>

text \<open>The line of one issue: \<open>issue.path.join(' -> ') || 'Input'\<close>, then the message.\<close>

definition issuePath :: "issue \<Rightarrow> string" where
  "issuePath i = (let p = join (path i) '' -> '' in if p = [] then ''Input'' else p)"

definition issueLine :: "issue \<Rightarrow> string" where
  "issueLine i = ''  - '' @ issuePath i @ '': '' @ message i"

text \<open>First copy: one \<open>console.error\<close> for the header and one for every issue.\<close>

definition displayValidationErrors1 :: "issue list \<Rightarrow> 'n scan \<Rightarrow> 'n scan" where
  "displayValidationErrors1 issues st =
     foldl (\<lambda>s i. logError (issueLine i) s) (logError ''Argument validation failed:'' st) issues"

text \<open>Second copy and index.ts (\<open>showValidationErrors\<close>): one message, every line ended by a
  line feed, trimmed, in one \<open>console.error\<close>.\<close>

definition displayValidationErrors :: "issue list \<Rightarrow> 'n scan \<Rightarrow> 'n scan" where
  "displayValidationErrors issues st =
     logError
       (trim (foldl (\<lambda>errorMessage i. errorMessage @ issueLine i @ [CHR 0x0A])
                (''Argument validation failed:'' @ [CHR 0x0A]) issues))
       st"

section \<open>zli.ts, first copy: the resolver\<close>

text \<open>\<open>args.filter((_, index) => !processedIndices.has(index))\<close>\<close>

definition unprocessedArgs :: "string list \<Rightarrow> nat set \<Rightarrow> string list" where
  "unprocessedArgs args processed =
     map fst (filter (\<lambda>(a, index). index \<notin> processed) (zip args [0..<length args]))"

text \<open>The result of a resolver: the exception it throws, or what it returns (\<open>null\<close> is
  \<open>None\<close>) with the final state, which holds the lines it wrote.\<close>

definition parseArgs1 ::
  "(string \<Rightarrow> 'n option) \<Rightarrow> (schema \<Rightarrow> 'n parsed \<Rightarrow> issue list + 'n parsed) \<Rightarrow> string list
     \<Rightarrow> schema \<Rightarrow> jsError + ('n parsed option \<times> 'n scan)" where
  "parseArgs1 Number safeParse args schema =
     (case unwrapSchema1 schema of
        Inl e \<Rightarrow> Inl e
      | Inr (shape, d) \<Rightarrow>
          (case scan1 Number (recognizedOptions1 shape) shape args (initialScan False) of
             ReturnNull s \<Rightarrow> Inr (None, s)
           | Continue s \<Rightarrow>
               (case unprocessedArgs args (processedIndices s) of
                  u # _ \<Rightarrow> Inr (None, logError (''Unknown argument: '' @ u) s)
                | [] \<Rightarrow>
                    (case safeParse schema (parsedArgs s) of
                       Inl issues \<Rightarrow> Inr (None, displayValidationErrors1 issues s)
                     | Inr data \<Rightarrow> Inr (Some data, s)))))"

section \<open>zli.ts, second copy: parseOption and parseArgs\<close>

text \<open>The second copy also sets \<open>-key\<close> for every key, between \<open>--key\<close> and the aliases.\<close>

definition recognizedOptions2 :: "(string \<times> field) list \<Rightarrow> (string \<rightharpoonup> string)" where
  "recognizedOptions2 shape =
     foldl (\<lambda>m (key, f).
         foldl (\<lambda>m alias. m(alias \<mapsto> key)) (m(''--'' @ key \<mapsto> key, ''-'' @ key \<mapsto> key))
           (getAliases f))
       Map.empty shape"

text \<open>The second copy unwraps every effects layer.\<close>

fun unwrapSchema2 :: "schema \<Rightarrow> jsError + (string \<times> field) list \<times> string option" where
  "unwrapSchema2 (ZodEffects inner d) = unwrapSchema2 inner"
| "unwrapSchema2 (ZodObject shape d) = Inr (shape, d)"
| "unwrapSchema2 (ZodOtherSchema d) = Inl (Error ''Unsupported schema type'')"

text \<open>\<open>ParseOptionResult\<close>: \<open>{newIndex, success: false}\<close>, or \<open>{optionKey, fieldType, value?,
  newIndex, success: true}\<close>.\<close>

datatype parseOptionResult =
    OptionFailure nat
  | OptionSuccess string zodType "string option" nat

text \<open>\<open>value ? value : 'true'\<close>\<close>

definition orTrue :: "string option \<Rightarrow> string" where
  "orTrue value = (case value of None \<Rightarrow> ''true'' | Some v \<Rightarrow> if v = [] then ''true'' else v)"

definition parseOption ::
  "string \<Rightarrow> string list \<Rightarrow> nat \<Rightarrow> (string \<rightharpoonup> string) \<Rightarrow> (string \<times> field) list \<Rightarrow> 'n scan
     \<Rightarrow> parseOptionResult \<times> 'n scan" where
  "parseOption arg0 args i tbl shape st =
     (case splitInlineValue arg0 of (arg, value) \<Rightarrow>
        (case lookupKey tbl arg of
           None \<Rightarrow> (OptionFailure i, setHelp (logError (''Unknown option: '' @ arg) st))
         | Some optionKey \<Rightarrow>
             (let st1 = markProcessed i st in
              case map_of shape optionKey of
                None \<Rightarrow> (OptionFailure i, setHelp (logError (''Unknown option: '' @ arg) st1))
              | Some f \<Rightarrow>
                  (let type = fieldType f in
                   if isBooleanKind type then
                     (OptionSuccess optionKey type (Some (orTrue value)) i, st1)
                   else if isZodArray type then
                     (OptionSuccess optionKey type None i, st1)
                   else if \<not> truthy value then
                     (if i + 1 \<ge> length args \<or> startsWith (args ! (i + 1)) ''-'' then
                        (OptionFailure i,
                         setHelp (logError (''Option '' @ arg @ '' requires a value'') st1))
                      else
                        (OptionSuccess optionKey type (Some (args ! (i + 1))) (i + 2),
                         markProcessed (i + 1) st1))
                   else (OptionSuccess optionKey type value (i + 1), st1)))))"

text \<open>The branch \<open>arg.startsWith('--')\<close>. An array option with a truthy \<open>value\<close> would be
  split on commas and leave \<open>i\<close> where it is.\<close>

definition longOption2 ::
  "(string \<Rightarrow> 'n option) \<Rightarrow> (string \<rightharpoonup> string) \<Rightarrow> (string \<times> field) list \<Rightarrow> string list
     \<Rightarrow> 'n scan \<Rightarrow> 'n scan flow" where
  "longOption2 Number tbl shape args st =
     (case parseOption (args ! idx st) args (idx st) tbl shape st of
        (OptionFailure newIndex, st1) \<Rightarrow> ReturnNull st1
      | (OptionSuccess optionKey type value newIndex, st1) \<Rightarrow>
          (let st2 = setIdx newIndex st1 in
           if isBooleanKind type then
             Continue (setIdx (idx st2 + 1) (assign optionKey (VBoolean (value = Some ''true'')) st2))
           else if isZodArray type then
             (if truthy value then
                Continue (assign optionKey (VArray (split (the value) (CHR '',''))) st2)
              else
                (case consumeArrayValues args [] (setIdx (idx st2 + 1) st2) of
                   (values, st3) \<Rightarrow> Continue (assign optionKey (VArray values) st3)))
           else
             Continue (setIdx newIndex (assign optionKey (parseValueOpt Number value type) st2))))"

text \<open>The loop over combined short flags; \<open>i\<close> already points behind the token.\<close>

fun combinedFlags2 ::
  "(string \<Rightarrow> 'n option) \<Rightarrow> (string \<rightharpoonup> string) \<Rightarrow> (string \<times> field) list \<Rightarrow> string list
     \<Rightarrow> string \<Rightarrow> 'n scan \<Rightarrow> 'n scan flow" where
  "combinedFlags2 Number tbl shape args [] st = Continue st"
| "combinedFlags2 Number tbl shape args (flag # flags) st =
     (let flagArg = [CHR ''-'', flag] in
      case parseOption flagArg args (idx st - 1) tbl shape st of
        (OptionFailure newIndex, st1) \<Rightarrow> ReturnNull st1
      | (OptionSuccess optionKey type value newIndex, st1) \<Rightarrow>
          if isBooleanKind type then
            combinedFlags2 Number tbl shape args flags (assign optionKey (VBoolean True) st1)
          else if idx st1 \<ge> length args \<or> startsWith (args ! idx st1) ''-'' then
            ReturnNull (setHelp (logError (''Option '' @ flagArg @ '' requires a value'') st1))
          else
            combinedFlags2 Number tbl shape args flags
              (assign optionKey (parseValue Number (args ! idx st1) type)
                (setIdx (idx st1 + 1) (markProcessed (idx st1) st1))))"

text \<open>The branch of a single short option. It has no array case: for an array field
  \<open>parseOption\<close> returns no value and \<open>newIndex: i\<close>, and \<open>i\<close> stays.\<close>

definition shortOption2 ::
  "(string \<Rightarrow> 'n option) \<Rightarrow> (string \<rightharpoonup> string) \<Rightarrow> (string \<times> field) list \<Rightarrow> string list
     \<Rightarrow> 'n scan \<Rightarrow> 'n scan flow" where
  "shortOption2 Number tbl shape args st =
     (case parseOption (args ! idx st) args (idx st) tbl shape st of
        (OptionFailure newIndex, st1) \<Rightarrow> ReturnNull st1
      | (OptionSuccess optionKey type value newIndex, st1) \<Rightarrow>
          (let st2 = setIdx newIndex st1 in
           if isBooleanKind type then
             Continue (setIdx (idx st2 + 1) (assign optionKey (VBoolean (value = Some ''true'')) st2))
           else
             Continue (setIdx newIndex (assign optionKey (parseValueOpt Number value type) st2))))"

definition iteration2 ::
  "(string \<Rightarrow> 'n option) \<Rightarrow> (string \<rightharpoonup> string) \<Rightarrow> (string \<times> field) list \<Rightarrow> string list
     \<Rightarrow> 'n scan \<Rightarrow> 'n scan flow" where
  "iteration2 Number tbl shape args st =
     (let arg = args ! idx st in
      if startsWith arg ''--'' then longOption2 Number tbl shape args st
      else if startsWith arg ''-'' \<and> length arg > 2 \<and> \<not> startsWith arg ''--'' then
        combinedFlags2 Number tbl shape args (drop 1 arg)
          (setIdx (idx st + 1) (markProcessed (idx st) st))
      else if startsWith arg ''-'' then shortOption2 Number tbl shape args st
      else ReturnNull (setHelp (logError (''Unknown argument: '' @ arg) st)))"

text \<open>\<open>while (i < args.length) { ... }\<close> of the second copy. A pass can leave \<open>i\<close> where it
  is, so the loop is partial: \<open>None\<close> is a run that never ends.\<close>

partial_function (option) scan2 ::
  "(string \<Rightarrow> 'n option) \<Rightarrow> (string \<rightharpoonup> string) \<Rightarrow> (string \<times> field) list \<Rightarrow> string list
     \<Rightarrow> 'n scan \<Rightarrow> 'n scan flow option" where
  "scan2 Number tbl shape args st =
     (if idx st < length args then
        (case iteration2 Number tbl shape args st of
           ReturnNull s \<Rightarrow> Some (ReturnNull s)
         | Continue s \<Rightarrow> scan2 Number tbl shape args s)
      else Some (Continue st))"

declare scan2.simps [code]

text \<open>\<open>h\<close> is \<open>this.shouldDisplayHelp\<close> at the call.\<close>

definition parseArgs2 ::
  "(string \<Rightarrow> 'n option) \<Rightarrow> (schema \<Rightarrow> 'n parsed \<Rightarrow> issue list + 'n parsed) \<Rightarrow> bool
     \<Rightarrow> string list \<Rightarrow> schema \<Rightarrow> (jsError + ('n parsed option \<times> 'n scan)) option" where
  "parseArgs2 Number safeParse h args schema =
     (case unwrapSchema2 schema of
        Inl e \<Rightarrow> Some (Inl e)
      | Inr (shape, d) \<Rightarrow>
          (case scan2 Number (recognizedOptions2 shape) shape args (initialScan h) of
             None \<Rightarrow> None
           | Some (ReturnNull s) \<Rightarrow> Some (Inr (None, s))
           | Some (Continue s) \<Rightarrow>
               (case safeParse schema (parsedArgs s) of
                  Inl issues \<Rightarrow> Some (Inr (None, setHelp (displayValidationErrors issues s)))
                | Inr data \<Rightarrow> Some (Inr (Some data, s)))))"


section \<open>index.ts: processOptionValue, processCombinedShortFlags and processArguments\<close>

text \<open>\<open>optionAliasMap\<close> is built as the second copy's table, \<open>resolveSchema\<close> is its
  \<open>unwrapSchema\<close>, and \<open>processOptionValue\<close> is its \<open>parseOption\<close> line by line.\<close>

definition optionAliasMap :: "(string \<times> field) list \<Rightarrow> (string \<rightharpoonup> string)" where
  "optionAliasMap shape =
     foldl (\<lambda>m (key, f).
         foldl (\<lambda>m alias. m(alias \<mapsto> key)) (m(''--'' @ key \<mapsto> key, ''-'' @ key \<mapsto> key))
           (getAliases f))
       Map.empty shape"

fun resolveSchema :: "schema \<Rightarrow> jsError + (string \<times> field) list \<times> string option" where
  "resolveSchema (ZodEffects inner d) = resolveSchema inner"
| "resolveSchema (ZodObject shape d) = Inr (shape, d)"
| "resolveSchema (ZodOtherSchema d) = Inl (Error ''Unsupported schema type'')"

definition processOptionValue ::
  "string \<Rightarrow> string list \<Rightarrow> nat \<Rightarrow> (string \<rightharpoonup> string) \<Rightarrow> (string \<times> field) list \<Rightarrow> 'n scan
     \<Rightarrow> parseOptionResult \<times> 'n scan" where
  "processOptionValue arg0 args i tbl shape st =
     (case splitInlineValue arg0 of (arg, value) \<Rightarrow>
        (case lookupKey tbl arg of
           None \<Rightarrow> (OptionFailure i, setHelp (logError (''Unknown option: '' @ arg) st))
         | Some optionKey \<Rightarrow>
             (let st1 = markProcessed i st in
              case map_of shape optionKey of
                None \<Rightarrow> (OptionFailure i, setHelp (logError (''Unknown option: '' @ arg) st1))
              | Some f \<Rightarrow>
                  (let type = fieldType f in
                   if isBooleanKind type then
                     (OptionSuccess optionKey type (Some (orTrue value)) i, st1)
                   else if isZodArray type then
                     (OptionSuccess optionKey type None i, st1)
                   else if \<not> truthy value then
                     (if i + 1 \<ge> length args \<or> startsWith (args ! (i + 1)) ''-'' then
                        (OptionFailure i,
                         setHelp (logError (''Option '' @ arg @ '' requires a value'') st1))
                      else
                        (OptionSuccess optionKey type (Some (args ! (i + 1))) (i + 2),
                         markProcessed (i + 1) st1))
                   else (OptionSuccess optionKey type value (i + 1), st1)))))"

text \<open>\<open>processArrayArgs(args, index)\<close>: \<open>for (let i = index; i < args.length &&
  !args[i].startsWith('-'); i++) values.push(args[i])\<close>.\<close>

function processArrayArgsFrom :: "string list \<Rightarrow> nat \<Rightarrow> string list \<Rightarrow> string list" where
  "processArrayArgsFrom args i values =
     (if i < length args \<and> \<not> startsWith (args ! i) ''-'' then
        processArrayArgsFrom args (i + 1) (values @ [args ! i])
      else values)"
  by pat_completeness auto
termination
  by (relation "measure (\<lambda>(args, i, values). length args - i)") auto

declare processArrayArgsFrom.simps [simp del]

definition processArrayArgs :: "string list \<Rightarrow> nat \<Rightarrow> string list" where
  "processArrayArgs args index = processArrayArgsFrom args index []"

text \<open>The loop of \<open>processCombinedShortFlags\<close>. Its local \<open>i\<close> is the state's index, and the
  state it ends in holds the number it returns. A failure sets \<open>shouldDisplayHelp\<close> and
  returns \<open>i\<close> like a success does.\<close>

fun combinedFlagsLoop ::
  "(string \<Rightarrow> 'n option) \<Rightarrow> (string \<rightharpoonup> string) \<Rightarrow> (string \<times> field) list \<Rightarrow> string list
     \<Rightarrow> string \<Rightarrow> 'n scan \<Rightarrow> 'n scan" where
  "combinedFlagsLoop Number tbl shape args [] st = st"
| "combinedFlagsLoop Number tbl shape args (flag # flags) st =
     (let flagArg = [CHR ''-'', flag] in
      case processOptionValue flagArg args (idx st - 1) tbl shape st of
        (OptionFailure newIndex, st1) \<Rightarrow> setHelp st1
      | (OptionSuccess optionKey type value newIndex, st1) \<Rightarrow>
          if isBooleanKind type then
            combinedFlagsLoop Number tbl shape args flags (assign optionKey (VBoolean True) st1)
          else if idx st1 \<ge> length args \<or> startsWith (args ! idx st1) ''-'' then
            setHelp (logError (''Option '' @ flagArg @ '' requires a value'') st1)
          else
            combinedFlagsLoop Number tbl shape args flags
              (assign optionKey (parseValue Number (args ! idx st1) type)
                (setIdx (idx st1 + 1) (markProcessed (idx st1) st1))))"

definition processCombinedShortFlags ::
  "(string \<Rightarrow> 'n option) \<Rightarrow> string \<Rightarrow> string list \<Rightarrow> nat \<Rightarrow> (string \<rightharpoonup> string)
     \<Rightarrow> (string \<times> field) list \<Rightarrow> 'n scan \<Rightarrow> 'n scan" where
  "processCombinedShortFlags Number arg args i tbl shape st =
     combinedFlagsLoop Number tbl shape args (drop 1 arg) (setIdx (i + 1) (markProcessed i st))"

text \<open>One pass of \<open>for (let i = 0; i < args.length; i++)\<close>, with the \<open>i++\<close> that follows
  every \<open>continue\<close>: \<open>i = result.newIndex - 1\<close> and then \<open>i++\<close> is \<open>newIndex\<close>, and so for the
  number \<open>processCombinedShortFlags\<close> returns.\<close>

definition iteration3 ::
  "(string \<Rightarrow> 'n option) \<Rightarrow> (string \<rightharpoonup> string) \<Rightarrow> (string \<times> field) list \<Rightarrow> string list
     \<Rightarrow> 'n scan \<Rightarrow> 'n scan flow" where
  "iteration3 Number tbl shape args st =
     (let i = idx st; arg = args ! i in
      if startsWith arg ''--'' then
        (case processOptionValue arg args i tbl shape st of
           (OptionFailure newIndex, st1) \<Rightarrow> ReturnNull st1
         | (OptionSuccess optionKey type value newIndex, st1) \<Rightarrow>
             if isBooleanKind type then
               Continue (setIdx (i + 1) (assign optionKey (VBoolean (value = Some ''true'')) st1))
             else if isZodArray type then
               Continue (setIdx (i + 1)
                 (assign optionKey
                   (VArray (if truthy value then split (the value) (CHR '','')
                            else processArrayArgs args i))
                   st1))
             else
               Continue (setIdx newIndex (assign optionKey (parseValueOpt Number value type) st1)))
      else if startsWith arg ''-'' \<and> length arg > 2 then
        Continue (processCombinedShortFlags Number arg args i tbl shape st)
      else ReturnNull (setHelp (logError (''Unknown argument: '' @ arg) st)))"

lemma processOptionValue_newIndex:
  assumes "processOptionValue arg0 args i tbl shape st = (OptionSuccess k t v n, s)"
    and "\<not> isBooleanKind t" and "\<not> isZodArray t"
  shows "i < n"
proof -
  obtain arg inl where sp: "splitInlineValue arg0 = (arg, inl)"
    by (cases "splitInlineValue arg0")
  from assms sp show ?thesis
    by (auto simp: processOptionValue_def Let_def split: option.splits if_splits)
qed

lemma processOptionValue_idx:
  "processOptionValue arg0 args i tbl shape st = (r, s) \<Longrightarrow> idx s = idx st"
  by (auto simp: processOptionValue_def Let_def split: option.splits if_splits prod.splits)

lemma combinedFlagsLoop_idx:
  "idx st \<le> idx (combinedFlagsLoop Number tbl shape args flags st)"
proof (induction flags arbitrary: st)
  case Nil
  show ?case by simp
next
  case (Cons flag flags)
  obtain r st1 where p: "processOptionValue [CHR ''-'', flag] args (idx st - 1) tbl shape st = (r, st1)"
    by (cases "processOptionValue [CHR ''-'', flag] args (idx st - 1) tbl shape st")
  have i1: "idx st1 = idx st"
    using processOptionValue_idx [OF p] .
  show ?case
  proof (cases r)
    case (OptionFailure n)
    with p i1 show ?thesis by simp
  next
    case (OptionSuccess k t v n)
    have a: "idx st \<le> idx (combinedFlagsLoop Number tbl shape args flags (assign k (VBoolean True) st1))"
      using Cons.IH [of "assign k (VBoolean True) st1"] i1 by simp
    have b: "idx st \<le> idx (combinedFlagsLoop Number tbl shape args flags
              (assign k (parseValue Number (args ! idx st1) t)
                (setIdx (idx st1 + 1) (markProcessed (idx st1) st1))))"
      using Cons.IH [of "assign k (parseValue Number (args ! idx st1) t)
                (setIdx (idx st1 + 1) (markProcessed (idx st1) st1))"] i1 by simp
    from p OptionSuccess i1 a b show ?thesis by simp
  qed
qed

lemma iteration3_progress:
  assumes "iteration3 Number tbl shape args st = Continue s"
  shows "idx st < idx s"
proof -
  let ?arg = "args ! idx st"
  show ?thesis
  proof (cases "startsWith ?arg ''--''")
    case True
    obtain r st1 where p: "processOptionValue ?arg args (idx st) tbl shape st = (r, st1)"
      by (cases "processOptionValue ?arg args (idx st) tbl shape st")
    show ?thesis
    proof (cases r)
      case (OptionFailure n)
      with assms True p show ?thesis by (simp add: iteration3_def)
    next
      case (OptionSuccess k t v n)
      with assms True p processOptionValue_newIndex [of ?arg args "idx st" tbl shape st k t v n st1]
      show ?thesis
        by (auto simp: iteration3_def Let_def split: if_splits)
    qed
  next
    case False
    with assms have s: "s = processCombinedShortFlags Number ?arg args (idx st) tbl shape st"
      by (auto simp: iteration3_def Let_def split: if_splits)
    have "idx (setIdx (idx st + 1) (markProcessed (idx st) st)) \<le> idx s"
      unfolding s processCombinedShortFlags_def by (rule combinedFlagsLoop_idx)
    then show ?thesis by simp
  qed
qed

text \<open>The \<open>for\<close> loop of \<open>processArguments\<close>.\<close>

function scan3 ::
  "(string \<Rightarrow> 'n option) \<Rightarrow> (string \<rightharpoonup> string) \<Rightarrow> (string \<times> field) list \<Rightarrow> string list
     \<Rightarrow> 'n scan \<Rightarrow> 'n scan flow" where
  "scan3 Number tbl shape args st =
     (if idx st < length args then
        (case iteration3 Number tbl shape args st of
           ReturnNull s \<Rightarrow> ReturnNull s
         | Continue s \<Rightarrow> scan3 Number tbl shape args s)
      else Continue st)"
  by pat_completeness auto
termination
proof (relation "measure (\<lambda>(Number, tbl, shape, args, st). length args - idx st)")
  show "wf (measure (\<lambda>(Number, tbl, shape, args, st). length args - idx st))"
    by simp
next
  fix Number :: "string \<Rightarrow> 'n option" and tbl shape args and st s :: "'n scan"
  assume "idx st < length args" and "iteration3 Number tbl shape args st = Continue s"
  then show "((Number, tbl, shape, args, s), (Number, tbl, shape, args, st))
      \<in> measure (\<lambda>(Number, tbl, shape, args, st). length args - idx st)"
    using iteration3_progress [of Number tbl shape args st s] by simp
qed

declare scan3.simps [simp del]

definition processArguments ::
  "(string \<Rightarrow> 'n option) \<Rightarrow> (schema \<Rightarrow> 'n parsed \<Rightarrow> issue list + 'n parsed) \<Rightarrow> bool
     \<Rightarrow> string list \<Rightarrow> schema \<Rightarrow> jsError + ('n parsed option \<times> 'n scan)" where
  "processArguments Number safeParse h args schema =
     (case resolveSchema schema of
        Inl e \<Rightarrow> Inl e
      | Inr (shape, d) \<Rightarrow>
          (case scan3 Number (optionAliasMap shape) shape args (initialScan h) of
             ReturnNull s \<Rightarrow> Inr (None, s)
           | Continue s \<Rightarrow>
               (case safeParse schema (parsedArgs s) of
                  Inl issues \<Rightarrow> Inr (None, setHelp (displayValidationErrors issues s))
                | Inr data \<Rightarrow> Inr (Some data, s))))"


section \<open>The dispatcher: commands, help and parse\<close>

text \<open>What a handler does with the record it is given: it returns, or it throws a value.
  \<open>ThrownValue m\<close> is a value whose \<open>message\<close> property prints as \<open>m\<close> (an \<open>Error\<close> with
  that message); \<open>ThrownNullish\<close> is \<open>null\<close> or \<open>undefined\<close>, on which reading
  \<open>error.message\<close> in the \<open>catch\<close> block is itself a \<open>TypeError\<close>.\<close>

datatype thrown = ThrownValue string | ThrownNullish

datatype handlerResult = Returns | Throws thrown

text \<open>\<open>CommandDefinition\<close> (index.ts has no \<open>aliases\<close> and never reads them).\<close>

record 'n commandDefinition =
  cmdSchema :: schema
  cmdHandler :: "'n parsed \<Rightarrow> handlerResult"
  cmdAliases :: "string list"

text \<open>What a caller of \<open>parse\<close> can observe: the two console channels and the calls of
  handlers; and how \<open>parse\<close> ends.\<close>

datatype 'n event =
    ConsoleLog string
  | ConsoleError string
  | HandlerCalled string "'n parsed"

datatype completion = ReturnsNormally | ThrowsError jsError

text \<open>\<open>addCommand\<close>: \<open>this.commands[commandName] = { schema, handler, aliases }\<close>. The list
  holds the properties of \<open>this.commands\<close> in the order of their creation; assigning to a
  name that is there keeps its place.\<close>

definition addCommand ::
  "string \<Rightarrow> schema \<Rightarrow> ('n parsed \<Rightarrow> handlerResult) \<Rightarrow> string list
     \<Rightarrow> (string \<times> 'n commandDefinition) list \<Rightarrow> (string \<times> 'n commandDefinition) list" where
  "addCommand commandName sch h als commands =
     AList.update commandName \<lparr>cmdSchema = sch, cmdHandler = h, cmdAliases = als\<rparr> commands"

text \<open>\<open>Object.entries(obj)\<close> lists the properties whose name is an array index first (the
  canonical decimal numeral of a number below \<open>2^32 - 1\<close>), by ascending number, and then
  the other properties in the order of their creation.\<close>

definition digitsValue :: "string \<Rightarrow> nat" where
  "digitsValue s = foldl (\<lambda>n c. 10 * n + (of_char c - 48)) 0 s"

definition isArrayIndex :: "string \<Rightarrow> bool" where
  "isArrayIndex s =
     (s \<noteq> [] \<and> list_all (\<lambda>c. 48 \<le> (of_char c :: nat) \<and> (of_char c :: nat) \<le> 57) s
      \<and> (length s = 1 \<or> hd s \<noteq> CHR ''0'') \<and> digitsValue s < 4294967295)"

definition objectEntries :: "(string \<times> 'a) list \<Rightarrow> (string \<times> 'a) list" where
  "objectEntries obj =
     sort_key (\<lambda>(name, v). digitsValue name) (filter (\<lambda>(name, v). isArrayIndex name) obj)
       @ filter (\<lambda>(name, v). \<not> isArrayIndex name) obj"

text \<open>\<open>Object.entries(this.commands).find(([cmdName, cmd]) => [cmdName,
  ...cmd.aliases].includes(subcommand))\<close>; index.ts looks at \<open>[cmdName]\<close> only.\<close>

definition findCommand ::
  "(string \<times> 'n commandDefinition) list \<Rightarrow> string \<Rightarrow> (string \<times> 'n commandDefinition) option" where
  "findCommand commands subcommand =
     find (\<lambda>(cmdName, cmd). subcommand \<in> set (cmdName # cmdAliases cmd)) (objectEntries commands)"

definition findCommand3 ::
  "(string \<times> 'n commandDefinition) list \<Rightarrow> string \<Rightarrow> (string \<times> 'n commandDefinition) option" where
  "findCommand3 commands subcommand =
     find (\<lambda>(cmdName, cmd). subcommand \<in> set [cmdName]) (objectEntries commands)"

definition nl :: string where
  "nl = [CHR 0x0A]"

text \<open>The text \<open>(a, b, ...)\<close> of a non-empty alias list, after a space; else nothing.\<close>

definition aliasText :: "string list \<Rightarrow> string" where
  "aliasText as = (if length as > 0 then '' ('' @ join as '', '' @ '')'' else [])"

definition commandLine :: "string \<times> 'n commandDefinition \<Rightarrow> string" where
  "commandLine c =
     (case c of (commandName, cmd) \<Rightarrow>
        ''  '' @ commandName @ aliasText (cmdAliases cmd) @ '': ''
          @ orNoDescription (getDescription (cmdSchema cmd)))"

definition commandLine3 :: "string \<times> 'n commandDefinition \<Rightarrow> string" where
  "commandLine3 c =
     (case c of (commandName, cmd) \<Rightarrow>
        ''  '' @ commandName @ '': '' @ orNoDescription (getDescription (cmdSchema cmd)))"

text \<open>\<open>displayHelp\<close>, over \<open>Object.entries(this.commands)\<close>: the first copy logs line by
  line, the others one message.\<close>

definition displayHelp1 :: "(string \<times> 'n commandDefinition) list \<Rightarrow> 'n event list" where
  "displayHelp1 commands =
     [ConsoleLog ''Available commands:''] @ map (\<lambda>c. ConsoleLog (commandLine c)) (objectEntries commands)
       @ [ConsoleLog (nl @ ''Use --help with a command for more details.'')]"

definition displayHelp2 :: "(string \<times> 'n commandDefinition) list \<Rightarrow> 'n event list" where
  "displayHelp2 commands =
     [ConsoleLog
        (foldl (\<lambda>helpMessage c. helpMessage @ commandLine c @ nl) (''Available commands:'' @ nl)
           (objectEntries commands)
         @ nl @ ''Use --help with a command for more details.'')]"

definition displayHelp3 :: "(string \<times> 'n commandDefinition) list \<Rightarrow> 'n event list" where
  "displayHelp3 commands =
     [ConsoleLog
        (foldl (\<lambda>helpMessage c. helpMessage @ commandLine3 c @ nl) (''Available commands:'' @ nl)
           (objectEntries commands)
         @ nl @ ''Use --help with a command for more details.'')]"

definition optionLine :: "string \<times> field \<Rightarrow> string" where
  "optionLine kf =
     (case kf of (key, type) \<Rightarrow>
        ''  --'' @ key @ aliasText (getAliases type) @ '' ''
          @ (if isOptional type then ''(optional)'' else ''(required)'') @ '': ''
          @ orNoDescription (defDescription type))"

text \<open>\<open>displayHelpForCommand\<close> unwraps the schema first, and throws what that throws.\<close>

definition displayHelpForCommand1 :: "string \<Rightarrow> schema \<Rightarrow> jsError + 'n event list" where
  "displayHelpForCommand1 commandName sch =
     (case unwrapSchema1 sch of
        Inl e \<Rightarrow> Inl e
      | Inr (shape, d) \<Rightarrow>
          Inr ([ConsoleLog (nl @ ''Usage: '' @ commandName @ '' [options]'' @ nl),
                ConsoleLog (orNoDescription d @ nl @ ''Options:'')]
               @ map (\<lambda>kf. ConsoleLog (optionLine kf)) shape
               @ [ConsoleLog (nl @ ''Examples:'')]))"

definition helpMessage :: "string \<Rightarrow> (string \<times> field) list \<Rightarrow> string option \<Rightarrow> string" where
  "helpMessage commandName shape d =
     foldl (\<lambda>msg kf. msg @ optionLine kf @ nl)
       (nl @ ''Usage: '' @ commandName @ '' [options]'' @ nl @ nl
          @ orNoDescription d @ nl @ nl @ ''Options:'' @ nl)
       shape
     @ nl @ ''Examples:''"

definition displayHelpForCommand2 :: "string \<Rightarrow> schema \<Rightarrow> jsError + 'n event list" where
  "displayHelpForCommand2 commandName sch =
     (case unwrapSchema2 sch of
        Inl e \<Rightarrow> Inl e
      | Inr (shape, d) \<Rightarrow> Inr [ConsoleLog (helpMessage commandName shape d)])"

definition displayHelpForCommand3 :: "string \<Rightarrow> schema \<Rightarrow> jsError + 'n event list" where
  "displayHelpForCommand3 commandName sch =
     (case resolveSchema sch of
        Inl e \<Rightarrow> Inl e
      | Inr (shape, d) \<Rightarrow> Inr [ConsoleLog (helpMessage commandName shape d)])"

text \<open>\<open>try { handler(parsedArgs) } catch (error) { console.error(... error.message) }\<close>\<close>

definition callHandler ::
  "string \<Rightarrow> 'n commandDefinition \<Rightarrow> 'n parsed \<Rightarrow> 'n event list \<times> completion" where
  "callHandler commandName cmd parsed =
     (case cmdHandler cmd parsed of
        Returns \<Rightarrow> ([HandlerCalled commandName parsed], ReturnsNormally)
      | Throws (ThrownValue m) \<Rightarrow>
          ([HandlerCalled commandName parsed,
            ConsoleError (''An error occurred while executing the command: '' @ m)],
           ReturnsNormally)
      | Throws ThrownNullish \<Rightarrow> ([HandlerCalled commandName parsed], ThrowsError TypeError))"

text \<open>A step that may throw, after the events so far.\<close>

definition thenHelp :: "'n event list \<Rightarrow> jsError + 'n event list \<Rightarrow> 'n event list \<times> completion" where
  "thenHelp sofar r =
     (case r of Inl e \<Rightarrow> (sofar, ThrowsError e) | Inr evs \<Rightarrow> (sofar @ evs, ReturnsNormally))"

text \<open>\<open>parse\<close> of the first copy of zli.ts: a \<open>null\<close> from \<open>parseArgs\<close> always shows the
  command's help.\<close>

definition parse1 ::
  "(string \<Rightarrow> 'n option) \<Rightarrow> (schema \<Rightarrow> 'n parsed \<Rightarrow> issue list + 'n parsed)
     \<Rightarrow> (string \<times> 'n commandDefinition) list \<Rightarrow> string list \<Rightarrow> 'n event list \<times> completion" where
  "parse1 Number safeParse commands args =
     (case args of
        [] \<Rightarrow> (displayHelp1 commands, ReturnsNormally)
      | subcommand # options \<Rightarrow>
          (case findCommand commands subcommand of
             None \<Rightarrow>
               (if subcommand = ''--help'' then (displayHelp1 commands, ReturnsNormally)
                else (ConsoleError (''Unknown command: '' @ subcommand) # displayHelp1 commands,
                      ReturnsNormally))
           | Some (commandName, cmd) \<Rightarrow>
               (if ''--help'' \<in> set options then
                  thenHelp [] (displayHelpForCommand1 commandName (cmdSchema cmd))
                else
                  (case parseArgs1 Number safeParse options (cmdSchema cmd) of
                     Inl e \<Rightarrow> ([], ThrowsError e)
                   | Inr (None, s) \<Rightarrow>
                       thenHelp (map ConsoleError (consoleError s))
                         (displayHelpForCommand1 commandName (cmdSchema cmd))
                   | Inr (Some parsed, s) \<Rightarrow>
                       (case callHandler commandName cmd parsed of
                          (evs, c) \<Rightarrow> (map ConsoleError (consoleError s) @ evs, c))))))"

text \<open>\<open>parse\<close> of the second copy, on an instance whose \<open>shouldDisplayHelp\<close> is \<open>h\<close>: a
  \<open>null\<close> shows the command's help if the field is set. The result holds the field's new
  value; \<open>None\<close> is a call that never returns.\<close>

definition parse2 ::
  "(string \<Rightarrow> 'n option) \<Rightarrow> (schema \<Rightarrow> 'n parsed \<Rightarrow> issue list + 'n parsed)
     \<Rightarrow> (string \<times> 'n commandDefinition) list \<Rightarrow> bool \<Rightarrow> string list
     \<Rightarrow> (('n event list \<times> completion) \<times> bool) option" where
  "parse2 Number safeParse commands h args =
     (case args of
        [] \<Rightarrow> Some ((displayHelp2 commands, ReturnsNormally), h)
      | subcommand # options \<Rightarrow>
          (case findCommand commands subcommand of
             None \<Rightarrow>
               (if subcommand = ''--help'' then Some ((displayHelp2 commands, ReturnsNormally), h)
                else Some ((ConsoleError (''Unknown command: '' @ subcommand) # displayHelp2 commands,
                            ReturnsNormally), h))
           | Some (commandName, cmd) \<Rightarrow>
               (if ''--help'' \<in> set options then
                  Some (thenHelp [] (displayHelpForCommand2 commandName (cmdSchema cmd)), h)
                else
                  (case parseArgs2 Number safeParse h options (cmdSchema cmd) of
                     None \<Rightarrow> None
                   | Some (Inl e) \<Rightarrow> Some (([], ThrowsError e), h)
                   | Some (Inr (None, s)) \<Rightarrow>
                       (if shouldDisplayHelp s then
                          Some (thenHelp (map ConsoleError (consoleError s))
                                  (displayHelpForCommand2 commandName (cmdSchema cmd)),
                                shouldDisplayHelp s)
                        else
                          Some ((map ConsoleError (consoleError s), ReturnsNormally),
                                shouldDisplayHelp s))
                   | Some (Inr (Some parsed, s)) \<Rightarrow>
                       (case callHandler commandName cmd parsed of
                          (evs, c) \<Rightarrow>
                            Some ((map ConsoleError (consoleError s) @ evs, c),
                                  shouldDisplayHelp s))))))"

text \<open>\<open>parse\<close> of index.ts.\<close>

definition parse3 ::
  "(string \<Rightarrow> 'n option) \<Rightarrow> (schema \<Rightarrow> 'n parsed \<Rightarrow> issue list + 'n parsed)
     \<Rightarrow> (string \<times> 'n commandDefinition) list \<Rightarrow> bool \<Rightarrow> string list
     \<Rightarrow> ('n event list \<times> completion) \<times> bool" where
  "parse3 Number safeParse commands h args =
     (case args of
        [] \<Rightarrow> ((displayHelp3 commands, ReturnsNormally), h)
      | subcommand # options \<Rightarrow>
          (case findCommand3 commands subcommand of
             None \<Rightarrow>
               (if subcommand = ''--help'' then ((displayHelp3 commands, ReturnsNormally), h)
                else ((ConsoleError (''Unknown command: '' @ subcommand) # displayHelp3 commands,
                       ReturnsNormally), h))
           | Some (commandName, cmd) \<Rightarrow>
               (if ''--help'' \<in> set options then
                  (thenHelp [] (displayHelpForCommand3 commandName (cmdSchema cmd)), h)
                else
                  (case processArguments Number safeParse h options (cmdSchema cmd) of
                     Inl e \<Rightarrow> (([], ThrowsError e), h)
                   | Inr (None, s) \<Rightarrow>
                       (if shouldDisplayHelp s then
                          (thenHelp (map ConsoleError (consoleError s))
                             (displayHelpForCommand3 commandName (cmdSchema cmd)),
                           shouldDisplayHelp s)
                        else
                          ((map ConsoleError (consoleError s), ReturnsNormally),
                           shouldDisplayHelp s))
                   | Inr (Some parsed, s) \<Rightarrow>
                       (case callHandler commandName cmd parsed of
                          (evs, c) \<Rightarrow>
                            ((map ConsoleError (consoleError s) @ evs, c),
                             shouldDisplayHelp s))))))"


section \<open>Examples\<close>

text \<open>A field as the tests declare it: a type, on which \<open>aliases(...)\<close> was called if
  \<open>as\<close> is not empty; and a stand-in for \<open>Number\<close> on strings of decimal digits.\<close>

definition declared :: "zodType \<Rightarrow> string list \<Rightarrow> field" where
  "declared t as =
     \<lparr>fieldType = t, defAliases = (if as = [] then None else Some (aliases as)),
      defDescription = None, isOptional = (case t of ZodOptional _ \<Rightarrow> True | _ \<Rightarrow> False)\<rparr>"

definition decimal :: "string \<Rightarrow> nat option" where
  "decimal s =
     (if list_all (\<lambda>c. 48 \<le> (of_char c :: nat) \<and> (of_char c :: nat) \<le> 57) s
      then Some (foldl (\<lambda>n c. 10 * n + (of_char c - 48)) 0 s) else None)"

text \<open>Modelled from the spec: the safe-validate operation of the schema collaborator, which
  is not part of the repository. The spec says of it that it returns the record or an
  ordered list of issues, each a path and a message; that a required field which is missing
  is a failure whose issue carries the field's path; that an optional field may be left out;
  and that the values of a field are of its kind (string, number, boolean, or an array whose
  elements arrive as strings). The stand-in checks the fields of an object schema in their
  order and reports one issue for each field that fails, with the two message texts written
  below in place of the collaborator's own. It checks nothing of a field of another type, and
  of an effects wrapper it checks the object inside (a refinement is a function of the
  collaborator and has no counterpart here).\<close>

fun hasKind :: "zodType \<Rightarrow> 'n jsValue \<Rightarrow> bool" where
  "hasKind ZodString v = (case v of VString s \<Rightarrow> True | _ \<Rightarrow> False)"
| "hasKind ZodNumber v = (case v of VNumber n \<Rightarrow> True | _ \<Rightarrow> False)"
| "hasKind ZodBoolean v = (case v of VBoolean b \<Rightarrow> True | _ \<Rightarrow> False)"
| "hasKind (ZodArray t) v =
     (case v of VArray xs \<Rightarrow> list_all (\<lambda>x. hasKind t (VString x)) xs | _ \<Rightarrow> False)"
| "hasKind (ZodOptional t) v = (case v of VUndefined \<Rightarrow> True | _ \<Rightarrow> hasKind t v)"
| "hasKind ZodOtherType v = True"

definition fieldIssues :: "'n parsed \<Rightarrow> string \<times> field \<Rightarrow> issue list" where
  "fieldIssues record kf =
     (case kf of (key, f) \<Rightarrow>
        (case map_of record key of
           None \<Rightarrow>
             (if hasKind (fieldType f) (VUndefined :: 'n jsValue) then []
              else [\<lparr>path = [key], message = ''Required''\<rparr>])
         | Some v \<Rightarrow>
             (if hasKind (fieldType f) v then []
              else [\<lparr>path = [key], message = ''Invalid value''\<rparr>])))"

fun safeValidate :: "schema \<Rightarrow> nat parsed \<Rightarrow> issue list + nat parsed" where
  "safeValidate (ZodObject shape d) record =
     (case concat (map (fieldIssues record) shape) of
        [] \<Rightarrow> Inr record
      | issues \<Rightarrow> Inl issues)"
| "safeValidate (ZodEffects inner d) record = safeValidate inner record"
| "safeValidate (ZodOtherSchema d) record = Inr record"

text \<open>The schemas of the tests: name and age with aliases; tags; three boolean flags.\<close>

definition nameAgeShape :: "(string \<times> field) list" where
  "nameAgeShape =
     [(''name'', declared ZodString [''n'', ''fullname'']), (''age'', declared ZodNumber [''a'']),
      (''verbose'', declared (ZodOptional ZodBoolean) [''v''])]"

definition tagsShape :: "(string \<times> field) list" where
  "tagsShape = [(''tags'', declared (ZodArray ZodString) [])]"

definition abcShape :: "(string \<times> field) list" where
  "abcShape =
     [(''a'', declared ZodBoolean [''a'']), (''b'', declared ZodBoolean [''b'']),
      (''c'', declared ZodBoolean [''c''])]"

lemma set_aliases_lookup:
  "foldl (\<lambda>m alias. m(alias \<mapsto> key)) m as t = (if t \<in> set as then Some key else m t)"
  by (induction as arbitrary: m) auto

section \<open>The alias tables\<close>

text \<open>The tokens that the loop body of the first copy sets for one field, and those of the
  second copy and of index.ts.\<close>

definition registers1 :: "string \<Rightarrow> string \<times> field \<Rightarrow> bool" where
  "registers1 t kf = (t = ''--'' @ fst kf \<or> t \<in> set (getAliases (snd kf)))"

definition registers2 :: "string \<Rightarrow> string \<times> field \<Rightarrow> bool" where
  "registers2 t kf = (t = ''--'' @ fst kf \<or> t = ''-'' @ fst kf \<or> t \<in> set (getAliases (snd kf)))"

lemma recognizedOptions1_snoc:
  "recognizedOptions1 (shape @ [kf]) t =
     (if registers1 t kf then Some (fst kf) else recognizedOptions1 shape t)"
  by (cases kf) (simp add: recognizedOptions1_def registers1_def set_aliases_lookup)

lemma recognizedOptions2_snoc:
  "recognizedOptions2 (shape @ [kf]) t =
     (if registers2 t kf then Some (fst kf) else recognizedOptions2 shape t)"
  by (cases kf) (auto simp: recognizedOptions2_def registers2_def set_aliases_lookup)

lemma recognizedOptions1_Nil: "recognizedOptions1 [] t = None"
  by (simp add: recognizedOptions1_def)

lemma recognizedOptions2_Nil: "recognizedOptions2 [] t = None"
  by (simp add: recognizedOptions2_def)

lemma optionAliasMap_eq: "optionAliasMap = recognizedOptions2"
  by (rule ext) (simp add: optionAliasMap_def recognizedOptions2_def)

lemma recognizedOptions1_append:
  "recognizedOptions1 (pre @ post) t =
     (case recognizedOptions1 post t of None \<Rightarrow> recognizedOptions1 pre t | Some k \<Rightarrow> Some k)"
proof (induction post rule: rev_induct)
  case Nil
  show ?case by (simp add: recognizedOptions1_Nil)
next
  case (snoc kf post)
  have "recognizedOptions1 (pre @ post @ [kf]) t = recognizedOptions1 ((pre @ post) @ [kf]) t"
    by simp
  also have "\<dots> = (if registers1 t kf then Some (fst kf) else recognizedOptions1 (pre @ post) t)"
    by (rule recognizedOptions1_snoc)
  finally show ?case
    using snoc.IH by (simp add: recognizedOptions1_snoc)
qed




lemma recognizedOptions2_single: "recognizedOptions2 [kf] t = (if registers2 t kf then Some (fst kf) else None)"
  using recognizedOptions2_snoc [of "[]" kf t] by (simp add: recognizedOptions2_Nil)


section \<open>Splitting on a separator\<close>

lemma split_not_Nil: "split s sep \<noteq> []"
  by (induction s) (auto split: list.splits)

lemma split_no_sep: "sep \<notin> set a \<Longrightarrow> split a sep = [a]"
  by (induction a) auto

lemma split_append_sep: "sep \<notin> set a \<Longrightarrow> split (a @ sep # rest) sep = a # split rest sep"
  by (induction a) auto

lemma splitInlineValue_plain: "CHR ''='' \<notin> set a \<Longrightarrow> splitInlineValue a = (a, None)"
  by (simp add: splitInlineValue_def includesChar_def)

lemma splitInlineValue_one:
  "CHR ''='' \<notin> set a \<Longrightarrow> CHR ''='' \<notin> set b \<Longrightarrow> splitInlineValue (a @ ''='' @ b) = (a, Some b)"
  by (simp add: splitInlineValue_def includesChar_def split_append_sep split_no_sep)

lemma splitInlineValue_two:
  "CHR ''='' \<notin> set a \<Longrightarrow> CHR ''='' \<notin> set b \<Longrightarrow>
     splitInlineValue (a @ ''='' @ b @ ''='' @ c) = (a, Some b)"
  using split_not_Nil [of c "CHR ''=''"]
  by (cases "split c (CHR ''='')")
     (simp_all add: splitInlineValue_def includesChar_def split_append_sep)

lemma startsWith_dash: "startsWith s ''--'' \<Longrightarrow> startsWith s ''-''"
  by (cases s) (auto simp: startsWith_def)

section \<open>Two token lists that differ in one long option with the same destructuring\<close>

lemma consumeArrayValues_agree:
  assumes len: "length args' = length args"
    and others: "\<And>j. j \<noteq> i \<Longrightarrow> args' ! j = args ! j"
    and ati: "startsWith (args ! i) ''-''" "startsWith (args' ! i) ''-''"
  shows "consumeArrayValues args' vals st = consumeArrayValues args vals st"
proof (induction "length args - idx st" arbitrary: vals st rule: less_induct)
  case less
  show ?case
  proof (cases "idx st < length args \<and> \<not> startsWith (args ! idx st) ''-''")
    case True
    then have "idx st \<noteq> i" using ati by auto
    then have same: "args' ! idx st = args ! idx st" by (rule others)
    have "consumeArrayValues args' (vals @ [args ! idx st]) (setIdx (idx st + 1) (markProcessed (idx st) st))
        = consumeArrayValues args (vals @ [args ! idx st]) (setIdx (idx st + 1) (markProcessed (idx st) st))"
      by (rule less.hyps) (insert True, simp, arith)
    with True same len show ?thesis
      by (simp add: consumeArrayValues.simps [of args' vals st]
            consumeArrayValues.simps [of args vals st])
  next
    case False
    have "\<not> (idx st < length args' \<and> \<not> startsWith (args' ! idx st) ''-'')"
    proof (cases "idx st = i")
      case True
      with ati show ?thesis by simp
    next
      case False
      with others [of "idx st"] \<open>\<not> (idx st < length args \<and> \<not> startsWith (args ! idx st) ''-'')\<close> len
      show ?thesis by simp
    qed
    with False show ?thesis
      by (auto simp: consumeArrayValues.simps [of args' vals st]
            consumeArrayValues.simps [of args vals st])
  qed
qed

lemma processArrayArgsFrom_agree:
  assumes len: "length args' = length args"
    and others: "\<And>j. j \<noteq> i \<Longrightarrow> args' ! j = args ! j"
    and ati: "startsWith (args ! i) ''-''" "startsWith (args' ! i) ''-''"
  shows "processArrayArgsFrom args' k vals = processArrayArgsFrom args k vals"
proof (induction "length args - k" arbitrary: vals k rule: less_induct)
  case less
  show ?case
  proof (cases "k < length args \<and> \<not> startsWith (args ! k) ''-''")
    case True
    then have "k \<noteq> i" using ati by auto
    then have same: "args' ! k = args ! k" by (rule others)
    have "processArrayArgsFrom args' (k + 1) (vals @ [args ! k])
        = processArrayArgsFrom args (k + 1) (vals @ [args ! k])"
      by (rule less.hyps) (insert True, simp, arith)
    with True same len show ?thesis
      by (simp add: processArrayArgsFrom.simps [of args' k vals]
            processArrayArgsFrom.simps [of args k vals])
  next
    case False
    have "\<not> (k < length args' \<and> \<not> startsWith (args' ! k) ''-'')"
    proof (cases "k = i")
      case True
      with ati show ?thesis by simp
    next
      case False
      with others [of k] \<open>\<not> (k < length args \<and> \<not> startsWith (args ! k) ''-'')\<close> len
      show ?thesis by simp
    qed
    with False show ?thesis
      by (auto simp: processArrayArgsFrom.simps [of args' k vals]
            processArrayArgsFrom.simps [of args k vals])
  qed
qed

text \<open>What a resolver reads of a token that may be the value of an option: whether it is
  there and starts with a dash, and the token itself if it does not.\<close>

lemma next_token_agree:
  assumes len: "length args' = length args"
    and others: "\<And>j. j \<noteq> i \<Longrightarrow> args' ! j = args ! j"
    and ati: "startsWith (args ! i) ''-''" "startsWith (args' ! i) ''-''"
  shows "(length args' \<le> j \<or> startsWith (args' ! j) ''-'') = (length args \<le> j \<or> startsWith (args ! j) ''-'')"
    and "\<not> startsWith (args ! j) ''-'' \<Longrightarrow> args' ! j = args ! j"
proof -
  show "(length args' \<le> j \<or> startsWith (args' ! j) ''-'') = (length args \<le> j \<or> startsWith (args ! j) ''-'')"
    using len others [of j] ati by (cases "j = i") auto
  show "\<not> startsWith (args ! j) ''-'' \<Longrightarrow> args' ! j = args ! j"
    using others [of j] ati by (cases "j = i") auto
qed

lemma scalarOption1_agree:
  assumes len: "length args' = length args"
    and others: "\<And>j. j \<noteq> i \<Longrightarrow> args' ! j = args ! j"
    and ati: "startsWith (args ! i) ''-''" "startsWith (args' ! i) ''-''"
  shows "scalarOption1 Number args' arg v k t st = scalarOption1 Number args arg v k t st"
  using next_token_agree [OF assms, of "idx st + 1"] len
  by (auto simp: scalarOption1_def at_def)

lemma combinedFlags1_agree:
  assumes len: "length args' = length args"
    and others: "\<And>j. j \<noteq> i \<Longrightarrow> args' ! j = args ! j"
    and ati: "startsWith (args ! i) ''-''" "startsWith (args' ! i) ''-''"
  shows "combinedFlags1 Number tbl shape args' flags st = combinedFlags1 Number tbl shape args flags st"
proof (induction flags arbitrary: st)
  case Nil
  show ?case by simp
next
  case (Cons flag flags)
  show ?case
    using next_token_agree [OF assms, of "idx st + 1"] len
    by (auto simp: Cons.IH at_def Let_def split: option.splits)
qed

lemma parseOption_agree:
  assumes len: "length args' = length args"
    and others: "\<And>j. j \<noteq> i \<Longrightarrow> args' ! j = args ! j"
    and ati: "startsWith (args ! i) ''-''" "startsWith (args' ! i) ''-''"
  shows "parseOption arg0 args' k tbl shape st = parseOption arg0 args k tbl shape st"
proof -
  obtain arg inl where sp: "splitInlineValue arg0 = (arg, inl)"
    by (cases "splitInlineValue arg0")
  show ?thesis
    using next_token_agree [OF assms, of "k + 1"] len
    by (auto simp: parseOption_def sp Let_def split: option.splits)
qed

lemma parseOption_token:
  "splitInlineValue x = splitInlineValue y \<Longrightarrow>
     parseOption x args k tbl shape st = parseOption y args k tbl shape st"
  by (simp add: parseOption_def)

lemma processOptionValue_eq: "processOptionValue = parseOption"
  by (intro ext) (simp add: processOptionValue_def parseOption_def)

lemma combinedFlags2_agree:
  assumes len: "length args' = length args"
    and others: "\<And>j. j \<noteq> i \<Longrightarrow> args' ! j = args ! j"
    and ati: "startsWith (args ! i) ''-''" "startsWith (args' ! i) ''-''"
  shows "combinedFlags2 Number tbl shape args' flags st = combinedFlags2 Number tbl shape args flags st"
proof (induction flags arbitrary: st)
  case Nil
  show ?case by simp
next
  case (Cons flag flags)
  obtain r st1 where p: "parseOption [CHR ''-'', flag] args (idx st - 1) tbl shape st = (r, st1)"
    by (cases "parseOption [CHR ''-'', flag] args (idx st - 1) tbl shape st")
  show ?case
    using next_token_agree [OF assms, of "idx st1"] len
    by (cases r) (auto simp del: One_nat_def simp add: Cons.IH parseOption_agree [OF assms] p)
qed

lemma combinedFlagsLoop_agree:
  assumes len: "length args' = length args"
    and others: "\<And>j. j \<noteq> i \<Longrightarrow> args' ! j = args ! j"
    and ati: "startsWith (args ! i) ''-''" "startsWith (args' ! i) ''-''"
  shows "combinedFlagsLoop Number tbl shape args' flags st = combinedFlagsLoop Number tbl shape args flags st"
proof (induction flags arbitrary: st)
  case Nil
  show ?case by simp
next
  case (Cons flag flags)
  obtain r st1 where p: "parseOption [CHR ''-'', flag] args (idx st - 1) tbl shape st = (r, st1)"
    by (cases "parseOption [CHR ''-'', flag] args (idx st - 1) tbl shape st")
  show ?case
    using next_token_agree [OF assms, of "idx st1"] len
    by (cases r)
       (auto simp del: One_nat_def simp add: Cons.IH processOptionValue_eq parseOption_agree [OF assms] p)
qed


lemma token_agree:
  assumes others: "\<And>j. j \<noteq> i \<Longrightarrow> args' ! j = args ! j"
    and sp: "splitInlineValue (args' ! i) = splitInlineValue (args ! i)"
  shows "splitInlineValue (args' ! k) = splitInlineValue (args ! k)"
  using others [of k] sp by (cases "k = i") auto

lemma longOption1_agree:
  assumes len: "length args' = length args"
    and others: "\<And>j. j \<noteq> i \<Longrightarrow> args' ! j = args ! j"
    and ati: "startsWith (args ! i) ''-''" "startsWith (args' ! i) ''-''"
    and sp: "splitInlineValue (args' ! i) = splitInlineValue (args ! i)"
  shows "longOption1 Number tbl shape args' st = longOption1 Number tbl shape args st"
proof -
  obtain arg inl where t: "splitInlineValue (args ! idx st) = (arg, inl)"
    by (cases "splitInlineValue (args ! idx st)")
  then have t': "splitInlineValue (args' ! idx st) = (arg, inl)"
    using token_agree [OF others sp, of "idx st"] by simp
  show ?thesis
    by (simp add: longOption1_def t t' Let_def consumeArrayValues_agree [OF len others ati]
          scalarOption1_agree [OF len others ati] split: option.splits)
qed

lemma longOption2_agree:
  assumes len: "length args' = length args"
    and others: "\<And>j. j \<noteq> i \<Longrightarrow> args' ! j = args ! j"
    and ati: "startsWith (args ! i) ''-''" "startsWith (args' ! i) ''-''"
    and sp: "splitInlineValue (args' ! i) = splitInlineValue (args ! i)"
  shows "longOption2 Number tbl shape args' st = longOption2 Number tbl shape args st"
proof -
  have "parseOption (args' ! idx st) args' (idx st) tbl shape st
      = parseOption (args ! idx st) args (idx st) tbl shape st"
    by (simp add: parseOption_agree [OF len others ati]
          parseOption_token [OF token_agree [OF others sp, of "idx st"]])
  then show ?thesis
    by (simp add: longOption2_def Let_def consumeArrayValues_agree [OF len others ati]
          split: prod.splits parseOptionResult.splits)
qed

lemma iteration1_agree:
  assumes len: "length args' = length args"
    and others: "\<And>j. j \<noteq> i \<Longrightarrow> args' ! j = args ! j"
    and ati: "startsWith (args ! i) ''--''" "startsWith (args' ! i) ''--''"
    and sp: "splitInlineValue (args' ! i) = splitInlineValue (args ! i)"
  shows "iteration1 Number tbl shape args' st = iteration1 Number tbl shape args st"
proof -
  note dash = startsWith_dash [OF ati(1)] startsWith_dash [OF ati(2)]
  show ?thesis
  proof (cases "idx st = i")
    case True
    with ati show ?thesis
      by (simp add: iteration1_def longOption1_agree [OF len others dash sp])
  next
    case False
    then have "args' ! idx st = args ! idx st" by (rule others)
    then show ?thesis
      unfolding iteration1_def
      by (simp add: Let_def longOption1_agree [OF len others dash sp]
            combinedFlags1_agree [OF len others dash] shortOption1_def
            scalarOption1_agree [OF len others dash] split: prod.splits option.splits)
  qed
qed

lemma iteration2_agree:
  assumes len: "length args' = length args"
    and others: "\<And>j. j \<noteq> i \<Longrightarrow> args' ! j = args ! j"
    and ati: "startsWith (args ! i) ''--''" "startsWith (args' ! i) ''--''"
    and sp: "splitInlineValue (args' ! i) = splitInlineValue (args ! i)"
  shows "iteration2 Number tbl shape args' st = iteration2 Number tbl shape args st"
proof -
  note dash = startsWith_dash [OF ati(1)] startsWith_dash [OF ati(2)]
  show ?thesis
  proof (cases "idx st = i")
    case True
    with ati show ?thesis
      by (simp add: iteration2_def longOption2_agree [OF len others dash sp])
  next
    case False
    then have "args' ! idx st = args ! idx st" by (rule others)
    then show ?thesis
      unfolding iteration2_def
      by (simp add: Let_def longOption2_agree [OF len others dash sp]
            combinedFlags2_agree [OF len others dash] shortOption2_def
            parseOption_agree [OF len others dash])
  qed
qed

lemma iteration3_agree:
  assumes len: "length args' = length args"
    and others: "\<And>j. j \<noteq> i \<Longrightarrow> args' ! j = args ! j"
    and ati: "startsWith (args ! i) ''--''" "startsWith (args' ! i) ''--''"
    and sp: "splitInlineValue (args' ! i) = splitInlineValue (args ! i)"
  shows "iteration3 Number tbl shape args' st = iteration3 Number tbl shape args st"
proof -
  note dash = startsWith_dash [OF ati(1)] startsWith_dash [OF ati(2)]
  have arr: "processArrayArgs args' k = processArrayArgs args k" for k
    by (simp add: processArrayArgs_def processArrayArgsFrom_agree [OF len others dash])
  show ?thesis
  proof (cases "idx st = i")
    case True
    with ati show ?thesis
      by (simp add: iteration3_def Let_def processOptionValue_eq arr
            parseOption_agree [OF len others dash] parseOption_token [OF sp]
            split: prod.splits parseOptionResult.splits)
  next
    case False
    then have "args' ! idx st = args ! idx st" by (rule others)
    then show ?thesis
      unfolding iteration3_def
      by (simp add: Let_def processOptionValue_eq arr parseOption_agree [OF len others dash]
            processCombinedShortFlags_def combinedFlagsLoop_agree [OF len others dash]
            split: prod.splits parseOptionResult.splits)
  qed
qed

text \<open>A loop is determined by its passes and the number of tokens.\<close>

lemma scan1_cong:
  assumes "length args' = length args"
    and "\<And>st. iteration1 Number tbl shape args' st = iteration1 Number tbl shape args st"
  shows "scan1 Number tbl shape args' st = scan1 Number tbl shape args st"
  using assms
proof (induction Number tbl shape args st rule: scan1.induct)
  case (1 Number tbl shape args st)
  show ?case
  proof (cases "idx st < length args")
    case False
    with "1.prems" show ?thesis
      by (simp add: scan1.simps [of _ _ _ args' st] scan1.simps [of _ _ _ args st])
  next
    case True
    show ?thesis
    proof (cases "iteration1 Number tbl shape args st")
      case (ReturnNull s)
      with True "1.prems" show ?thesis
        by (simp add: scan1.simps [of _ _ _ args' st] scan1.simps [of _ _ _ args st])
    next
      case (Continue s)
      have "scan1 Number tbl shape args' s = scan1 Number tbl shape args s"
        using "1.IH" [OF True Continue "1.prems"] .
      with True Continue "1.prems" show ?thesis
        by (simp add: scan1.simps [of _ _ _ args' st] scan1.simps [of _ _ _ args st])
    qed
  qed
qed

lemma scan3_cong:
  assumes "length args' = length args"
    and "\<And>st. iteration3 Number tbl shape args' st = iteration3 Number tbl shape args st"
  shows "scan3 Number tbl shape args' st = scan3 Number tbl shape args st"
  using assms
proof (induction Number tbl shape args st rule: scan3.induct)
  case (1 Number tbl shape args st)
  show ?case
  proof (cases "idx st < length args")
    case False
    with "1.prems" show ?thesis
      by (simp add: scan3.simps [of _ _ _ args' st] scan3.simps [of _ _ _ args st])
  next
    case True
    show ?thesis
    proof (cases "iteration3 Number tbl shape args st")
      case (ReturnNull s)
      with True "1.prems" show ?thesis
        by (simp add: scan3.simps [of _ _ _ args' st] scan3.simps [of _ _ _ args st])
    next
      case (Continue s)
      have "scan3 Number tbl shape args' s = scan3 Number tbl shape args s"
        using "1.IH" [OF True Continue "1.prems"] .
      with True Continue "1.prems" show ?thesis
        by (simp add: scan3.simps [of _ _ _ args' st] scan3.simps [of _ _ _ args st])
    qed
  qed
qed

lemma scan2_Some_cong_all:
  assumes major: "scan2 Number tbl shape args st = Some y"
  shows "\<forall>args'. length args' = length args
      \<and> (\<forall>s. iteration2 Number tbl shape args' s = iteration2 Number tbl shape args s)
      \<longrightarrow> scan2 Number tbl shape args' st = Some y"
proof (rule scan2.raw_induct [where P = "\<lambda>Number tbl shape args st y.
      \<forall>args'. length args' = length args
      \<and> (\<forall>s. iteration2 Number tbl shape args' s = iteration2 Number tbl shape args s)
      \<longrightarrow> scan2 Number tbl shape args' st = Some y", OF _ major])
  fix loop :: "(string \<Rightarrow> 'a option) \<Rightarrow> (string \<rightharpoonup> string) \<Rightarrow> (string \<times> field) list
      \<Rightarrow> string list \<Rightarrow> 'a scan \<Rightarrow> 'a scan flow option"
  fix Number tbl shape args st y
  assume IH: "\<And>Number tbl shape args st y. loop Number tbl shape args st = Some y \<Longrightarrow>
      \<forall>args'. length args' = length args
      \<and> (\<forall>s. iteration2 Number tbl shape args' s = iteration2 Number tbl shape args s)
      \<longrightarrow> scan2 Number tbl shape args' st = Some y"
  assume body: "(if idx st < length args
      then case iteration2 Number tbl shape args st of
           Continue s \<Rightarrow> loop Number tbl shape args s
           | ReturnNull s \<Rightarrow> Some (ReturnNull s)
      else Some (Continue st)) = Some y"
  show "\<forall>args'. length args' = length args
      \<and> (\<forall>s. iteration2 Number tbl shape args' s = iteration2 Number tbl shape args s)
      \<longrightarrow> scan2 Number tbl shape args' st = Some y"
  proof (intro allI impI, elim conjE)
    fix args'
    assume len: "length args' = length args"
      and it: "\<forall>s. iteration2 Number tbl shape args' s = iteration2 Number tbl shape args s"
    show "scan2 Number tbl shape args' st = Some y"
    proof (cases "idx st < length args")
      case False
      with body len show ?thesis
        by (simp add: scan2.simps [of _ _ _ args' st])
    next
      case True
      show ?thesis
      proof (cases "iteration2 Number tbl shape args st")
        case (ReturnNull s)
        with True body have "y = ReturnNull s"
          by simp
        with True ReturnNull len it show ?thesis
          by (simp add: scan2.simps [of _ _ _ args' st])
      next
        case (Continue s)
        with True body have "loop Number tbl shape args s = Some y"
          by simp
        from IH [OF this] len it have "scan2 Number tbl shape args' s = Some y"
          by blast
        with True Continue len it show ?thesis
          by (simp add: scan2.simps [of _ _ _ args' st])
      qed
    qed
  qed
qed

lemma scan2_Some_cong:
  assumes "scan2 Number tbl shape args st = Some y"
    and "length args' = length args"
    and "\<And>st. iteration2 Number tbl shape args' st = iteration2 Number tbl shape args st"
  shows "scan2 Number tbl shape args' st = Some y"
  using scan2_Some_cong_all [OF assms(1)] assms(2,3) by blast

lemma scan2_cong:
  assumes "length args' = length args"
    and "\<And>st. iteration2 Number tbl shape args' st = iteration2 Number tbl shape args st"
  shows "scan2 Number tbl shape args' st = scan2 Number tbl shape args st"
proof (cases "scan2 Number tbl shape args st")
  case (Some y)
  with scan2_Some_cong [OF Some assms] show ?thesis by simp
next
  case None
  show ?thesis
  proof (cases "scan2 Number tbl shape args' st")
    case None
    with \<open>scan2 Number tbl shape args st = None\<close> show ?thesis by simp
  next
    case (Some y)
    from scan2_Some_cong [OF Some, of args] assms have "scan2 Number tbl shape args st = Some y"
      by simp
    with None show ?thesis by simp
  qed
qed


section \<open>The first copy marks every long option it passes\<close>

lemma consumeArrayValues_marks:
  "consumeArrayValues args vals st = (vs, s) \<Longrightarrow>
     processedIndices st \<subseteq> processedIndices s
     \<and> (\<forall>j. idx st \<le> j \<and> j < idx s \<longrightarrow> j \<in> processedIndices s)"
proof (induction args vals st rule: consumeArrayValues.induct)
  case (1 args vals st)
  show ?case
  proof (cases "idx st < length args \<and> \<not> startsWith (args ! idx st) ''-''")
    case True
    with "1.prems" have c: "consumeArrayValues args (vals @ [args ! idx st])
          (setIdx (idx st + 1) (markProcessed (idx st) st)) = (vs, s)"
      by (simp add: consumeArrayValues.simps [of args vals st])
    from "1.IH" [OF True c] have
      sub: "insert (idx st) (processedIndices st) \<subseteq> processedIndices s" and
      rng: "\<forall>j. idx st + 1 \<le> j \<and> j < idx s \<longrightarrow> j \<in> processedIndices s"
      by simp_all
    have "j \<in> processedIndices s" if "idx st \<le> j" "j < idx s" for j
    proof (cases "j = idx st")
      case True
      with sub show ?thesis by blast
    next
      case False
      with that have "idx st + 1 \<le> j" by simp
      with rng that show ?thesis by blast
    qed
    with sub show ?thesis by blast
  next
    case False
    with "1.prems" have "s = st"
      by (auto simp: consumeArrayValues.simps [of args vals st])
    then show ?thesis by auto
  qed
qed

lemma combinedFlags1_marks:
  "combinedFlags1 Number tbl shape args flags st = Continue s \<Longrightarrow>
     processedIndices st \<subseteq> processedIndices s
     \<and> (\<forall>j. idx st < j \<and> j \<le> idx s \<longrightarrow> j \<in> processedIndices s)"
proof (induction flags arbitrary: st)
  case Nil
  then show ?case by auto
next
  case (Cons flag flags)
  let ?flagArg = "[CHR ''-'', flag]"
  from Cons.prems obtain k where k: "lookupKey tbl ?flagArg = Some k"
    by (cases "lookupKey tbl ?flagArg") (simp_all add: Let_def)
  show ?case
  proof (cases "isBooleanKind (typeOf shape k)")
    case True
    with Cons.prems k have "combinedFlags1 Number tbl shape args flags (assign k (VBoolean True) st) = Continue s"
      by (simp add: Let_def)
    from Cons.IH [OF this] show ?thesis by simp
  next
    case False
    with Cons.prems k obtain v where v: "at args (idx st + 1) = Some v"
      by (cases "at args (idx st + 1)") (simp_all add: Let_def)
    let ?st' = "setIdx (idx st + 1) (markProcessed (idx st + 1)
        (assign k (parseValue Number v (typeOf shape k)) st))"
    from Cons.prems k False v have "combinedFlags1 Number tbl shape args flags ?st' = Continue s"
      by (simp add: Let_def split: if_splits)
    from Cons.IH [OF this] have
      sub: "insert (idx st + 1) (processedIndices st) \<subseteq> processedIndices s" and
      rng: "\<forall>j. idx st + 1 < j \<and> j \<le> idx s \<longrightarrow> j \<in> processedIndices s"
      by simp_all
    have "j \<in> processedIndices s" if "idx st < j" "j \<le> idx s" for j
    proof (cases "j = idx st + 1")
      case True
      with sub show ?thesis by blast
    next
      case False
      with that have "idx st + 1 < j" by simp
      with rng that show ?thesis by blast
    qed
    with sub show ?thesis by blast
  qed
qed

lemma scalarOption1_marks:
  "scalarOption1 Number args arg v k t st = Continue s \<Longrightarrow>
     processedIndices st \<subseteq> processedIndices s \<and> idx s \<le> idx st + 2
     \<and> (idx s = idx st + 2 \<longrightarrow> idx st + 1 \<in> processedIndices s)"
  by (auto simp: scalarOption1_def split: option.splits if_splits)

lemma iteration1_marks:
  assumes "iteration1 Number tbl shape args st = Continue s"
  shows "processedIndices st \<subseteq> processedIndices s
     \<and> (\<forall>j. idx st \<le> j \<and> j < idx s \<and> startsWith (args ! j) ''--'' \<longrightarrow> j \<in> processedIndices s)"
proof -
  let ?arg = "args ! idx st"
  let ?st1 = "markProcessed (idx st) st"
  have scalar: "processedIndices st \<subseteq> processedIndices s
     \<and> (\<forall>j. idx st \<le> j \<and> j < idx s \<longrightarrow> j \<in> processedIndices s)"
    if "scalarOption1 Number args arg v k t ?st1 = Continue s" for arg v k t
  proof -
    from scalarOption1_marks [OF that] have
      sub: "insert (idx st) (processedIndices st) \<subseteq> processedIndices s" and
      le: "idx s \<le> idx st + 2" and
      two: "idx s = idx st + 2 \<longrightarrow> idx st + 1 \<in> processedIndices s"
      by simp_all
    have "j \<in> processedIndices s" if "idx st \<le> j" "j < idx s" for j
    proof (cases "j = idx st")
      case True
      with sub show ?thesis by blast
    next
      case False
      with that le have "j = idx st + 1" "idx s = idx st + 2" by simp_all
      with two show ?thesis by simp
    qed
    with sub show ?thesis by blast
  qed
  have boolean: "processedIndices st \<subseteq> processedIndices s
     \<and> (\<forall>j. idx st \<le> j \<and> j < idx s \<longrightarrow> j \<in> processedIndices s)"
    if "booleanOption1 v k ?st1 = Continue s" for v k
    using that by (auto simp: booleanOption1_def)
  consider (long) "startsWith ?arg ''--''"
    | (combined) "\<not> startsWith ?arg ''--''" "startsWith ?arg ''-'' \<and> length ?arg > 2"
    | (short) "\<not> startsWith ?arg ''--''" "\<not> (startsWith ?arg ''-'' \<and> length ?arg > 2)"
        "startsWith ?arg ''-''"
    | (bare) "\<not> startsWith ?arg ''--''" "\<not> (startsWith ?arg ''-'' \<and> length ?arg > 2)"
        "\<not> startsWith ?arg ''-''"
    by blast
  then show ?thesis
  proof cases
    case long
    with assms have l: "longOption1 Number tbl shape args st = Continue s"
      by (simp add: iteration1_def)
    obtain arg inl where sp: "splitInlineValue ?arg = (arg, inl)"
      by (cases "splitInlineValue ?arg")
    from l sp obtain k where k: "lookupKey tbl arg = Some k"
      by (cases "lookupKey tbl arg") (simp_all add: longOption1_def)
    let ?type = "typeOf shape k"
    consider (b) "isBooleanKind ?type"
      | (a) "\<not> isBooleanKind ?type" "isZodArray ?type"
      | (s) "\<not> isBooleanKind ?type" "\<not> isZodArray ?type"
      by blast
    then have "processedIndices st \<subseteq> processedIndices s
       \<and> (\<forall>j. idx st \<le> j \<and> j < idx s \<longrightarrow> j \<in> processedIndices s)"
    proof cases
      case b
      with l sp k have "booleanOption1 inl k ?st1 = Continue s"
        by (simp add: longOption1_def)
      then show ?thesis by (rule boolean)
    next
      case a
      obtain vs st2 where c: "consumeArrayValues args [] (setIdx (idx ?st1 + 1) ?st1) = (vs, st2)"
        by (cases "consumeArrayValues args [] (setIdx (idx ?st1 + 1) ?st1)")
      with a l sp k have s: "s = assign k (VArray vs) st2"
        by (simp add: longOption1_def Let_def)
      from consumeArrayValues_marks [OF c] have
        sub: "insert (idx st) (processedIndices st) \<subseteq> processedIndices st2" and
        rng: "\<forall>j. idx st + 1 \<le> j \<and> j < idx st2 \<longrightarrow> j \<in> processedIndices st2"
        by simp_all
      have "j \<in> processedIndices st2" if "idx st \<le> j" "j < idx st2" for j
      proof (cases "j = idx st")
        case True
        with sub show ?thesis by blast
      next
        case False
        with that have "idx st + 1 \<le> j" by simp
        with rng that show ?thesis by blast
      qed
      with sub s show ?thesis by auto
    next
      case s
      with l sp k have "scalarOption1 Number args arg inl k ?type ?st1 = Continue s"
        by (simp add: longOption1_def)
      then show ?thesis by (rule scalar)
    qed
    then show ?thesis by blast
  next
    case combined
    with assms obtain s' where
      c: "combinedFlags1 Number tbl shape args (drop 1 ?arg) st = Continue s'" and
      s: "s = setIdx (idx s' + 1) (markProcessed (idx s') s')"
      by (auto simp: iteration1_def split: flow.splits)
    from combinedFlags1_marks [OF c] have
      sub: "processedIndices st \<subseteq> processedIndices s'" and
      rng: "\<forall>j. idx st < j \<and> j \<le> idx s' \<longrightarrow> j \<in> processedIndices s'"
      by simp_all
    have "j \<in> processedIndices s"
      if "idx st \<le> j" "j < idx s" "startsWith (args ! j) ''--''" for j
    proof (cases "j = idx st")
      case True
      with that combined show ?thesis by simp
    next
      case False
      with that s have "idx st < j" "j \<le> idx s'" by simp_all
      with rng s show ?thesis by simp
    qed
    with sub s show ?thesis by auto
  next
    case short
    with assms have l: "shortOption1 Number tbl shape args st = Continue s"
      by (simp add: iteration1_def)
    obtain arg inl where sp: "splitInlineValue ?arg = (arg, inl)"
      by (cases "splitInlineValue ?arg")
    from l sp obtain k where k: "lookupKey tbl arg = Some k"
      by (cases "lookupKey tbl arg") (simp_all add: shortOption1_def)
    have "processedIndices st \<subseteq> processedIndices s
       \<and> (\<forall>j. idx st \<le> j \<and> j < idx s \<longrightarrow> j \<in> processedIndices s)"
    proof (cases "isBooleanKind (typeOf shape k)")
      case True
      with l sp k have "booleanOption1 inl k ?st1 = Continue s"
        by (simp add: shortOption1_def)
      then show ?thesis by (rule boolean)
    next
      case False
      with l sp k have "scalarOption1 Number args arg inl k (typeOf shape k) ?st1 = Continue s"
        by (simp add: shortOption1_def)
      then show ?thesis by (rule scalar)
    qed
    then show ?thesis by blast
  next
    case bare
    with assms have "s = setIdx (idx st + 1) (markProcessed (idx st) st)"
      by (auto simp: iteration1_def)
    then show ?thesis by auto
  qed
qed

lemma scan1_marks:
  assumes "scan1 Number tbl shape args st = Continue s"
    and "\<forall>j. j < idx st \<and> startsWith (args ! j) ''--'' \<longrightarrow> j \<in> processedIndices st"
  shows "\<forall>j. j < length args \<and> startsWith (args ! j) ''--'' \<longrightarrow> j \<in> processedIndices s"
  using assms
proof (induction Number tbl shape args st rule: scan1.induct)
  case (1 Number tbl shape args st)
  show ?case
  proof (cases "idx st < length args")
    case False
    with "1.prems"(1) have "s = st"
      by (simp add: scan1.simps [of _ _ _ args st])
    with False "1.prems"(2) show ?thesis by auto
  next
    case True
    with "1.prems"(1) obtain s' where
      it: "iteration1 Number tbl shape args st = Continue s'" and
      rest: "scan1 Number tbl shape args s' = Continue s"
      by (cases "iteration1 Number tbl shape args st")
         (simp_all add: scan1.simps [of _ _ _ args st])
    from iteration1_marks [OF it] have
      sub: "processedIndices st \<subseteq> processedIndices s'" and
      rng: "\<forall>j. idx st \<le> j \<and> j < idx s' \<and> startsWith (args ! j) ''--'' \<longrightarrow> j \<in> processedIndices s'"
      by simp_all
    have "j \<in> processedIndices s'" if "j < idx s'" "startsWith (args ! j) ''--''" for j
    proof (cases "j < idx st")
      case True
      with "1.prems"(2) that sub show ?thesis by blast
    next
      case False
      with rng that show ?thesis by simp
    qed
    then have "\<forall>j. j < idx s' \<and> startsWith (args ! j) ''--'' \<longrightarrow> j \<in> processedIndices s'"
      by blast
    from "1.IH" [OF True it rest this] show ?thesis .
  qed
qed

lemma unprocessedArgs_agree:
  assumes "length pre \<in> processed"
  shows "unprocessedArgs (pre @ x # post) processed = unprocessedArgs (pre @ y # post) processed"
proof -
  have "[0..<length pre + Suc (length post)]
      = [0..<length pre] @ [length pre..<length pre + Suc (length post)]"
    by (rule upt_add_eq_append) simp
  moreover have "[length pre..<length pre + Suc (length post)]
      = length pre # [Suc (length pre)..<length pre + Suc (length post)]"
    by (rule upt_conv_Cons) simp
  ultimately have upt: "[0..<length pre + Suc (length post)]
      = [0..<length pre] @ length pre # [Suc (length pre)..<length pre + Suc (length post)]"
    by simp
  have "zip (pre @ z # post) [0..<length (pre @ z # post)]
      = zip pre [0..<length pre] @ (z, length pre)
          # zip post [Suc (length pre)..<length pre + Suc (length post)]" for z
  proof -
    have "zip (pre @ z # post) [0..<length (pre @ z # post)]
        = zip (pre @ z # post)
            ([0..<length pre] @ length pre # [Suc (length pre)..<length pre + Suc (length post)])"
      using upt by simp
    then show ?thesis by simp
  qed
  with assms show ?thesis
    by (simp add: unprocessedArgs_def)
qed


lemma startsWith_append: "startsWith a p \<Longrightarrow> startsWith (a @ r) p"
  by (auto simp: startsWith_def dest: arg_cong [where f = length])

lemma nth_other:
  "j \<noteq> length pre \<Longrightarrow> (pre @ y # post) ! j = (pre @ x # post) ! j"
  by (auto simp: nth_append nth_Cons split: nat.splits)

section \<open>The greedy loop of an array option\<close>

lemma consumeArrayValues_takeWhile:
  "consumeArrayValues args vals st = (vs, s) \<Longrightarrow>
     vs = vals @ takeWhile (\<lambda>t. \<not> startsWith t ''-'') (drop (idx st) args)
     \<and> idx s = idx st + length (takeWhile (\<lambda>t. \<not> startsWith t ''-'') (drop (idx st) args))"
proof (induction args vals st rule: consumeArrayValues.induct)
  case (1 args vals st)
  show ?case
  proof (cases "idx st < length args \<and> \<not> startsWith (args ! idx st) ''-''")
    case True
    with "1.prems" have c: "consumeArrayValues args (vals @ [args ! idx st])
          (setIdx (idx st + 1) (markProcessed (idx st) st)) = (vs, s)"
      by (simp add: consumeArrayValues.simps [of args vals st])
    from True have d: "drop (idx st) args = args ! idx st # drop (Suc (idx st)) args"
      by (simp add: Cons_nth_drop_Suc)
    from "1.IH" [OF True c] True show ?thesis
      by (simp add: d)
  next
    case False
    with "1.prems" have s: "vs = vals" "s = st"
      by (auto simp: consumeArrayValues.simps [of args vals st])
    have "takeWhile (\<lambda>t. \<not> startsWith t ''-'') (drop (idx st) args) = []"
    proof (cases "idx st < length args")
      case True
      with False have "startsWith (args ! idx st) ''-''" by simp
      moreover from True have "drop (idx st) args = args ! idx st # drop (Suc (idx st)) args"
        by (simp add: Cons_nth_drop_Suc)
      ultimately show ?thesis by simp
    next
      case False
      then show ?thesis by simp
    qed
    with s show ?thesis by simp
  qed
qed

section \<open>A pass over a boolean option\<close>

text \<open>The state a pass leaves after a boolean option at \<open>i\<close>: the token is marked, the
  field holds the boolean, and \<open>i\<close> has moved by one.\<close>

definition afterBoolean :: "string \<Rightarrow> bool \<Rightarrow> 'n scan \<Rightarrow> 'n scan" where
  "afterBoolean k b st = setIdx (idx st + 1) (assign k (VBoolean b) (markProcessed (idx st) st))"

lemma scan_eqI:
  "idx s = idx t \<Longrightarrow> parsedArgs s = parsedArgs t \<Longrightarrow> processedIndices s = processedIndices t \<Longrightarrow>
     consoleError s = consoleError t \<Longrightarrow> shouldDisplayHelp s = shouldDisplayHelp t \<Longrightarrow>
     (s :: 'n scan) = t"
  by simp

lemma boolean_pass:
  assumes "splitInlineValue (args ! idx st) = (arg, inl)"
    and "startsWith (args ! idx st) ''--''
          \<or> startsWith (args ! idx st) ''-'' \<and> length (args ! idx st) \<le> 2"
    and "lookupKey tbl arg = Some k" and "map_of shape k = Some f"
    and "isBooleanKind (fieldType f)"
  shows "iteration1 Number tbl shape args st
      = Continue (afterBoolean k (if truthy inl then inl = Some ''true'' else True) st)"
    and "iteration2 Number tbl shape args st
      = Continue (afterBoolean k (if truthy inl then inl = Some ''true'' else True) st)"
    and "startsWith (args ! idx st) ''--'' \<Longrightarrow> iteration3 Number tbl shape args st
      = Continue (afterBoolean k (if truthy inl then inl = Some ''true'' else True) st)"
proof -
  let ?b = "if truthy inl then inl = Some ''true'' else True"
  have t: "typeOf shape k = fieldType f"
    using assms(4) by (simp add: typeOf_def)
  have ot: "(orTrue inl = ''true'') = ?b"
    by (cases inl) (auto simp: orTrue_def)
  have po: "parseOption (args ! idx st) args (idx st) tbl shape st
      = (OptionSuccess k (fieldType f) (Some (orTrue inl)) (idx st), markProcessed (idx st) st)"
    using assms(1,3,4,5) by (simp add: parseOption_def)
  have st2: "setIdx (Suc (idx st))
          (assign k (VBoolean b) (setIdx (idx st) (markProcessed (idx st) st)))
      = afterBoolean k b st" for b
    by (rule scan_eqI) (simp_all add: afterBoolean_def)
  show "iteration1 Number tbl shape args st = Continue (afterBoolean k ?b st)"
  proof (cases "startsWith (args ! idx st) ''--''")
    case True
    then show ?thesis
      using assms(1,3,5) t
      by (simp add: iteration1_def longOption1_def booleanOption1_def afterBoolean_def)
  next
    case False
    with assms(2) have "startsWith (args ! idx st) ''-''" "length (args ! idx st) \<le> 2"
      by simp_all
    with False show ?thesis
      using assms(1,3,5) t
      by (simp add: iteration1_def shortOption1_def booleanOption1_def afterBoolean_def)
  qed
  show "iteration2 Number tbl shape args st = Continue (afterBoolean k ?b st)"
  proof (cases "startsWith (args ! idx st) ''--''")
    case True
    then show ?thesis
      using assms(5) by (simp add: iteration2_def longOption2_def po ot st2 del: if_split)
  next
    case False
    with assms(2) have "startsWith (args ! idx st) ''-''" "length (args ! idx st) \<le> 2"
      by simp_all
    with False show ?thesis
      using assms(5) by (simp add: iteration2_def shortOption2_def po ot st2 del: if_split)
  qed
  show "iteration3 Number tbl shape args st = Continue (afterBoolean k ?b st)"
    if "startsWith (args ! idx st) ''--''"
    using that assms(5)
    by (simp add: iteration3_def processOptionValue_eq po ot afterBoolean_def Let_def)
qed


section \<open>C6: the message of a validation failure\<close>







lemma logError_lines:
  "foldl (\<lambda>s i. logError (issueLine i) s) s0 issues
     = s0\<lparr>consoleError := consoleError s0 @ map issueLine issues\<rparr>"
  by (induction issues arbitrary: s0) (simp_all add: logError_def)







section \<open>C7: combined short flags\<close>

text \<open>What a caller sees of a resolver's result: the exception, or the record (or \<open>null\<close>)
  and the lines on the error channel.\<close>

text \<open>A schema whose first flag has the alias \<open>-\<close>, stored as the token \<open>--\<close>.\<close>

definition dashShape :: "(string \<times> field) list" where
  "dashShape =
     [(''dash'', declared ZodBoolean [''-'']), (''b'', declared ZodBoolean [''b'']),
      (''c'', declared ZodBoolean [''c''])]"

definition outcome ::
  "jsError + ('n parsed option \<times> 'n scan) \<Rightarrow> jsError + ('n parsed option \<times> string list)" where
  "outcome r = map_sum id (\<lambda>(d, s). (d, consoleError s)) r"

lemma short_flag_token:
  assumes "x \<noteq> CHR ''=''"
  shows "startsWith [CHR ''-'', x] ''--'' \<or> startsWith [CHR ''-'', x] ''-'' \<and> length [CHR ''-'', x] \<le> 2"
    and "splitInlineValue [CHR ''-'', x] = ([CHR ''-'', x], None)"
  using assms by (auto simp: startsWith_def splitInlineValue_def includesChar_def)

lemma afterBoolean_fields [simp]:
  "idx (afterBoolean k b st) = idx st + 1"
  "parsedArgs (afterBoolean k b st) = AList.update k (VBoolean b) (parsedArgs st)"
  "processedIndices (afterBoolean k b st) = insert (idx st) (processedIndices st)"
  "consoleError (afterBoolean k b st) = consoleError st"
  "shouldDisplayHelp (afterBoolean k b st) = shouldDisplayHelp st"
  by (simp_all add: afterBoolean_def)

lemma initialScan_fields [simp]:
  "idx (initialScan h) = 0"
  "parsedArgs (initialScan h) = []"
  "processedIndices (initialScan h) = {}"
  "consoleError (initialScan h) = []"
  "shouldDisplayHelp (initialScan h) = h"
  by (simp_all add: initialScan_def)

text \<open>The three separate flags: three passes, each through a boolean option.\<close>

lemma separate_flags:
  assumes "a \<noteq> CHR ''=''" "b \<noteq> CHR ''=''" "c \<noteq> CHR ''=''"
    and "lookupKey tbl [CHR ''-'', a] = Some ka" "map_of shape ka = Some fa" "isBooleanKind (fieldType fa)"
    and "lookupKey tbl [CHR ''-'', b] = Some kb" "map_of shape kb = Some fb" "isBooleanKind (fieldType fb)"
    and "lookupKey tbl [CHR ''-'', c] = Some kc" "map_of shape kc = Some fc" "isBooleanKind (fieldType fc)"
  defines "args \<equiv> [[CHR ''-'', a], [CHR ''-'', b], [CHR ''-'', c]]"
  defines "final \<equiv> \<lambda>h. afterBoolean kc True (afterBoolean kb True (afterBoolean ka True (initialScan h)))"
  shows "scan1 Number tbl shape args (initialScan h) = Continue (final h)"
    and "scan2 Number tbl shape args (initialScan h) = Some (Continue (final h))"
proof -
  let ?s0 = "initialScan h :: 'a scan"
  let ?s1 = "afterBoolean ka True ?s0"
  let ?s2 = "afterBoolean kb True ?s1"
  let ?s3 = "afterBoolean kc True ?s2"
  have t0: "args ! idx ?s0 = [CHR ''-'', a]" and t1: "args ! idx ?s1 = [CHR ''-'', b]"
    and t2: "args ! idx ?s2 = [CHR ''-'', c]"
    by (simp_all add: args_def)
  have sp0: "splitInlineValue (args ! idx ?s0) = ([CHR ''-'', a], None)"
    and cl0: "startsWith (args ! idx ?s0) ''--''
          \<or> startsWith (args ! idx ?s0) ''-'' \<and> length (args ! idx ?s0) \<le> 2"
    unfolding t0 using short_flag_token [OF assms(1)] by simp_all
  have sp1: "splitInlineValue (args ! idx ?s1) = ([CHR ''-'', b], None)"
    and cl1: "startsWith (args ! idx ?s1) ''--''
          \<or> startsWith (args ! idx ?s1) ''-'' \<and> length (args ! idx ?s1) \<le> 2"
    unfolding t1 using short_flag_token [OF assms(2)] by simp_all
  have sp2: "splitInlineValue (args ! idx ?s2) = ([CHR ''-'', c], None)"
    and cl2: "startsWith (args ! idx ?s2) ''--''
          \<or> startsWith (args ! idx ?s2) ''-'' \<and> length (args ! idx ?s2) \<le> 2"
    unfolding t2 using short_flag_token [OF assms(3)] by simp_all
  note p0 = boolean_pass(1,2) [OF sp0 cl0 assms(4,5,6), of Number, simplified]
  note p1 = boolean_pass(1,2) [OF sp1 cl1 assms(7,8,9), of Number, simplified]
  note p2 = boolean_pass(1,2) [OF sp2 cl2 assms(10,11,12), of Number, simplified]
  have len: "length args = 3"
    by (simp add: args_def)
  have e1: "scan1 Number tbl shape args ?s3 = Continue ?s3"
    by (subst scan1.simps) (simp add: len)
  have "scan1 Number tbl shape args ?s2 = Continue ?s3"
    by (subst scan1.simps) (simp add: len p2 e1)
  then have "scan1 Number tbl shape args ?s1 = Continue ?s3"
    by (subst scan1.simps) (simp add: len p1)
  then show "scan1 Number tbl shape args (initialScan h) = Continue (final h)"
    unfolding final_def by (subst scan1.simps) (simp add: len p0)
  have e2: "scan2 Number tbl shape args ?s3 = Some (Continue ?s3)"
    by (subst scan2.simps) (simp add: len)
  have "scan2 Number tbl shape args ?s2 = Some (Continue ?s3)"
    by (subst scan2.simps) (simp add: len p2 e2)
  then have "scan2 Number tbl shape args ?s1 = Some (Continue ?s3)"
    by (subst scan2.simps) (simp add: len p1)
  then show "scan2 Number tbl shape args (initialScan h) = Some (Continue (final h))"
    unfolding final_def by (subst scan2.simps) (simp add: len p0)
qed

text \<open>The combined token: one pass, the loop over its three characters.\<close>

lemma combined_flags:
  assumes "a \<noteq> CHR ''-''" "a \<noteq> CHR ''=''" "b \<noteq> CHR ''=''" "c \<noteq> CHR ''=''"
    and "lookupKey tbl [CHR ''-'', a] = Some ka" "map_of shape ka = Some fa" "isBooleanKind (fieldType fa)"
    and "lookupKey tbl [CHR ''-'', b] = Some kb" "map_of shape kb = Some fb" "isBooleanKind (fieldType fb)"
    and "lookupKey tbl [CHR ''-'', c] = Some kc" "map_of shape kc = Some fc" "isBooleanKind (fieldType fc)"
  defines "args \<equiv> [[CHR ''-'', a, b, c]]"
  defines "final \<equiv> \<lambda>h. setIdx 1 (markProcessed 0 (assign kc (VBoolean True)
      (assign kb (VBoolean True) (assign ka (VBoolean True) (initialScan h)))))"
  shows "scan1 Number tbl shape args (initialScan h) = Continue (final h)"
    and "scan2 Number tbl shape args (initialScan h) = Some (Continue (final h))"
proof -
  have t: "typeOf shape ka = fieldType fa" "typeOf shape kb = fieldType fb"
    "typeOf shape kc = fieldType fc"
    using assms(6,9,12) by (simp_all add: typeOf_def)
  have cls: "\<not> startsWith [CHR ''-'', a, b, c] ''--''" "startsWith [CHR ''-'', a, b, c] ''-''"
    using assms(1) by (simp_all add: startsWith_def)
  have it1: "iteration1 Number tbl shape args (initialScan h) = Continue (final h)"
    using assms(5,7,8,10,11,13) t cls
    by (simp add: iteration1_def args_def final_def Let_def)
  have len: "length args = 1" and i: "idx (final h) = 1"
    by (simp_all add: args_def final_def)
  have done1: "scan1 Number tbl shape args (final h) = Continue (final h)"
    by (subst scan1.simps) (simp add: len i)
  show "scan1 Number tbl shape args (initialScan h) = Continue (final h)"
    by (subst scan1.simps) (simp add: it1 done1 len)
  have po: "parseOption [CHR ''-'', x] args 0 tbl shape st
      = (OptionSuccess k (fieldType f) (Some ''true'') 0, markProcessed 0 st)"
    if "x \<noteq> CHR ''=''" "lookupKey tbl [CHR ''-'', x] = Some k" "map_of shape k = Some f"
      "isBooleanKind (fieldType f)" for x k f and st :: "'a scan"
    using that short_flag_token(2) [OF that(1)]
    by (simp add: parseOption_def orTrue_def)
  have tok: "args ! idx (initialScan h :: 'a scan) = [CHR ''-'', a, b, c]"
    by (simp add: args_def)
  let ?st0 = "setIdx 1 (markProcessed 0 (initialScan h :: 'a scan))"
  have cf: "combinedFlags2 Number tbl shape args [a, b, c] ?st0
      = Continue (assign kc (VBoolean True) (markProcessed 0 (assign kb (VBoolean True)
          (markProcessed 0 (assign ka (VBoolean True) (markProcessed 0 ?st0))))))"
    using assms(7,10,13)
    by (simp add: Let_def po [OF assms(2,5,6,7)] po [OF assms(3,8,9,10)] po [OF assms(4,11,12,13)])
  have eq: "assign kc (VBoolean True) (markProcessed 0 (assign kb (VBoolean True)
          (markProcessed 0 (assign ka (VBoolean True) (markProcessed 0 ?st0))))) = final h"
    unfolding final_def by (rule scan_eqI) simp_all
  have it2: "iteration2 Number tbl shape args (initialScan h) = Continue (final h)"
    unfolding iteration2_def tok Let_def using cls cf eq by simp
  have done2: "scan2 Number tbl shape args (final h) = Some (Continue (final h))"
    by (subst scan2.simps) (simp add: len i)
  show "scan2 Number tbl shape args (initialScan h) = Some (Continue (final h))"
    by (subst scan2.simps) (simp add: it2 done2 len)
qed


lemma displayValidationErrors1_console:
  "consoleError (displayValidationErrors1 issues s)
     = consoleError s @ ''Argument validation failed:'' # map issueLine issues"
  unfolding displayValidationErrors1_def logError_lines by (simp add: logError_def)

text \<open>The outcome of a resolver after a scan that ran through: it depends on the record and
  on the lines written so far only.\<close>

lemma outcome_parseArgs1:
  assumes "unwrapSchema1 sch = Inr (shape, d)"
    and "scan1 Number (recognizedOptions1 shape) shape args (initialScan False) = Continue s"
    and "unprocessedArgs args (processedIndices s) = []"
  shows "outcome (parseArgs1 Number safeParse args sch)
    = (case safeParse sch (parsedArgs s) of
         Inl issues \<Rightarrow>
           Inr (None, consoleError s @ ''Argument validation failed:'' # map issueLine issues)
       | Inr data \<Rightarrow> Inr (Some data, consoleError s))"
  using assms
  by (simp add: outcome_def parseArgs1_def displayValidationErrors1_console split: sum.splits)

lemma outcome_parseArgs2:
  assumes "unwrapSchema2 sch = Inr (shape, d)"
    and "scan2 Number (recognizedOptions2 shape) shape args (initialScan h) = Some (Continue s)"
  shows "map_option outcome (parseArgs2 Number safeParse h args sch)
    = Some (case safeParse sch (parsedArgs s) of
         Inl issues \<Rightarrow>
           Inr (None, consoleError (displayValidationErrors issues s))
       | Inr data \<Rightarrow> Inr (Some data, consoleError s))"
  using assms
  by (simp add: outcome_def parseArgs2_def split: sum.splits)

lemma displayValidationErrors_console:
  "consoleError s = consoleError s' \<Longrightarrow>
     consoleError (displayValidationErrors issues s) = consoleError (displayValidationErrors issues s')"
  by (simp add: displayValidationErrors_def)

text \<open>
  C7, as the code has it. Let \<open>a\<close>, \<open>b\<close>, \<open>c\<close> be single characters, none of them \<open>=\<close> and
  \<open>a\<close> not \<open>-\<close>, whose tokens \<open>-a\<close>, \<open>-b\<close>, \<open>-c\<close> lead in the alias table to fields of
  boolean kind. Then in both copies of zli.ts the combined token \<open>-abc\<close> and the three
  tokens \<open>-a\<close> \<open>-b\<close> \<open>-c\<close> end the scan with the same record, in which each of the three
  fields is \<open>true\<close>, and the resolver has the same outcome for both token lists.
\<close>

theorem combined_flags_as_separate_flags:
  assumes "a \<noteq> CHR ''-''" "a \<noteq> CHR ''=''" "b \<noteq> CHR ''=''" "c \<noteq> CHR ''=''"
    and "lookupKey tbl [CHR ''-'', a] = Some ka" "map_of shape ka = Some fa" "isBooleanKind (fieldType fa)"
    and "lookupKey tbl [CHR ''-'', b] = Some kb" "map_of shape kb = Some fb" "isBooleanKind (fieldType fb)"
    and "lookupKey tbl [CHR ''-'', c] = Some kc" "map_of shape kc = Some fc" "isBooleanKind (fieldType fc)"
  shows "(\<exists>s s'. scan1 Number tbl shape [[CHR ''-'', a, b, c]] (initialScan h) = Continue s
            \<and> scan1 Number tbl shape [[CHR ''-'', a], [CHR ''-'', b], [CHR ''-'', c]] (initialScan h)
                = Continue s'
            \<and> parsedArgs s = parsedArgs s'
            \<and> parsedArgs s = AList.update kc (VBoolean True) (AList.update kb (VBoolean True)
                  (AList.update ka (VBoolean True) [])))
    \<and> (\<exists>s s'. scan2 Number tbl shape [[CHR ''-'', a, b, c]] (initialScan h) = Some (Continue s)
            \<and> scan2 Number tbl shape [[CHR ''-'', a], [CHR ''-'', b], [CHR ''-'', c]] (initialScan h)
                = Some (Continue s')
            \<and> parsedArgs s = parsedArgs s'
            \<and> parsedArgs s = AList.update kc (VBoolean True) (AList.update kb (VBoolean True)
                  (AList.update ka (VBoolean True) [])))
    \<and> (tbl = recognizedOptions1 shape \<and> unwrapSchema1 sch = Inr (shape, d) \<longrightarrow>
          outcome (parseArgs1 Number safeParse [[CHR ''-'', a, b, c]] sch)
            = outcome (parseArgs1 Number safeParse [[CHR ''-'', a], [CHR ''-'', b], [CHR ''-'', c]] sch))
    \<and> (tbl = recognizedOptions2 shape \<and> unwrapSchema2 sch = Inr (shape, d) \<longrightarrow>
          parseArgs2 Number safeParse h [[CHR ''-'', a, b, c]] sch \<noteq> None
          \<and> map_option outcome (parseArgs2 Number safeParse h [[CHR ''-'', a, b, c]] sch)
            = map_option outcome
                (parseArgs2 Number safeParse h [[CHR ''-'', a], [CHR ''-'', b], [CHR ''-'', c]] sch))"
proof -
  let ?one = "[[CHR ''-'', a, b, c]]"
  let ?three = "[[CHR ''-'', a], [CHR ''-'', b], [CHR ''-'', c]]"
  define flags :: "'a parsed" where "flags = AList.update kc (VBoolean True)
      (AList.update kb (VBoolean True) (AList.update ka (VBoolean True) []))"
  define s where "s = (\<lambda>h. setIdx 1 (markProcessed 0 (assign kc (VBoolean True)
      (assign kb (VBoolean True) (assign ka (VBoolean True) (initialScan h :: 'a scan))))))"
  define s' where "s' = (\<lambda>h. afterBoolean kc True (afterBoolean kb True
      (afterBoolean ka True (initialScan h :: 'a scan))))"
  have c1: "scan1 Number tbl shape ?one (initialScan h) = Continue (s h)"
    and c2: "scan2 Number tbl shape ?one (initialScan h) = Some (Continue (s h))" for h
    unfolding s_def by (rule combined_flags [OF assms])+
  have t1: "scan1 Number tbl shape ?three (initialScan h) = Continue (s' h)"
    and t2: "scan2 Number tbl shape ?three (initialScan h) = Some (Continue (s' h))" for h
    unfolding s'_def by (rule separate_flags [OF assms(2-)])+
  have f: "parsedArgs (s h) = flags" "parsedArgs (s' h) = flags" for h
    by (simp_all add: s_def s'_def flags_def)
  have g: "consoleError (s h) = []" "consoleError (s' h) = []"
    "processedIndices (s h) = {0}" "processedIndices (s' h) = {0, 1, 2}" for h
    by (auto simp: s_def s'_def)
  have u: "unprocessedArgs ?one (processedIndices (s h)) = []"
    "unprocessedArgs ?three (processedIndices (s' h)) = []" for h
    by (simp_all add: g unprocessedArgs_def)
  have scans1: "\<exists>s s'. scan1 Number tbl shape ?one (initialScan h) = Continue s
            \<and> scan1 Number tbl shape ?three (initialScan h) = Continue s'
            \<and> parsedArgs s = parsedArgs s' \<and> parsedArgs s = flags"
    by (intro exI [of _ "s h"] exI [of _ "s' h"]) (simp add: c1 t1 f)
  have scans2: "\<exists>s s'. scan2 Number tbl shape ?one (initialScan h) = Some (Continue s)
            \<and> scan2 Number tbl shape ?three (initialScan h) = Some (Continue s')
            \<and> parsedArgs s = parsedArgs s' \<and> parsedArgs s = flags"
    by (intro exI [of _ "s h"] exI [of _ "s' h"]) (simp add: c2 t2 f)
  have p1: "outcome (parseArgs1 Number safeParse ?one sch)
      = outcome (parseArgs1 Number safeParse ?three sch)"
    if "tbl = recognizedOptions1 shape" "unwrapSchema1 sch = Inr (shape, d)"
    unfolding outcome_parseArgs1 [OF that(2) c1 [of False, unfolded that(1)] u(1), of safeParse]
      outcome_parseArgs1 [OF that(2) t1 [of False, unfolded that(1)] u(2), of safeParse] f g ..
  have p2: "parseArgs2 Number safeParse h ?one sch \<noteq> None
      \<and> map_option outcome (parseArgs2 Number safeParse h ?one sch)
        = map_option outcome (parseArgs2 Number safeParse h ?three sch)"
    if "tbl = recognizedOptions2 shape" "unwrapSchema2 sch = Inr (shape, d)"
  proof -
    have e: "consoleError (displayValidationErrors issues (s h))
        = consoleError (displayValidationErrors issues (s' h))" for issues
      by (rule displayValidationErrors_console) (simp add: g)
    note o1 = outcome_parseArgs2 [OF that(2) c2 [of h, unfolded that(1)], of safeParse]
    note o3 = outcome_parseArgs2 [OF that(2) t2 [of h, unfolded that(1)], of safeParse]
    have "map_option outcome (parseArgs2 Number safeParse h ?one sch)
        = map_option outcome (parseArgs2 Number safeParse h ?three sch)"
      unfolding o1 o3 f g e ..
    moreover have "parseArgs2 Number safeParse h ?one sch \<noteq> None"
      using o1 by (cases "parseArgs2 Number safeParse h ?one sch") simp_all
    ultimately show ?thesis by simp
  qed
  have C: "tbl = recognizedOptions1 shape \<and> unwrapSchema1 sch = Inr (shape, d) \<longrightarrow>
          outcome (parseArgs1 Number safeParse ?one sch)
            = outcome (parseArgs1 Number safeParse ?three sch)"
    using p1 by (intro impI) (elim conjE)
  have D: "tbl = recognizedOptions2 shape \<and> unwrapSchema2 sch = Inr (shape, d) \<longrightarrow>
          parseArgs2 Number safeParse h ?one sch \<noteq> None
          \<and> map_option outcome (parseArgs2 Number safeParse h ?one sch)
            = map_option outcome (parseArgs2 Number safeParse h ?three sch)"
    using p2 by (intro impI) (elim conjE)
  show ?thesis
    by (rule conjI [OF scans1 [unfolded flags_def] conjI [OF scans2 [unfolded flags_def] conjI [OF C D]]])
qed


theorem combined_flags_as_separate_flags_witness:
  "outcome (parseArgs1 decimal safeValidate [''-abc''] (ZodObject abcShape None))
     = outcome (parseArgs1 decimal safeValidate [''-a'', ''-b'', ''-c''] (ZodObject abcShape None))
   \<and> outcome (parseArgs1 decimal safeValidate [''-abc''] (ZodObject abcShape None))
     = Inr (Some [(''a'', VBoolean True), (''b'', VBoolean True), (''c'', VBoolean True)], [])
   \<and> map_option outcome (parseArgs2 decimal safeValidate False [''-abc''] (ZodObject abcShape None))
     = map_option outcome
         (parseArgs2 decimal safeValidate False [''-a'', ''-b'', ''-c''] (ZodObject abcShape None))
   \<and> map_option outcome (parseArgs2 decimal safeValidate False [''-abc''] (ZodObject abcShape None))
     = Some (Inr (Some [(''a'', VBoolean True), (''b'', VBoolean True), (''c'', VBoolean True)], []))"
proof -
  let ?sch = "ZodObject abcShape None"
  have ch: "CHR ''a'' \<noteq> CHR ''-''" "CHR ''a'' \<noteq> CHR ''=''" "CHR ''b'' \<noteq> CHR ''=''"
    "CHR ''c'' \<noteq> CHR ''=''"
    by simp_all
  have f: "map_of abcShape ''a'' = Some (declared ZodBoolean [''a''])"
    "isBooleanKind (fieldType (declared ZodBoolean [''a'']))"
    "map_of abcShape ''b'' = Some (declared ZodBoolean [''b''])"
    "isBooleanKind (fieldType (declared ZodBoolean [''b'']))"
    "map_of abcShape ''c'' = Some (declared ZodBoolean [''c''])"
    "isBooleanKind (fieldType (declared ZodBoolean [''c'']))"
    by (simp_all add: abcShape_def declared_def)
  have k1: "lookupKey (recognizedOptions1 abcShape) [CHR ''-'', CHR ''a''] = Some ''a''"
    "lookupKey (recognizedOptions1 abcShape) [CHR ''-'', CHR ''b''] = Some ''b''"
    "lookupKey (recognizedOptions1 abcShape) [CHR ''-'', CHR ''c''] = Some ''c''"
    by code_simp+
  have k2: "lookupKey (recognizedOptions2 abcShape) [CHR ''-'', CHR ''a''] = Some ''a''"
    "lookupKey (recognizedOptions2 abcShape) [CHR ''-'', CHR ''b''] = Some ''b''"
    "lookupKey (recognizedOptions2 abcShape) [CHR ''-'', CHR ''c''] = Some ''c''"
    by code_simp+
  have u: "unwrapSchema1 ?sch = Inr (abcShape, None)" "unwrapSchema2 ?sch = Inr (abcShape, None)"
    by simp_all
  have r1: "outcome (parseArgs1 decimal safeValidate [''-abc''] ?sch)
     = Inr (Some [(''a'', VBoolean True), (''b'', VBoolean True), (''c'', VBoolean True)], [])"
    by code_simp
  have r2: "map_option outcome (parseArgs2 decimal safeValidate False [''-abc''] ?sch)
     = Some (Inr (Some [(''a'', VBoolean True), (''b'', VBoolean True), (''c'', VBoolean True)], []))"
    by code_simp
  from combined_flags_as_separate_flags [OF ch k1(1) f(1,2) k1(2) f(3,4) k1(3) f(5,6),
      where sch = ?sch and d = None and Number = decimal and safeParse = safeValidate] u
  have a: "outcome (parseArgs1 decimal safeValidate [''-abc''] ?sch)
     = outcome (parseArgs1 decimal safeValidate [''-a'', ''-b'', ''-c''] ?sch)"
    by simp
  from combined_flags_as_separate_flags [OF ch k2(1) f(1,2) k2(2) f(3,4) k2(3) f(5,6),
      where sch = ?sch and d = None and Number = decimal and safeParse = safeValidate and h = False] u
  have b: "map_option outcome (parseArgs2 decimal safeValidate False [''-abc''] ?sch)
     = map_option outcome (parseArgs2 decimal safeValidate False [''-a'', ''-b'', ''-c''] ?sch)"
    by simp
  from a r1 b r2 show ?thesis
    by simp
qed

text \<open>
  C7 does not hold for every single character. The alias \<open>-\<close> is stored as the token
  \<open>--\<close> and leads to the boolean field \<open>dash\<close>; the separate tokens \<open>--\<close> \<open>-b\<close> \<open>-c\<close> set
  the three flags, but the combined token is \<open>--bc\<close>, a long option that no table knows.
\<close>

theorem combined_flags_dash_alias_counterexample:
  "lookupKey (recognizedOptions1 dashShape) [CHR ''-'', CHR ''-''] = Some ''dash''
   \<and> lookupKey (recognizedOptions2 dashShape) [CHR ''-'', CHR ''-''] = Some ''dash''
   \<and> outcome (parseArgs1 decimal safeValidate [[CHR ''-'', CHR ''-'', CHR ''b'', CHR ''c'']]
         (ZodObject dashShape None))
     = Inr (None, [''Unknown option: --bc''])
   \<and> outcome (parseArgs1 decimal safeValidate
         [[CHR ''-'', CHR ''-''], [CHR ''-'', CHR ''b''], [CHR ''-'', CHR ''c'']]
         (ZodObject dashShape None))
     = Inr (Some [(''dash'', VBoolean True), (''b'', VBoolean True), (''c'', VBoolean True)], [])
   \<and> map_option outcome (parseArgs2 decimal safeValidate False
         [[CHR ''-'', CHR ''-'', CHR ''b'', CHR ''c'']] (ZodObject dashShape None))
     = Some (Inr (None, [''Unknown option: --bc'']))
   \<and> map_option outcome (parseArgs2 decimal safeValidate False
         [[CHR ''-'', CHR ''-''], [CHR ''-'', CHR ''b''], [CHR ''-'', CHR ''c'']]
         (ZodObject dashShape None))
     = Some (Inr (Some [(''dash'', VBoolean True), (''b'', VBoolean True), (''c'', VBoolean True)], []))"
proof -
  have a: "lookupKey (recognizedOptions1 dashShape) [CHR ''-'', CHR ''-''] = Some ''dash''"
    by code_simp
  have b: "lookupKey (recognizedOptions2 dashShape) [CHR ''-'', CHR ''-''] = Some ''dash''"
    by code_simp
  have c: "outcome (parseArgs1 decimal safeValidate [[CHR ''-'', CHR ''-'', CHR ''b'', CHR ''c'']]
         (ZodObject dashShape None))
     = Inr (None, [''Unknown option: --bc''])"
    by code_simp
  have d: "outcome (parseArgs1 decimal safeValidate
         [[CHR ''-'', CHR ''-''], [CHR ''-'', CHR ''b''], [CHR ''-'', CHR ''c'']]
         (ZodObject dashShape None))
     = Inr (Some [(''dash'', VBoolean True), (''b'', VBoolean True), (''c'', VBoolean True)], [])"
    by code_simp
  have e: "map_option outcome (parseArgs2 decimal safeValidate False
         [[CHR ''-'', CHR ''-'', CHR ''b'', CHR ''c'']] (ZodObject dashShape None))
     = Some (Inr (None, [''Unknown option: --bc'']))"
    by code_simp
  have f: "map_option outcome (parseArgs2 decimal safeValidate False
         [[CHR ''-'', CHR ''-''], [CHR ''-'', CHR ''b''], [CHR ''-'', CHR ''c'']]
         (ZodObject dashShape None))
     = Some (Inr (Some [(''dash'', VBoolean True), (''b'', VBoolean True), (''c'', VBoolean True)], []))"
    by code_simp
  from a b c d e f show ?thesis
    by blast
qed


section \<open>C3: an array option with an inline value\<close>

text \<open>For an array field \<open>parseOption\<close> returns no \<open>value\<close>, whatever the token holds
  after \<open>=\<close>; the branch of \<open>parseArgs\<close> and of \<open>processArguments\<close> that splits the value
  on commas is never taken.\<close>

lemma array_not_boolean: "isZodArray t \<Longrightarrow> \<not> isBooleanKind t"
  by (cases t) auto

lemma parseOption_array_has_no_value:
  assumes "parseOption arg0 args i tbl shape st = (OptionSuccess k t v n, s)" and "isZodArray t"
  shows "v = None"
proof -
  obtain arg inl where sp: "splitInlineValue arg0 = (arg, inl)"
    by (cases "splitInlineValue arg0")
  from assms sp array_not_boolean [OF assms(2)] show ?thesis
    by (auto simp: parseOption_def Let_def split: option.splits if_splits)
qed

text \<open>
  C3 at the input of the test "should handle comma-separated arrays in
  --tags=value1,value2 format". With the schema \<open>{tags: array of string}\<close>, the token
  \<open>--tags=x,y\<close> gives the record \<open>{tags: []}\<close> in all three resolvers: the first copy
  never looks at the inline value of an array option, and in the second copy and in
  index.ts \<open>parseOption\<close> has dropped it before the comma split is reached. The greedy
  form \<open>--tags x y\<close> gives \<open>{tags: [x, y]}\<close> in both copies of zli.ts, so the two forms
  differ (in index.ts it fails with \<open>Unknown argument: x\<close>).
\<close>

theorem inline_array_value_is_lost:
  "outcome (parseArgs1 decimal safeValidate [''--tags=x,y''] (ZodObject tagsShape None))
     = Inr (Some [(''tags'', VArray [])], [])
   \<and> map_option outcome (parseArgs2 decimal safeValidate False [''--tags=x,y''] (ZodObject tagsShape None))
     = Some (Inr (Some [(''tags'', VArray [])], []))
   \<and> outcome (processArguments decimal safeValidate False [''--tags=x,y''] (ZodObject tagsShape None))
     = Inr (Some [(''tags'', VArray [])], [])
   \<and> outcome (parseArgs1 decimal safeValidate [''--tags'', ''x'', ''y''] (ZodObject tagsShape None))
     = Inr (Some [(''tags'', VArray [''x'', ''y''])], [])
   \<and> map_option outcome
       (parseArgs2 decimal safeValidate False [''--tags'', ''x'', ''y''] (ZodObject tagsShape None))
     = Some (Inr (Some [(''tags'', VArray [''x'', ''y''])], []))
   \<and> outcome (processArguments decimal safeValidate False [''--tags'', ''x'', ''y'']
         (ZodObject tagsShape None))
     = Inr (None, [''Unknown argument: x''])"
proof -
  have a: "outcome (parseArgs1 decimal safeValidate [''--tags=x,y''] (ZodObject tagsShape None))
     = Inr (Some [(''tags'', VArray [])], [])"
    by code_simp
  have b: "map_option outcome
       (parseArgs2 decimal safeValidate False [''--tags=x,y''] (ZodObject tagsShape None))
     = Some (Inr (Some [(''tags'', VArray [])], []))"
    by code_simp
  have c: "outcome (processArguments decimal safeValidate False [''--tags=x,y''] (ZodObject tagsShape None))
     = Inr (Some [(''tags'', VArray [])], [])"
    by code_simp
  have d: "outcome (parseArgs1 decimal safeValidate [''--tags'', ''x'', ''y''] (ZodObject tagsShape None))
     = Inr (Some [(''tags'', VArray [''x'', ''y''])], [])"
    by code_simp
  have e: "map_option outcome
       (parseArgs2 decimal safeValidate False [''--tags'', ''x'', ''y''] (ZodObject tagsShape None))
     = Some (Inr (Some [(''tags'', VArray [''x'', ''y''])], []))"
    by code_simp
  have f: "outcome (processArguments decimal safeValidate False [''--tags'', ''x'', ''y'']
         (ZodObject tagsShape None))
     = Inr (None, [''Unknown argument: x''])"
    by code_simp
  from a b c d e f show ?thesis
    by blast
qed

section \<open>C2: the three resolvers on one input\<close>

text \<open>The schema of the test "should handle multiple aliases for options".\<close>

definition nameShape :: "(string \<times> field) list" where
  "nameShape = [(''name'', declared ZodString [''n'', ''fullname''])]"

text \<open>
  C2 at the input of that test, \<open>-n Bob\<close>. Both copies of \<open>parseArgs\<close> in zli.ts resolve
  it to \<open>{name: Bob}\<close>; \<open>processArguments\<close> of index.ts has no branch for a single short
  option and fails with \<open>Unknown argument: -n\<close>. So the three resolvers are not
  equivalent.
\<close>

theorem resolvers_differ_on_short_option:
  "outcome (parseArgs1 decimal safeValidate [''-n'', ''Bob''] (ZodObject nameShape None))
     = Inr (Some [(''name'', VString ''Bob'')], [])
   \<and> map_option outcome (parseArgs2 decimal safeValidate False [''-n'', ''Bob''] (ZodObject nameShape None))
     = Some (Inr (Some [(''name'', VString ''Bob'')], []))
   \<and> outcome (processArguments decimal safeValidate False [''-n'', ''Bob''] (ZodObject nameShape None))
     = Inr (None, [''Unknown argument: -n''])"
proof -
  have a: "outcome (parseArgs1 decimal safeValidate [''-n'', ''Bob''] (ZodObject nameShape None))
     = Inr (Some [(''name'', VString ''Bob'')], [])"
    by code_simp
  have b: "map_option outcome
       (parseArgs2 decimal safeValidate False [''-n'', ''Bob''] (ZodObject nameShape None))
     = Some (Inr (Some [(''name'', VString ''Bob'')], []))"
    by code_simp
  have c: "outcome (processArguments decimal safeValidate False [''-n'', ''Bob''] (ZodObject nameShape None))
     = Inr (None, [''Unknown argument: -n''])"
    by code_simp
  from a b c show ?thesis
    by blast
qed

section \<open>C5: a failure inside combined short flags in index.ts\<close>

text \<open>A command \<open>test\<close> with the empty object schema and a handler that returns.\<close>

definition testCommands :: "(string \<times> nat commandDefinition) list" where
  "testCommands =
     addCommand ''test'' (ZodObject [] None) (\<lambda>parsed. Returns) [] []"

text \<open>
  C5 at the input \<open>test -xy\<close>. In index.ts \<open>processCombinedShortFlags\<close> reports
  \<open>Unknown option: -x\<close> and returns its index like a success; \<open>processArguments\<close> goes
  on, the empty record passes validation, and \<open>parse\<close> calls the handler and renders no
  help. Both copies of zli.ts stop at the unknown option, render the command's help
  and do not call the handler.
\<close>

theorem handler_called_after_unknown_flag:
  "parse3 decimal safeValidate testCommands False [''test'', ''-xy'']
     = (([ConsoleError ''Unknown option: -x'', HandlerCalled ''test'' []], ReturnsNormally), True)
   \<and> parse2 decimal safeValidate testCommands False [''test'', ''-xy'']
     = Some (([ConsoleError ''Unknown option: -x'',
               ConsoleLog (helpMessage ''test'' [] None)], ReturnsNormally), True)
   \<and> parse1 decimal safeValidate testCommands [''test'', ''-xy'']
     = ([ConsoleError ''Unknown option: -x'',
         ConsoleLog (nl @ ''Usage: test [options]'' @ nl),
         ConsoleLog (''No description available'' @ nl @ ''Options:''),
         ConsoleLog (nl @ ''Examples:'')], ReturnsNormally)"
proof -
  have a: "parse3 decimal safeValidate testCommands False [''test'', ''-xy'']
     = (([ConsoleError ''Unknown option: -x'', HandlerCalled ''test'' []], ReturnsNormally), True)"
    by code_simp
  have b: "parse2 decimal safeValidate testCommands False [''test'', ''-xy'']
     = Some (([ConsoleError ''Unknown option: -x'',
               ConsoleLog (helpMessage ''test'' [] None)], ReturnsNormally), True)"
    by code_simp
  have c: "parse1 decimal safeValidate testCommands [''test'', ''-xy'']
     = ([ConsoleError ''Unknown option: -x'',
         ConsoleLog (nl @ ''Usage: test [options]'' @ nl),
         ConsoleLog (''No description available'' @ nl @ ''Options:''),
         ConsoleLog (nl @ ''Examples:'')], ReturnsNormally)"
    by code_simp
  from a b c show ?thesis
    by blast
qed


section \<open>The passes of the second copy\<close>

lemma split_head_length: "split t sep = a # rest \<Longrightarrow> length a \<le> length t"
proof (induction t arbitrary: a rest)
  case Nil
  then show ?case by simp
next
  case (Cons c cs)
  show ?case
  proof (cases "c = sep")
    case True
    with Cons.prems show ?thesis by simp
  next
    case False
    obtain p ps where s: "split cs sep = p # ps"
      using split_not_Nil [of cs sep] by (cases "split cs sep") simp_all
    from Cons.IH [OF s] Cons.prems False s show ?thesis by auto
  qed
qed

lemma splitInlineValue_length: "splitInlineValue t = (arg, v) \<Longrightarrow> length arg \<le> length t"
  by (auto simp: splitInlineValue_def split: if_splits list.splits dest: split_head_length)

lemma parseOption_success:
  assumes "parseOption arg0 args i tbl shape st = (OptionSuccess k t v n, s)"
  shows "\<exists>arg inl f. splitInlineValue arg0 = (arg, inl) \<and> lookupKey tbl arg = Some k
      \<and> map_of shape k = Some f \<and> t = fieldType f"
    and "idx s = idx st"
    and "isBooleanKind t \<Longrightarrow> n = i"
    and "isZodArray t \<Longrightarrow> n = i"
    and "\<not> isBooleanKind t \<Longrightarrow> \<not> isZodArray t \<Longrightarrow> i < n"
proof -
  obtain arg inl where sp: "splitInlineValue arg0 = (arg, inl)"
    by (cases "splitInlineValue arg0")
  from assms sp obtain f where f: "lookupKey tbl arg = Some k" "map_of shape k = Some f"
    "t = fieldType f"
    by (auto simp: parseOption_def Let_def split: option.splits if_splits)
  with sp show "\<exists>arg inl f. splitInlineValue arg0 = (arg, inl) \<and> lookupKey tbl arg = Some k
      \<and> map_of shape k = Some f \<and> t = fieldType f"
    by blast
  from assms sp show "idx s = idx st"
    by (auto simp: parseOption_def Let_def split: option.splits if_splits)
  from assms sp f show "isBooleanKind t \<Longrightarrow> n = i"
    by (auto simp: parseOption_def Let_def split: option.splits if_splits)
  from assms sp f array_not_boolean [of t] show "isZodArray t \<Longrightarrow> n = i"
    by (auto simp: parseOption_def Let_def split: option.splits if_splits)
  from assms sp f show "\<not> isBooleanKind t \<Longrightarrow> \<not> isZodArray t \<Longrightarrow> i < n"
    by (auto simp: parseOption_def Let_def split: option.splits if_splits)
qed

lemma parseOption_idx: "parseOption arg0 args i tbl shape st = (r, s) \<Longrightarrow> idx s = idx st"
  using processOptionValue_idx [of arg0 args i tbl shape st r s]
  by (simp add: processOptionValue_eq)

lemma combinedFlags2_idx:
  "combinedFlags2 Number tbl shape args flags st = Continue s \<Longrightarrow> idx st \<le> idx s"
proof (induction flags arbitrary: st)
  case Nil
  then show ?case by simp
next
  case (Cons flag flags)
  obtain r st1 where p: "parseOption [CHR ''-'', flag] args (idx st - 1) tbl shape st = (r, st1)"
    by (cases "parseOption [CHR ''-'', flag] args (idx st - 1) tbl shape st")
  have i1: "idx st1 = idx st"
    using parseOption_idx [OF p] .
  show ?case
  proof (cases r)
    case (OptionFailure n)
    with Cons.prems p show ?thesis by (simp del: One_nat_def)
  next
    case (OptionSuccess k t v n)
    show ?thesis
    proof (cases "isBooleanKind t")
      case True
      with Cons.prems p OptionSuccess
      have "combinedFlags2 Number tbl shape args flags (assign k (VBoolean True) st1) = Continue s"
        by (simp del: One_nat_def)
      from Cons.IH [OF this] i1 show ?thesis by simp
    next
      case False
      with Cons.prems p OptionSuccess
      have "combinedFlags2 Number tbl shape args flags
              (assign k (parseValue Number (args ! idx st1) t)
                (setIdx (idx st1 + 1) (markProcessed (idx st1) st1))) = Continue s"
        by (simp del: One_nat_def split: if_splits)
      from Cons.IH [OF this] i1 show ?thesis by simp
    qed
  qed
qed

text \<open>A pass of the second copy moves \<open>i\<close> forward, unless a single short option leads to
  an array field.\<close>

lemma iteration2_progress:
  assumes it: "iteration2 Number tbl shape args st = Continue s"
    and nsa: "\<And>t k f. length t \<le> 2 \<Longrightarrow> lookupKey tbl t = Some k \<Longrightarrow> map_of shape k = Some f
        \<Longrightarrow> \<not> isZodArray (fieldType f)"
  shows "idx st < idx s"
proof -
  let ?arg = "args ! idx st"
  consider (long) "startsWith ?arg ''--''"
    | (combined) "\<not> startsWith ?arg ''--''" "startsWith ?arg ''-''" "length ?arg > 2"
    | (short) "\<not> startsWith ?arg ''--''" "startsWith ?arg ''-''" "length ?arg \<le> 2"
    | (bare) "\<not> startsWith ?arg ''--''" "\<not> startsWith ?arg ''-''"
    by fastforce
  then show ?thesis
  proof cases
    case long
    with it have l: "longOption2 Number tbl shape args st = Continue s"
      by (simp add: iteration2_def)
    obtain r st1 where p: "parseOption ?arg args (idx st) tbl shape st = (r, st1)"
      by (cases "parseOption ?arg args (idx st) tbl shape st")
    show ?thesis
    proof (cases r)
      case (OptionFailure n)
      with l p show ?thesis by (simp add: longOption2_def)
    next
      case (OptionSuccess k t v n)
      note ok = parseOption_success [OF p [unfolded OptionSuccess]]
      consider (b) "isBooleanKind t" | (a) "\<not> isBooleanKind t" "isZodArray t"
        | (s) "\<not> isBooleanKind t" "\<not> isZodArray t"
        by blast
      then show ?thesis
      proof cases
        case b
        with l p OptionSuccess ok(3) show ?thesis
          by (auto simp: longOption2_def Let_def)
      next
        case a
        have v: "v = None"
          using parseOption_array_has_no_value [OF p [unfolded OptionSuccess] a(2)] .
        obtain vs st3 where c: "consumeArrayValues args [] (setIdx (n + 1) (setIdx n st1)) = (vs, st3)"
          by (cases "consumeArrayValues args [] (setIdx (n + 1) (setIdx n st1))")
        with l p OptionSuccess a v have "s = assign k (VArray vs) st3"
          by (simp add: longOption2_def Let_def)
        with consumeArrayValues_idx [OF c] ok(4) [OF a(2)] show ?thesis
          by simp
      next
        case s
        with l p OptionSuccess ok(5) show ?thesis
          by (auto simp: longOption2_def Let_def)
      qed
    qed
  next
    case combined
    with it have "combinedFlags2 Number tbl shape args (drop 1 ?arg)
        (setIdx (idx st + 1) (markProcessed (idx st) st)) = Continue s"
      by (simp add: iteration2_def)
    from combinedFlags2_idx [OF this] show ?thesis by simp
  next
    case short
    with it have l: "shortOption2 Number tbl shape args st = Continue s"
      by (simp add: iteration2_def)
    obtain r st1 where p: "parseOption ?arg args (idx st) tbl shape st = (r, st1)"
      by (cases "parseOption ?arg args (idx st) tbl shape st")
    show ?thesis
    proof (cases r)
      case (OptionFailure n)
      with l p show ?thesis by (simp add: shortOption2_def)
    next
      case (OptionSuccess k t v n)
      note ok = parseOption_success [OF p [unfolded OptionSuccess]]
      from ok(1) obtain arg inl f where f: "splitInlineValue ?arg = (arg, inl)"
        "lookupKey tbl arg = Some k" "map_of shape k = Some f" "t = fieldType f"
        by blast
      from splitInlineValue_length [OF f(1)] short(3) have "length arg \<le> 2"
        by simp
      from nsa [OF this f(2,3)] f(4) have na: "\<not> isZodArray t"
        by simp
      show ?thesis
      proof (cases "isBooleanKind t")
        case True
        with l p OptionSuccess ok(3) show ?thesis
          by (auto simp: shortOption2_def Let_def)
      next
        case False
        with l p OptionSuccess ok(5) na show ?thesis
          by (auto simp: shortOption2_def Let_def)
      qed
    qed
  next
    case bare
    with it show ?thesis by (simp add: iteration2_def)
  qed
qed

lemma scan2_returns:
  assumes short: "\<And>t k f. length t \<le> 2 \<Longrightarrow> lookupKey tbl t = Some k \<Longrightarrow> map_of shape k = Some f
        \<Longrightarrow> \<not> isZodArray (fieldType f)"
  shows "\<exists>r. scan2 Number tbl shape args st = Some r"
proof (induction "length args - idx st" arbitrary: st rule: less_induct)
  case less
  show ?case
  proof (cases "idx st < length args")
    case False
    then show ?thesis by (simp add: scan2.simps [of _ _ _ args st])
  next
    case True
    show ?thesis
    proof (cases "iteration2 Number tbl shape args st")
      case (ReturnNull s)
      with True show ?thesis by (simp add: scan2.simps [of _ _ _ args st])
    next
      case (Continue s)
      have "idx st < idx s"
        by (rule iteration2_progress [OF Continue]) (rule short)
      with True have "length args - idx s < length args - idx st"
        by simp
      from less.hyps [OF this] True Continue show ?thesis
        by (simp add: scan2.simps [of _ _ _ args st])
    qed
  qed
qed


lemma unwrapSchema2_Inl: "unwrapSchema2 sch = Inl e \<Longrightarrow> e = Error ''Unsupported schema type''"
  by (induction sch) auto

lemma callHandler_returns:
  assumes "\<And>parsed. cmdHandler cmd parsed \<noteq> Throws ThrownNullish"
  shows "\<exists>evs. callHandler commandName cmd parsed = (evs, ReturnsNormally)"
proof (cases "cmdHandler cmd parsed")
  case Returns
  then show ?thesis by (simp add: callHandler_def)
next
  case (Throws x)
  with assms [of parsed] obtain m where "x = ThrownValue m"
    by (cases x) simp_all
  with Throws show ?thesis by (simp add: callHandler_def)
qed


section \<open>C4: boolean options\<close>

lemma split_hd: "hd (split v sep) = takeWhile (\<lambda>c. c \<noteq> sep) v"
  using split_not_Nil [of _ sep] by (induction v) (auto split: list.splits)

lemma splitInlineValue_first:
  assumes "CHR ''='' \<notin> set a"
  shows "splitInlineValue (a @ ''='' @ v) = (a, Some (takeWhile (\<lambda>c. c \<noteq> CHR ''='') v))"
proof -
  obtain p ps where s: "split v (CHR ''='') = p # ps"
    using split_not_Nil [of v "CHR ''=''"] by (cases "split v (CHR ''='')") auto
  with split_hd [of v "CHR ''=''"] have p: "p = takeWhile (\<lambda>c. c \<noteq> CHR ''='') v"
    by simp
  from assms s show ?thesis
    by (simp add: splitInlineValue_def includesChar_def split_append_sep p)
qed

text \<open>A schema with one required boolean field.\<close>

definition verboseShape :: "(string \<times> field) list" where
  "verboseShape = [(''verbose'', declared ZodBoolean [''v''])]"

text \<open>
  C4, as the code has it. For a field of boolean kind (\<open>ZodBoolean\<close> or an optional
  around it): a long or single short option without \<open>=\<close> sets the field to \<open>true\<close>. A
  long option \<open>--flag=v\<close> has as its inline value the text of \<open>v\<close> up to its first \<open>=\<close>
  (all of \<open>v\<close> if it has none); it sets the field to \<open>true\<close> if that value is \<open>true\<close> or
  empty and to \<open>false\<close> for every other value (\<open>false\<close>, \<open>yes\<close>, ...). The resolvers never
  hand the value of a boolean field to \<open>parseValue\<close>; \<open>parseValue\<close> itself, on a boolean
  kind, returns a string that is neither \<open>true\<close> nor \<open>false\<close> unchanged.
\<close>

theorem boolean_option_sets_boolean:
  assumes "CHR ''='' \<notin> set name" and "lookupKey tbl name = Some k"
    and "map_of shape k = Some f" and "isBooleanKind (fieldType f)"
  shows "((startsWith name ''--'' \<or> startsWith name ''-'' \<and> length name \<le> 2)
          \<and> args ! idx st = name \<longrightarrow>
            iteration1 Number tbl shape args st = Continue (afterBoolean k True st)
          \<and> iteration2 Number tbl shape args st = Continue (afterBoolean k True st))
    \<and> (startsWith name ''--'' \<and> args ! idx st = name \<longrightarrow>
            iteration3 Number tbl shape args st = Continue (afterBoolean k True st))
    \<and> (startsWith name ''--'' \<and> args ! idx st = name @ ''='' @ v \<longrightarrow>
            iteration1 Number tbl shape args st
              = Continue (afterBoolean k
                  (takeWhile (\<lambda>c. c \<noteq> CHR ''='') v \<in> {[], ''true''}) st)
          \<and> iteration2 Number tbl shape args st
              = Continue (afterBoolean k
                  (takeWhile (\<lambda>c. c \<noteq> CHR ''='') v \<in> {[], ''true''}) st)
          \<and> iteration3 Number tbl shape args st
              = Continue (afterBoolean k
                  (takeWhile (\<lambda>c. c \<noteq> CHR ''='') v \<in> {[], ''true''}) st))
    \<and> (w \<noteq> ''true'' \<and> w \<noteq> ''false'' \<longrightarrow> parseValue Number w (fieldType f) = VString w)"
proof -
  have plain: "iteration1 Number tbl shape args st = Continue (afterBoolean k True st)
      \<and> iteration2 Number tbl shape args st = Continue (afterBoolean k True st)"
    if c: "startsWith name ''--'' \<or> startsWith name ''-'' \<and> length name \<le> 2"
      and a: "args ! idx st = name"
  proof -
    have sp: "splitInlineValue (args ! idx st) = (name, None)"
      using a assms(1) by (simp add: splitInlineValue_plain)
    have cl: "startsWith (args ! idx st) ''--''
          \<or> startsWith (args ! idx st) ''-'' \<and> length (args ! idx st) \<le> 2"
      using c a by simp
    from boolean_pass(1,2) [OF sp cl assms(2,3,4)] show ?thesis
      by simp
  qed
  have plain3: "iteration3 Number tbl shape args st = Continue (afterBoolean k True st)"
    if c: "startsWith name ''--''" and a: "args ! idx st = name"
  proof -
    have sp: "splitInlineValue (args ! idx st) = (name, None)"
      using a assms(1) by (simp add: splitInlineValue_plain)
    have long: "startsWith (args ! idx st) ''--''"
      using c a by simp
    then have cl: "startsWith (args ! idx st) ''--''
          \<or> startsWith (args ! idx st) ''-'' \<and> length (args ! idx st) \<le> 2"
      by simp
    from boolean_pass(3) [OF sp cl assms(2,3,4) long] show ?thesis
      by simp
  qed
  have inline: "iteration1 Number tbl shape args st
              = Continue (afterBoolean k (takeWhile (\<lambda>c. c \<noteq> CHR ''='') v \<in> {[], ''true''}) st)
          \<and> iteration2 Number tbl shape args st
              = Continue (afterBoolean k (takeWhile (\<lambda>c. c \<noteq> CHR ''='') v \<in> {[], ''true''}) st)
          \<and> iteration3 Number tbl shape args st
              = Continue (afterBoolean k (takeWhile (\<lambda>c. c \<noteq> CHR ''='') v \<in> {[], ''true''}) st)"
    if c: "startsWith name ''--''" and a: "args ! idx st = name @ ''='' @ v"
  proof -
    define u where "u = takeWhile (\<lambda>c. c \<noteq> CHR ''='') v"
    have sp: "splitInlineValue (args ! idx st) = (name, Some u)"
      unfolding a u_def using assms(1) by (rule splitInlineValue_first)
    have long: "startsWith (args ! idx st) ''--''"
      unfolding a using c by (rule startsWith_append)
    then have cl: "startsWith (args ! idx st) ''--''
          \<or> startsWith (args ! idx st) ''-'' \<and> length (args ! idx st) \<le> 2"
      by simp
    have b: "(if truthy (Some u) then Some u = Some ''true'' else True) = (u \<in> {[], ''true''})"
      by auto
    from boolean_pass(1,2) [OF sp cl assms(2,3,4)] boolean_pass(3) [OF sp cl assms(2,3,4) long]
    show ?thesis
      unfolding b u_def by simp
  qed
  have coerce: "parseValue Number w (fieldType f) = VString w" if "w \<noteq> ''true''" "w \<noteq> ''false''"
    using that assms(4) by (cases "fieldType f" rule: isBooleanKind.cases) (simp_all add: parseValue_def)
  from plain plain3 inline coerce show ?thesis
    by blast
qed

theorem boolean_option_sets_boolean_witness:
  "iteration1 decimal (recognizedOptions2 nameAgeShape) nameAgeShape [''--verbose=yes''] (initialScan False)
     = Continue (afterBoolean ''verbose'' False (initialScan False))
   \<and> iteration2 decimal (recognizedOptions2 nameAgeShape) nameAgeShape [''--verbose=yes''] (initialScan False)
     = Continue (afterBoolean ''verbose'' False (initialScan False))
   \<and> iteration3 decimal (recognizedOptions2 nameAgeShape) nameAgeShape [''--verbose=yes''] (initialScan False)
     = Continue (afterBoolean ''verbose'' False (initialScan False))
   \<and> iteration2 decimal (recognizedOptions2 nameAgeShape) nameAgeShape [''--verbose=true=x''] (initialScan False)
     = Continue (afterBoolean ''verbose'' True (initialScan False))
   \<and> iteration3 decimal (recognizedOptions2 nameAgeShape) nameAgeShape [''--verbose''] (initialScan False)
     = Continue (afterBoolean ''verbose'' True (initialScan False))
   \<and> iteration1 decimal (recognizedOptions2 nameAgeShape) nameAgeShape [''-v''] (initialScan False)
     = Continue (afterBoolean ''verbose'' True (initialScan False))
   \<and> iteration2 decimal (recognizedOptions2 nameAgeShape) nameAgeShape [''-v''] (initialScan False)
     = Continue (afterBoolean ''verbose'' True (initialScan False))
   \<and> parseValue decimal ''yes'' (ZodOptional ZodBoolean) = VString ''yes''"
proof -
  let ?f = "declared (ZodOptional ZodBoolean) [''v'']"
  let ?st = "initialScan False :: nat scan"
  have i: "idx ?st = 0"
    by (simp add: initialScan_def)
  have f: "map_of nameAgeShape ''verbose'' = Some ?f" "isBooleanKind (fieldType ?f)"
    "fieldType ?f = ZodOptional ZodBoolean"
    by (simp_all add: nameAgeShape_def declared_def)
  have k1: "lookupKey (recognizedOptions2 nameAgeShape) ''--verbose'' = Some ''verbose''"
    by code_simp
  have k2: "lookupKey (recognizedOptions2 nameAgeShape) ''-v'' = Some ''verbose''"
    by code_simp
  have e: "CHR ''='' \<notin> set ''--verbose''" "CHR ''='' \<notin> set ''-v''"
    by simp_all
  have c: "startsWith ''--verbose'' ''--''" "startsWith ''-v'' ''-'' \<and> length ''-v'' \<le> 2"
    by (simp_all add: startsWith_def)
  show ?thesis
    using boolean_option_sets_boolean [OF e(1) k1 f(1,2),
        where v = "''yes''" and args = "[''--verbose=yes'']" and st = ?st and w = "''yes''"
          and Number = decimal]
      boolean_option_sets_boolean [OF e(1) k1 f(1,2),
        where v = "''true=x''" and args = "[''--verbose=true=x'']" and st = ?st and w = "''yes''"
          and Number = decimal]
      boolean_option_sets_boolean [OF e(1) k1 f(1,2),
        where v = "''yes''" and args = "[''--verbose'']" and st = ?st and w = "''yes''"
          and Number = decimal]
      boolean_option_sets_boolean [OF e(2) k2 f(1,2),
        where v = "''yes''" and args = "[''-v'']" and st = ?st and w = "''yes''"
          and Number = decimal] e c
    by (simp add: i f(3))
qed

text \<open>
  The sentence of C4 about other values does not hold: \<open>--verbose=yes\<close> stores the boolean
  \<open>false\<close> in the three resolvers, not the string \<open>yes\<close> that \<open>parseValue\<close> would give.
\<close>

theorem boolean_option_not_coerced_counterexample:
  "outcome (parseArgs1 decimal safeValidate [''--verbose=yes''] (ZodObject verboseShape None))
     = Inr (Some [(''verbose'', VBoolean False)], [])
   \<and> map_option outcome
       (parseArgs2 decimal safeValidate False [''--verbose=yes''] (ZodObject verboseShape None))
     = Some (Inr (Some [(''verbose'', VBoolean False)], []))
   \<and> outcome (processArguments decimal safeValidate False [''--verbose=yes'']
         (ZodObject verboseShape None))
     = Inr (Some [(''verbose'', VBoolean False)], [])
   \<and> [(''verbose'', VBoolean False)]
     \<noteq> [(''verbose'', parseValue decimal ''yes'' ZodBoolean)]"
proof -
  have a: "outcome (parseArgs1 decimal safeValidate [''--verbose=yes''] (ZodObject verboseShape None))
     = Inr (Some [(''verbose'', VBoolean False)], [])"
    by code_simp
  have b: "map_option outcome
       (parseArgs2 decimal safeValidate False [''--verbose=yes''] (ZodObject verboseShape None))
     = Some (Inr (Some [(''verbose'', VBoolean False)], []))"
    by code_simp
  have c: "outcome (processArguments decimal safeValidate False [''--verbose=yes'']
         (ZodObject verboseShape None))
     = Inr (Some [(''verbose'', VBoolean False)], [])"
    by code_simp
  have d: "[(''verbose'', VBoolean False)]
     \<noteq> [(''verbose'', parseValue decimal ''yes'' ZodBoolean)]"
    by (simp add: parseValue_def)
  from a b c d show ?thesis by blast
qed


section \<open>C9: what follows a second equals sign\<close>

text \<open>The state a pass leaves after a scalar option at \<open>i\<close> that carries its value inline:
  the token is marked, the field holds the value, and \<open>i\<close> has moved by one.\<close>

definition afterInline :: "string \<Rightarrow> 'n jsValue \<Rightarrow> 'n scan \<Rightarrow> 'n scan" where
  "afterInline k v st = setIdx (idx st + 1) (assign k v (markProcessed (idx st) st))"

lemma inline_pass:
  assumes "splitInlineValue (args ! idx st) = (arg, Some b)" and "b \<noteq> []"
    and "startsWith (args ! idx st) ''--''"
    and "lookupKey tbl arg = Some k" and "map_of shape k = Some f"
    and "\<not> isBooleanKind (fieldType f)" and "\<not> isZodArray (fieldType f)"
  shows "iteration1 Number tbl shape args st
      = Continue (afterInline k (parseValue Number b (fieldType f)) st)"
    and "iteration2 Number tbl shape args st
      = Continue (afterInline k (parseValue Number b (fieldType f)) st)"
    and "iteration3 Number tbl shape args st
      = Continue (afterInline k (parseValue Number b (fieldType f)) st)"
proof -
  let ?v = "parseValue Number b (fieldType f)"
  have t: "typeOf shape k = fieldType f"
    using assms(5) by (simp add: typeOf_def)
  have po: "parseOption (args ! idx st) args (idx st) tbl shape st
      = (OptionSuccess k (fieldType f) (Some b) (idx st + 1), markProcessed (idx st) st)"
    using assms(1,2,4,5,6,7) by (simp add: parseOption_def)
  have st2: "setIdx (Suc (idx st)) (assign k ?v (setIdx (Suc (idx st)) (markProcessed (idx st) st)))
      = afterInline k ?v st"
    by (rule scan_eqI) (simp_all add: afterInline_def)
  show "iteration1 Number tbl shape args st = Continue (afterInline k ?v st)"
    using assms(1,2,3,4,6,7) t
    by (simp add: iteration1_def longOption1_def scalarOption1_def parseValueOpt_def afterInline_def)
  show "iteration2 Number tbl shape args st = Continue (afterInline k ?v st)"
    using assms(3,6,7) by (simp add: iteration2_def longOption2_def po parseValueOpt_def st2)
  show "iteration3 Number tbl shape args st = Continue (afterInline k ?v st)"
    using assms(3,6,7)
    by (simp add: iteration3_def processOptionValue_eq po parseValueOpt_def afterInline_def Let_def)
qed

lemma unknown_long_pass:
  assumes "splitInlineValue (args ! idx st) = (arg, inl)"
    and "startsWith (args ! idx st) ''--''" and "lookupKey tbl arg = None"
  shows "iteration1 Number tbl shape args st = ReturnNull (logError (''Unknown option: '' @ arg) st)"
    and "iteration2 Number tbl shape args st
      = ReturnNull (setHelp (logError (''Unknown option: '' @ arg) st))"
    and "iteration3 Number tbl shape args st
      = ReturnNull (setHelp (logError (''Unknown option: '' @ arg) st))"
proof -
  have po: "parseOption (args ! idx st) args (idx st) tbl shape st
      = (OptionFailure (idx st), setHelp (logError (''Unknown option: '' @ arg) st))"
    using assms(1,3) by (simp add: parseOption_def)
  show "iteration1 Number tbl shape args st = ReturnNull (logError (''Unknown option: '' @ arg) st)"
    using assms by (simp add: iteration1_def longOption1_def)
  show "iteration2 Number tbl shape args st
      = ReturnNull (setHelp (logError (''Unknown option: '' @ arg) st))"
    using assms(2) by (simp add: iteration2_def longOption2_def po)
  show "iteration3 Number tbl shape args st
      = ReturnNull (setHelp (logError (''Unknown option: '' @ arg) st))"
    using assms(2) by (simp add: iteration3_def processOptionValue_eq po Let_def)
qed

text \<open>A loop whose first pass moves \<open>i\<close> to the end of the tokens.\<close>

lemma scan1_one_pass:
  assumes "idx st < length args" and "iteration1 Number tbl shape args st = Continue s"
    and "length args \<le> idx s"
  shows "scan1 Number tbl shape args st = Continue s"
  using assms by (simp add: scan1.simps [of _ _ _ args st] scan1.simps [of _ _ _ args s])

lemma scan2_one_pass:
  assumes "idx st < length args" and "iteration2 Number tbl shape args st = Continue s"
    and "length args \<le> idx s"
  shows "scan2 Number tbl shape args st = Some (Continue s)"
  using assms by (simp add: scan2.simps [of _ _ _ args st] scan2.simps [of _ _ _ args s])

lemma scan3_one_pass:
  assumes "idx st < length args" and "iteration3 Number tbl shape args st = Continue s"
    and "length args \<le> idx s"
  shows "scan3 Number tbl shape args st = Continue s"
  using assms by (simp add: scan3.simps [of _ _ _ args st] scan3.simps [of _ _ _ args s])

lemma afterInline_fields [simp]:
  "idx (afterInline k v st) = idx st + 1"
  "parsedArgs (afterInline k v st) = AList.update k v (parsedArgs st)"
  "processedIndices (afterInline k v st) = insert (idx st) (processedIndices st)"
  "consoleError (afterInline k v st) = consoleError st"
  "shouldDisplayHelp (afterInline k v st) = shouldDisplayHelp st"
  by (simp_all add: afterInline_def)

text \<open>
  C9, as the code has it. A long option token (one that starts with \<open>--\<close>) with two or more
  \<open>=\<close> is destructured into exactly two parts: the text \<open>a\<close> before the first \<open>=\<close> is the
  option and the text \<open>b\<close> between the first and the second \<open>=\<close> is the inline value; what
  follows the second \<open>=\<close> is dropped without a trace. In each of the three resolvers, a pass
  that stands at the token \<open>a=b=c\<close> stores for a scalar field the coercion of \<open>b\<close> (if
  \<open>b\<close> is not empty), for a boolean field whether \<open>b\<close> is \<open>true\<close> or empty, and fails
  with \<open>Unknown option: a\<close> if the table does not know \<open>a\<close>; and a token list with
  \<open>a=b=c\<close> anywhere gives the very outcome of the list with \<open>a=b\<close> in its place (the same
  record or the same failure, the same lines on the error channel, the same final state).
\<close>

theorem text_after_second_equals_discarded:
  assumes "startsWith a ''--''" and "CHR ''='' \<notin> set a" and "CHR ''='' \<notin> set b"
  shows "splitInlineValue (a @ ''='' @ b @ ''='' @ c) = (a, Some b)
    \<and> (args ! idx st = a @ ''='' @ b @ ''='' @ c \<and> lookupKey tbl a = Some k
          \<and> map_of shape k = Some f \<and> \<not> isBooleanKind (fieldType f)
          \<and> \<not> isZodArray (fieldType f) \<and> b \<noteq> [] \<longrightarrow>
        iteration1 Number tbl shape args st
          = Continue (afterInline k (parseValue Number b (fieldType f)) st)
        \<and> iteration2 Number tbl shape args st
          = Continue (afterInline k (parseValue Number b (fieldType f)) st)
        \<and> iteration3 Number tbl shape args st
          = Continue (afterInline k (parseValue Number b (fieldType f)) st))
    \<and> (args ! idx st = a @ ''='' @ b @ ''='' @ c \<and> lookupKey tbl a = Some k
          \<and> map_of shape k = Some f \<and> isBooleanKind (fieldType f) \<longrightarrow>
        iteration1 Number tbl shape args st = Continue (afterBoolean k (b \<in> {[], ''true''}) st)
        \<and> iteration2 Number tbl shape args st = Continue (afterBoolean k (b \<in> {[], ''true''}) st)
        \<and> iteration3 Number tbl shape args st = Continue (afterBoolean k (b \<in> {[], ''true''}) st))
    \<and> (args ! idx st = a @ ''='' @ b @ ''='' @ c \<and> lookupKey tbl a = None \<longrightarrow>
        iteration1 Number tbl shape args st
          = ReturnNull (logError (''Unknown option: '' @ a) st)
        \<and> iteration2 Number tbl shape args st
          = ReturnNull (setHelp (logError (''Unknown option: '' @ a) st))
        \<and> iteration3 Number tbl shape args st
          = ReturnNull (setHelp (logError (''Unknown option: '' @ a) st)))
    \<and> (lookupKey (recognizedOptions1 shape) a = Some k \<and> map_of shape k = Some f
          \<and> \<not> isBooleanKind (fieldType f) \<and> \<not> isZodArray (fieldType f) \<and> b \<noteq> [] \<longrightarrow>
        parseArgs1 Number safeParse [a @ ''='' @ b @ ''='' @ c] (ZodObject shape d)
          = (case safeParse (ZodObject shape d) [(k, parseValue Number b (fieldType f))] of
               Inl issues \<Rightarrow>
                 Inr (None, displayValidationErrors1 issues
                   (afterInline k (parseValue Number b (fieldType f)) (initialScan False)))
             | Inr data \<Rightarrow>
                 Inr (Some data,
                   afterInline k (parseValue Number b (fieldType f)) (initialScan False))))
    \<and> (lookupKey (recognizedOptions2 shape) a = Some k \<and> map_of shape k = Some f
          \<and> \<not> isBooleanKind (fieldType f) \<and> \<not> isZodArray (fieldType f) \<and> b \<noteq> [] \<longrightarrow>
        parseArgs2 Number safeParse h [a @ ''='' @ b @ ''='' @ c] (ZodObject shape d)
          = (case safeParse (ZodObject shape d) [(k, parseValue Number b (fieldType f))] of
               Inl issues \<Rightarrow>
                 Some (Inr (None, setHelp (displayValidationErrors issues
                   (afterInline k (parseValue Number b (fieldType f)) (initialScan h)))))
             | Inr data \<Rightarrow>
                 Some (Inr (Some data,
                   afterInline k (parseValue Number b (fieldType f)) (initialScan h))))
        \<and> processArguments Number safeParse h [a @ ''='' @ b @ ''='' @ c] (ZodObject shape d)
          = (case safeParse (ZodObject shape d) [(k, parseValue Number b (fieldType f))] of
               Inl issues \<Rightarrow>
                 Inr (None, setHelp (displayValidationErrors issues
                   (afterInline k (parseValue Number b (fieldType f)) (initialScan h))))
             | Inr data \<Rightarrow>
                 Inr (Some data,
                   afterInline k (parseValue Number b (fieldType f)) (initialScan h))))
    \<and> parseArgs1 Number safeParse (pre @ (a @ ''='' @ b @ ''='' @ c) # post) sch
        = parseArgs1 Number safeParse (pre @ (a @ ''='' @ b) # post) sch
    \<and> parseArgs2 Number safeParse h (pre @ (a @ ''='' @ b @ ''='' @ c) # post) sch
        = parseArgs2 Number safeParse h (pre @ (a @ ''='' @ b) # post) sch
    \<and> processArguments Number safeParse h (pre @ (a @ ''='' @ b @ ''='' @ c) # post) sch
        = processArguments Number safeParse h (pre @ (a @ ''='' @ b) # post) sch"
proof -
  define x where "x = a @ ''='' @ b @ ''='' @ c"
  define y where "y = a @ ''='' @ b"
  define args where "args = pre @ x # post"
  define args' where "args' = pre @ y # post"
  have two: "splitInlineValue x = (a, Some b)"
    unfolding x_def using assms(2,3) by (rule splitInlineValue_two)
  have one: "splitInlineValue y = (a, Some b)"
    unfolding y_def using assms(2,3) by (rule splitInlineValue_one)
  have len: "length args' = length args"
    by (simp add: args_def args'_def)
  have others: "\<And>j. j \<noteq> length pre \<Longrightarrow> args' ! j = args ! j"
    unfolding args_def args'_def by (rule nth_other)
  have ati: "startsWith (args ! length pre) ''--''" "startsWith (args' ! length pre) ''--''"
    using assms(1) by (simp_all add: args_def args'_def x_def y_def startsWith_append)
  have sp: "splitInlineValue (args' ! length pre) = splitInlineValue (args ! length pre)"
    using one two by (simp add: args_def args'_def)
  have s1: "scan1 Number tbl shape args' st = scan1 Number tbl shape args st" for tbl shape st
    by (rule scan1_cong [OF len]) (rule iteration1_agree [OF len others ati sp])
  have s2: "scan2 Number tbl shape args' st = scan2 Number tbl shape args st" for tbl shape st
    by (rule scan2_cong [OF len]) (rule iteration2_agree [OF len others ati sp])
  have s3: "scan3 Number tbl shape args' st = scan3 Number tbl shape args st" for tbl shape st
    by (rule scan3_cong [OF len]) (rule iteration3_agree [OF len others ati sp])
  have u: "unprocessedArgs args' (processedIndices s) = unprocessedArgs args (processedIndices s)"
    if "scan1 Number tbl shape args (initialScan False) = Continue s" for tbl shape s
  proof -
    have "\<forall>j. j < length args \<and> startsWith (args ! j) ''--'' \<longrightarrow> j \<in> processedIndices s"
      by (rule scan1_marks [OF that]) (simp add: initialScan_def)
    with ati(1) have "length pre \<in> processedIndices s"
      by (simp add: args_def)
    then show ?thesis
      unfolding args_def args'_def by (rule unprocessedArgs_agree)
  qed
  have p1: "parseArgs1 Number safeParse args' sch = parseArgs1 Number safeParse args sch"
  proof (cases "unwrapSchema1 sch")
    case (Inl e)
    then show ?thesis by (simp add: parseArgs1_def)
  next
    case (Inr sd)
    obtain shape d where sd: "sd = (shape, d)" by (cases sd)
    show ?thesis
    proof (cases "scan1 Number (recognizedOptions1 shape) shape args (initialScan False)")
      case (ReturnNull s)
      with Inr sd show ?thesis by (simp add: parseArgs1_def s1)
    next
      case (Continue s)
      with Inr sd u [OF Continue] show ?thesis by (simp add: parseArgs1_def s1)
    qed
  qed
  have p2: "parseArgs2 Number safeParse h args' sch = parseArgs2 Number safeParse h args sch"
    by (simp add: parseArgs2_def s2 split: sum.splits prod.splits)
  have p3: "processArguments Number safeParse h args' sch
      = processArguments Number safeParse h args sch"
    by (simp add: processArguments_def s3 split: sum.splits prod.splits)
  have eqs: "parseArgs1 Number safeParse (pre @ (a @ ''='' @ b @ ''='' @ c) # post) sch
        = parseArgs1 Number safeParse (pre @ (a @ ''='' @ b) # post) sch
    \<and> parseArgs2 Number safeParse h (pre @ (a @ ''='' @ b @ ''='' @ c) # post) sch
        = parseArgs2 Number safeParse h (pre @ (a @ ''='' @ b) # post) sch
    \<and> processArguments Number safeParse h (pre @ (a @ ''='' @ b @ ''='' @ c) # post) sch
        = processArguments Number safeParse h (pre @ (a @ ''='' @ b) # post) sch"
    using p1 p2 p3 unfolding args_def args'_def x_def y_def by simp
  have sp2: "splitInlineValue (a @ ''='' @ b @ ''='' @ c) = (a, Some b)"
    using two by (simp add: x_def)
  have scalar: "iteration1 Number tbl shape args st
          = Continue (afterInline k (parseValue Number b (fieldType f)) st)
        \<and> iteration2 Number tbl shape args st
          = Continue (afterInline k (parseValue Number b (fieldType f)) st)
        \<and> iteration3 Number tbl shape args st
          = Continue (afterInline k (parseValue Number b (fieldType f)) st)"
    if t: "args ! idx st = a @ ''='' @ b @ ''='' @ c" and k: "lookupKey tbl a = Some k"
      and f: "map_of shape k = Some f" "\<not> isBooleanKind (fieldType f)"
        "\<not> isZodArray (fieldType f)" and b: "b \<noteq> []"
    for args :: "string list" and st :: "'a scan" and tbl shape k f
  proof -
    have sp: "splitInlineValue (args ! idx st) = (a, Some b)"
      using sp2 t by simp
    have long: "startsWith (args ! idx st) ''--''"
      unfolding t using assms(1) by (rule startsWith_append)
    from inline_pass [OF sp b long k f] show ?thesis
      by simp
  qed
  have boolean: "iteration1 Number tbl shape args st = Continue (afterBoolean k (b \<in> {[], ''true''}) st)
        \<and> iteration2 Number tbl shape args st = Continue (afterBoolean k (b \<in> {[], ''true''}) st)
        \<and> iteration3 Number tbl shape args st = Continue (afterBoolean k (b \<in> {[], ''true''}) st)"
    if t: "args ! idx st = a @ ''='' @ b @ ''='' @ c" and k: "lookupKey tbl a = Some k"
      and f: "map_of shape k = Some f" "isBooleanKind (fieldType f)"
    for args :: "string list" and st :: "'a scan" and tbl shape k f
  proof -
    have sp: "splitInlineValue (args ! idx st) = (a, Some b)"
      using sp2 t by simp
    have long: "startsWith (args ! idx st) ''--''"
      unfolding t using assms(1) by (rule startsWith_append)
    then have cl: "startsWith (args ! idx st) ''--''
          \<or> startsWith (args ! idx st) ''-'' \<and> length (args ! idx st) \<le> 2"
      by simp
    have v: "(if truthy (Some b) then Some b = Some ''true'' else True) = (b \<in> {[], ''true''})"
      by auto
    from boolean_pass(1,2) [OF sp cl k f] boolean_pass(3) [OF sp cl k f long]
    show ?thesis
      unfolding v by simp
  qed
  have unknown: "iteration1 Number tbl shape args st
          = ReturnNull (logError (''Unknown option: '' @ a) st)
        \<and> iteration2 Number tbl shape args st
          = ReturnNull (setHelp (logError (''Unknown option: '' @ a) st))
        \<and> iteration3 Number tbl shape args st
          = ReturnNull (setHelp (logError (''Unknown option: '' @ a) st))"
    if t: "args ! idx st = a @ ''='' @ b @ ''='' @ c" and k: "lookupKey tbl a = None"
    for args :: "string list" and st :: "'a scan" and tbl shape
  proof -
    have sp: "splitInlineValue (args ! idx st) = (a, Some b)"
      using sp2 t by simp
    have long: "startsWith (args ! idx st) ''--''"
      unfolding t using assms(1) by (rule startsWith_append)
    from unknown_long_pass [OF sp long k] show ?thesis
      by simp
  qed
  have r1: "parseArgs1 Number safeParse [x] (ZodObject shape d)
          = (case safeParse (ZodObject shape d) [(k, parseValue Number b (fieldType f))] of
               Inl issues \<Rightarrow>
                 Inr (None, displayValidationErrors1 issues
                   (afterInline k (parseValue Number b (fieldType f)) (initialScan False)))
             | Inr data \<Rightarrow>
                 Inr (Some data,
                   afterInline k (parseValue Number b (fieldType f)) (initialScan False)))"
    if k: "lookupKey (recognizedOptions1 shape) a = Some k"
      and f: "map_of shape k = Some f" "\<not> isBooleanKind (fieldType f)"
        "\<not> isZodArray (fieldType f)" and b: "b \<noteq> []"
  proof -
    let ?s = "afterInline k (parseValue Number b (fieldType f)) (initialScan False) :: 'a scan"
    have "iteration1 Number (recognizedOptions1 shape) shape [x] (initialScan False) = Continue ?s"
      using scalar [of "[x]" "initialScan False", OF _ k f b] by (simp add: x_def)
    then have sc: "scan1 Number (recognizedOptions1 shape) shape [x] (initialScan False) = Continue ?s"
      by (rule scan1_one_pass [rotated]) simp_all
    have u: "unprocessedArgs [x] {0} = []"
      by (simp add: unprocessedArgs_def)
    show ?thesis
      by (simp add: parseArgs1_def sc u)
  qed
  have r2: "parseArgs2 Number safeParse h [x] (ZodObject shape d)
          = (case safeParse (ZodObject shape d) [(k, parseValue Number b (fieldType f))] of
               Inl issues \<Rightarrow>
                 Some (Inr (None, setHelp (displayValidationErrors issues
                   (afterInline k (parseValue Number b (fieldType f)) (initialScan h)))))
             | Inr data \<Rightarrow>
                 Some (Inr (Some data,
                   afterInline k (parseValue Number b (fieldType f)) (initialScan h))))
        \<and> processArguments Number safeParse h [x] (ZodObject shape d)
          = (case safeParse (ZodObject shape d) [(k, parseValue Number b (fieldType f))] of
               Inl issues \<Rightarrow>
                 Inr (None, setHelp (displayValidationErrors issues
                   (afterInline k (parseValue Number b (fieldType f)) (initialScan h))))
             | Inr data \<Rightarrow>
                 Inr (Some data,
                   afterInline k (parseValue Number b (fieldType f)) (initialScan h)))"
    if k: "lookupKey (recognizedOptions2 shape) a = Some k"
      and f: "map_of shape k = Some f" "\<not> isBooleanKind (fieldType f)"
        "\<not> isZodArray (fieldType f)" and b: "b \<noteq> []"
  proof -
    let ?s = "afterInline k (parseValue Number b (fieldType f)) (initialScan h) :: 'a scan"
    have "iteration2 Number (recognizedOptions2 shape) shape [x] (initialScan h) = Continue ?s"
      using scalar [of "[x]" "initialScan h", OF _ k f b] by (simp add: x_def)
    then have sc2: "scan2 Number (recognizedOptions2 shape) shape [x] (initialScan h)
        = Some (Continue ?s)"
      by (rule scan2_one_pass [rotated]) simp_all
    have "iteration3 Number (recognizedOptions2 shape) shape [x] (initialScan h) = Continue ?s"
      using scalar [of "[x]" "initialScan h", OF _ k f b] by (simp add: x_def)
    then have sc3: "scan3 Number (optionAliasMap shape) shape [x] (initialScan h) = Continue ?s"
      unfolding optionAliasMap_eq by (rule scan3_one_pass [rotated]) simp_all
    show ?thesis
      by (simp add: parseArgs2_def processArguments_def sc2 sc3)
  qed
  from sp2 scalar boolean unknown r1 r2 eqs show ?thesis
    unfolding x_def by blast
qed

theorem text_after_second_equals_discarded_witness:
  "splitInlineValue ''--name=a=b'' = (''--name'', Some ''a'')
   \<and> iteration1 decimal (recognizedOptions1 nameAgeShape) nameAgeShape [''--name=a=b'']
         (initialScan False)
       = Continue (afterInline ''name'' (VString ''a'') (initialScan False))
   \<and> iteration2 decimal (recognizedOptions2 nameAgeShape) nameAgeShape [''--name=a=b'']
         (initialScan False)
       = Continue (afterInline ''name'' (VString ''a'') (initialScan False))
   \<and> iteration3 decimal (optionAliasMap nameAgeShape) nameAgeShape [''--name=a=b'']
         (initialScan False)
       = Continue (afterInline ''name'' (VString ''a'') (initialScan False))
   \<and> iteration2 decimal (recognizedOptions2 nameAgeShape) nameAgeShape [''--verbose=no=true'']
         (initialScan False)
       = Continue (afterBoolean ''verbose'' False (initialScan False))
   \<and> iteration2 decimal (recognizedOptions2 nameAgeShape) nameAgeShape [''--nom=a=b'']
         (initialScan False)
       = ReturnNull (setHelp (logError ''Unknown option: --nom'' (initialScan False)))
   \<and> parseArgs1 decimal safeValidate [''--name=a=b''] (ZodObject nameShape None)
       = parseArgs1 decimal safeValidate [''--name=a''] (ZodObject nameShape None)
   \<and> parseArgs2 decimal safeValidate False [''--name=a=b''] (ZodObject nameShape None)
       = parseArgs2 decimal safeValidate False [''--name=a''] (ZodObject nameShape None)
   \<and> processArguments decimal safeValidate False [''--name=a=b''] (ZodObject nameShape None)
       = processArguments decimal safeValidate False [''--name=a''] (ZodObject nameShape None)
   \<and> parseArgs1 decimal safeValidate [''--name=a=b''] (ZodObject nameShape None)
       = Inr (Some [(''name'', VString ''a'')],
              afterInline ''name'' (VString ''a'') (initialScan False))
   \<and> parseArgs2 decimal safeValidate False [''--name=a=b''] (ZodObject nameShape None)
       = Some (Inr (Some [(''name'', VString ''a'')],
              afterInline ''name'' (VString ''a'') (initialScan False)))
   \<and> processArguments decimal safeValidate False [''--name=a=b''] (ZodObject nameShape None)
       = Inr (Some [(''name'', VString ''a'')],
              afterInline ''name'' (VString ''a'') (initialScan False))"
proof -
  let ?st = "initialScan False :: nat scan"
  let ?f = "declared ZodString [''n'', ''fullname'']"
  let ?g = "declared (ZodOptional ZodBoolean) [''v'']"
  have i: "idx ?st = 0"
    by (simp add: initialScan_def)
  have h: "startsWith ''--name'' ''--''" "CHR ''='' \<notin> set ''--name''" "CHR ''='' \<notin> set ''a''"
    by (simp_all add: startsWith_def)
  have hv: "startsWith ''--verbose'' ''--''" "CHR ''='' \<notin> set ''--verbose''"
    "CHR ''='' \<notin> set ''no''"
    by (simp_all add: startsWith_def)
  have hn: "startsWith ''--nom'' ''--''" "CHR ''='' \<notin> set ''--nom''"
    by (simp_all add: startsWith_def)
  have k: "lookupKey (recognizedOptions1 nameAgeShape) ''--name'' = Some ''name''"
    "lookupKey (recognizedOptions2 nameAgeShape) ''--name'' = Some ''name''"
    "lookupKey (optionAliasMap nameAgeShape) ''--name'' = Some ''name''"
    "lookupKey (recognizedOptions2 nameAgeShape) ''--verbose'' = Some ''verbose''"
    "lookupKey (recognizedOptions2 nameAgeShape) ''--nom'' = None"
    by code_simp+
  have f: "map_of nameAgeShape ''name'' = Some ?f" "\<not> isBooleanKind (fieldType ?f)"
    "\<not> isZodArray (fieldType ?f)" "fieldType ?f = ZodString"
    "map_of nameAgeShape ''verbose'' = Some ?g" "isBooleanKind (fieldType ?g)"
    by (simp_all add: nameAgeShape_def declared_def)
  have pv: "parseValue decimal ''a'' ZodString = VString ''a''"
    by (simp add: parseValue_def)
  have kn: "lookupKey (recognizedOptions1 nameShape) ''--name'' = Some ''name''"
    "lookupKey (recognizedOptions2 nameShape) ''--name'' = Some ''name''"
    by code_simp+
  have fn: "map_of nameShape ''name'' = Some ?f"
    by (simp add: nameShape_def)
  have ok: "safeValidate (ZodObject nameShape None) [(''name'', VString ''a'')]
      = Inr [(''name'', VString ''a'')]"
    by (simp add: nameShape_def fieldIssues_def declared_def)
  note t = text_after_second_equals_discarded
  from t [OF h, where c = "''b''" and args = "[''--name=a=b'']" and st = ?st
      and tbl = "recognizedOptions1 nameAgeShape" and shape = nameAgeShape and k = "''name''"
      and f = ?f and Number = decimal] k(1) f(1-4) pv
  have one: "iteration1 decimal (recognizedOptions1 nameAgeShape) nameAgeShape [''--name=a=b''] ?st
       = Continue (afterInline ''name'' (VString ''a'') ?st)"
    by (simp add: i)
  from t [OF h, where c = "''b''" and args = "[''--name=a=b'']" and st = ?st
      and tbl = "recognizedOptions2 nameAgeShape" and shape = nameAgeShape and k = "''name''"
      and f = ?f and Number = decimal] k(2) f(1-4) pv
  have two: "iteration2 decimal (recognizedOptions2 nameAgeShape) nameAgeShape [''--name=a=b''] ?st
       = Continue (afterInline ''name'' (VString ''a'') ?st)"
    by (simp add: i)
  from t [OF h, where c = "''b''" and args = "[''--name=a=b'']" and st = ?st
      and tbl = "optionAliasMap nameAgeShape" and shape = nameAgeShape and k = "''name''"
      and f = ?f and Number = decimal] k(3) f(1-4) pv
  have three: "iteration3 decimal (optionAliasMap nameAgeShape) nameAgeShape [''--name=a=b''] ?st
       = Continue (afterInline ''name'' (VString ''a'') ?st)"
    by (simp add: i)
  from t [OF hv, where c = "''true''" and args = "[''--verbose=no=true'']" and st = ?st
      and tbl = "recognizedOptions2 nameAgeShape" and shape = nameAgeShape and k = "''verbose''"
      and f = ?g and Number = decimal] k(4) f(5,6)
  have four: "iteration2 decimal (recognizedOptions2 nameAgeShape) nameAgeShape
        [''--verbose=no=true''] ?st
       = Continue (afterBoolean ''verbose'' False ?st)"
    by (simp add: i)
  from t [OF hn h(3), where c = "''b''" and args = "[''--nom=a=b'']" and st = ?st
      and tbl = "recognizedOptions2 nameAgeShape" and shape = nameAgeShape
      and Number = decimal] k(5)
  have five: "iteration2 decimal (recognizedOptions2 nameAgeShape) nameAgeShape [''--nom=a=b''] ?st
       = ReturnNull (setHelp (logError ''Unknown option: --nom'' ?st))"
    by (simp add: i)
  from t [OF h, where c = "''b''" and Number = decimal and safeParse = safeValidate
      and pre = "[]" and post = "[]" and sch = "ZodObject nameShape None" and h = False]
  have six: "splitInlineValue ''--name=a=b'' = (''--name'', Some ''a'')"
    "parseArgs1 decimal safeValidate [''--name=a=b''] (ZodObject nameShape None)
       = parseArgs1 decimal safeValidate [''--name=a''] (ZodObject nameShape None)"
    "parseArgs2 decimal safeValidate False [''--name=a=b''] (ZodObject nameShape None)
       = parseArgs2 decimal safeValidate False [''--name=a''] (ZodObject nameShape None)"
    "processArguments decimal safeValidate False [''--name=a=b''] (ZodObject nameShape None)
       = processArguments decimal safeValidate False [''--name=a''] (ZodObject nameShape None)"
    by simp_all
  from t [OF h, where c = "''b''" and Number = decimal and safeParse = safeValidate
      and shape = nameShape and k = "''name''" and f = ?f and d = None and h = False]
    kn fn f(2-4) pv ok
  have seven: "parseArgs1 decimal safeValidate [''--name=a=b''] (ZodObject nameShape None)
       = Inr (Some [(''name'', VString ''a'')],
              afterInline ''name'' (VString ''a'') (initialScan False))"
    "parseArgs2 decimal safeValidate False [''--name=a=b''] (ZodObject nameShape None)
       = Some (Inr (Some [(''name'', VString ''a'')],
              afterInline ''name'' (VString ''a'') (initialScan False)))"
    "processArguments decimal safeValidate False [''--name=a=b''] (ZodObject nameShape None)
       = Inr (Some [(''name'', VString ''a'')],
              afterInline ''name'' (VString ''a'') (initialScan False))"
    by simp_all
  from one two three four five six seven show ?thesis
    by blast
qed

text \<open>
  C9 speaks of every option token. A token with a single dash is never destructured: with
  more than two characters it is read as combined short flags, so \<open>-n=a=b\<close> asks for the
  value of \<open>-n\<close> in the next token and stores no \<open>a\<close>, where \<open>--name=a=b\<close> stores it.
\<close>

theorem single_dash_token_not_destructured_counterexample:
  "outcome (parseArgs1 decimal safeValidate [''-n=a=b''] (ZodObject nameShape None))
     = Inr (None, [''Option -n requires a value''])
   \<and> map_option outcome
       (parseArgs2 decimal safeValidate False [''-n=a=b''] (ZodObject nameShape None))
     = Some (Inr (None, [''Option -n requires a value'']))
   \<and> map_sum id fst (processArguments decimal safeValidate False [''-n=a=b'']
         (ZodObject nameShape None))
     = Inr None"
proof -
  have a: "outcome (parseArgs1 decimal safeValidate [''-n=a=b''] (ZodObject nameShape None))
     = Inr (None, [''Option -n requires a value''])"
    by code_simp
  have b: "map_option outcome
       (parseArgs2 decimal safeValidate False [''-n=a=b''] (ZodObject nameShape None))
     = Some (Inr (None, [''Option -n requires a value'']))"
    by code_simp
  have c: "map_sum id fst (processArguments decimal safeValidate False [''-n=a=b'']
         (ZodObject nameShape None))
     = Inr None"
    by code_simp
  from a b c show ?thesis by blast
qed


section \<open>C10: a token that starts with a dash is never a value\<close>

text \<open>The state a pass leaves after an array option at \<open>i\<close> that took the tokens \<open>vs\<close>: the
  option and the tokens are marked, the field holds them, and \<open>i\<close> stands behind them.\<close>

definition afterArray :: "string \<Rightarrow> string list \<Rightarrow> 'n scan \<Rightarrow> 'n scan" where
  "afterArray k vs st =
     (assign k (VArray vs) st)
       \<lparr>idx := idx st + 1 + length vs,
        processedIndices := processedIndices st \<union> {idx st ..< idx st + 1 + length vs}\<rparr>"

lemma consumeArrayValues_state:
  "consumeArrayValues args vals st =
     (vals @ takeWhile (\<lambda>t. \<not> startsWith t ''-'') (drop (idx st) args),
      st\<lparr>idx := idx st + length (takeWhile (\<lambda>t. \<not> startsWith t ''-'') (drop (idx st) args)),
         processedIndices := processedIndices st
           \<union> {idx st ..< idx st + length (takeWhile (\<lambda>t. \<not> startsWith t ''-'') (drop (idx st) args))}\<rparr>)"
proof (induction args vals st rule: consumeArrayValues.induct)
  case (1 args vals st)
  let ?nd = "\<lambda>t. \<not> startsWith t ''-''"
  show ?case
  proof (cases "idx st < length args \<and> \<not> startsWith (args ! idx st) ''-''")
    case True
    let ?st' = "setIdx (idx st + 1) (markProcessed (idx st) st)"
    from True have d: "drop (idx st) args = args ! idx st # drop (Suc (idx st)) args"
      by (simp add: Cons_nth_drop_Suc)
    have tw: "takeWhile ?nd (drop (idx st) args) = args ! idx st # takeWhile ?nd (drop (Suc (idx st)) args)"
      using True by (simp add: d)
    have s: "{idx st ..< Suc (idx st + n)} = insert (idx st) {Suc (idx st) ..< Suc (idx st + n)}" for n
      by auto
    have "consumeArrayValues args vals st = consumeArrayValues args (vals @ [args ! idx st]) ?st'"
      using True by (simp add: consumeArrayValues.simps [of args vals st])
    also note "1.IH" [OF True]
    finally show ?thesis
      by (simp add: tw s setIdx_def markProcessed_def)
  next
    case False
    have "takeWhile ?nd (drop (idx st) args) = []"
    proof (cases "idx st < length args")
      case True
      with False have "startsWith (args ! idx st) ''-''" by simp
      moreover from True have "drop (idx st) args = args ! idx st # drop (Suc (idx st)) args"
        by (simp add: Cons_nth_drop_Suc)
      ultimately show ?thesis by simp
    next
      case False
      then show ?thesis by simp
    qed
    with False show ?thesis
      by (auto simp: consumeArrayValues.simps [of args vals st])
  qed
qed

lemma takeWhile_segment:
  assumes "list_all P vs" and "rest = [] \<or> \<not> P (hd rest)"
  shows "takeWhile P (vs @ rest) = vs"
  using assms by (cases rest) (auto simp: list_all_iff takeWhile_append)

lemma array_pass:
  assumes args: "args = pre @ tok # vs @ rest" and i: "idx st = length pre"
    and vs: "list_all (\<lambda>t. \<not> startsWith t ''-'') vs"
    and rest: "rest = [] \<or> startsWith (hd rest) ''-''"
    and long: "startsWith tok ''--''" and sp: "splitInlineValue tok = (arg, inl)"
    and k: "lookupKey tbl arg = Some k" and f: "map_of shape k = Some f"
    and a: "isZodArray (fieldType f)"
  shows "iteration1 Number tbl shape args st = Continue (afterArray k vs st)"
    and "iteration2 Number tbl shape args st = Continue (afterArray k vs st)"
    and "iteration3 Number tbl shape args st = Continue (afterArray k [] st)"
proof -
  let ?nd = "\<lambda>t. \<not> startsWith t ''-''"
  have tok: "args ! idx st = tok"
    by (simp add: args i)
  have nb: "\<not> isBooleanKind (fieldType f)"
    using a by (rule array_not_boolean)
  have t: "typeOf shape k = fieldType f"
    using f by (simp add: typeOf_def)
  have dr: "drop (Suc (idx st)) args = vs @ rest"
    by (simp add: args i)
  have tw: "takeWhile ?nd (drop (Suc (idx st)) args) = vs"
    unfolding dr using vs rest by (intro takeWhile_segment) auto
  have c: "consumeArrayValues args [] (setIdx (Suc (idx st)) s)
      = (vs, s\<lparr>idx := Suc (idx st) + length vs,
                processedIndices := processedIndices s
                  \<union> {Suc (idx st) ..< Suc (idx st) + length vs}\<rparr>)" for s :: "'a scan"
    by (simp add: consumeArrayValues_state tw setIdx_def)
  have s: "insert (idx st) (processedIndices st) \<union> {Suc (idx st) ..< Suc (idx st + length vs)}
      = processedIndices st \<union> {idx st ..< Suc (idx st + length vs)}"
    "insert (idx st) (processedIndices st \<union> {Suc (idx st) ..< Suc (idx st + length vs)})
      = processedIndices st \<union> {idx st ..< Suc (idx st + length vs)}"
    by auto
  have po: "parseOption tok args (idx st) tbl shape st
      = (OptionSuccess k (fieldType f) None (idx st), markProcessed (idx st) st)"
    using sp k f a nb by (simp add: parseOption_def)
  have "longOption1 Number tbl shape args st = Continue (afterArray k vs st)"
    using sp k a nb t
    by (simp add: longOption1_def tok c afterArray_def assign_def markProcessed_def s)
  then show "iteration1 Number tbl shape args st = Continue (afterArray k vs st)"
    using long by (simp add: iteration1_def tok)
  have c': "consumeArrayValues args [] (s\<lparr>idx := Suc (idx st)\<rparr>)
      = (vs, s\<lparr>idx := Suc (idx st) + length vs,
                processedIndices := processedIndices s
                  \<union> {Suc (idx st) ..< Suc (idx st) + length vs}\<rparr>)" for s :: "'a scan"
    by (simp add: consumeArrayValues_state tw)
  have "longOption2 Number tbl shape args st = Continue (afterArray k vs st)"
    using a nb
    by (simp add: longOption2_def tok po c' afterArray_def assign_def markProcessed_def
          setIdx_def s)
  then show "iteration2 Number tbl shape args st = Continue (afterArray k vs st)"
    using long by (simp add: iteration2_def tok)
  have "startsWith (args ! idx st) ''-''"
    using long tok by (simp add: startsWith_dash)
  then have pa: "processArrayArgs args (idx st) = []"
    by (simp add: processArrayArgs_def processArrayArgsFrom.simps [of args "idx st"])
  show "iteration3 Number tbl shape args st = Continue (afterArray k [] st)"
    using long a nb
    by (simp add: iteration3_def processOptionValue_eq tok po pa Let_def afterArray_def assign_def
          markProcessed_def setIdx_def)
qed

text \<open>The loop over combined short flags goes through a first part of the flags and then
  through the rest.\<close>

lemma combinedFlags1_append:
  "combinedFlags1 Number tbl shape args (xs @ ys) st =
     (case combinedFlags1 Number tbl shape args xs st of
        ReturnNull s \<Rightarrow> ReturnNull s
      | Continue s \<Rightarrow> combinedFlags1 Number tbl shape args ys s)"
  by (induction xs arbitrary: st) (simp_all add: Let_def split: option.splits)

lemma combinedFlags2_append:
  "combinedFlags2 Number tbl shape args (xs @ ys) st =
     (case combinedFlags2 Number tbl shape args xs st of
        ReturnNull s \<Rightarrow> ReturnNull s
      | Continue s \<Rightarrow> combinedFlags2 Number tbl shape args ys s)"
  by (induction xs arbitrary: st)
     (simp_all add: Let_def split: prod.splits parseOptionResult.splits)


text \<open>A scalar option that has to take its value from the next token.\<close>

lemma scalar_needs_value:
  assumes tok: "args ! idx st = tok"
    and cls: "startsWith tok ''--'' \<or> startsWith tok ''-'' \<and> length tok \<le> 2"
    and sp: "splitInlineValue tok = (arg, inl)" and inl: "\<not> truthy inl"
    and k: "lookupKey tbl arg = Some k" and f: "map_of shape k = Some f"
    and nb: "\<not> isBooleanKind (fieldType f)" and na: "\<not> isZodArray (fieldType f)"
    and nxt: "idx st + 1 < length args" "startsWith (args ! (idx st + 1)) ''-''"
  shows "iteration1 Number tbl shape args st
      = ReturnNull (logError (''Option '' @ arg @ '' requires a value'') (markProcessed (idx st) st))"
    and "iteration2 Number tbl shape args st
      = ReturnNull (setHelp (logError (''Option '' @ arg @ '' requires a value'')
          (markProcessed (idx st) st)))"
    and "startsWith tok ''--'' \<Longrightarrow> iteration3 Number tbl shape args st
      = ReturnNull (setHelp (logError (''Option '' @ arg @ '' requires a value'')
          (markProcessed (idx st) st)))"
proof -
  let ?msg = "''Option '' @ arg @ '' requires a value''"
  let ?st1 = "markProcessed (idx st) st"
  have t: "typeOf shape k = fieldType f"
    using f by (simp add: typeOf_def)
  have sc: "scalarOption1 Number args arg inl k (fieldType f) ?st1 = ReturnNull (logError ?msg ?st1)"
    using inl nxt by (simp add: scalarOption1_def at_def)
  show "iteration1 Number tbl shape args st = ReturnNull (logError ?msg ?st1)"
  proof (cases "startsWith tok ''--''")
    case True
    then show ?thesis
      using sp k nb na t sc by (simp add: iteration1_def longOption1_def tok)
  next
    case False
    with cls have "startsWith tok ''-''" "length tok \<le> 2" by simp_all
    with False show ?thesis
      using sp k nb t sc by (simp add: iteration1_def shortOption1_def tok)
  qed
  have po: "parseOption tok args (idx st) tbl shape st
      = (OptionFailure (idx st), setHelp (logError ?msg ?st1))"
    using sp inl k f nb na nxt by (simp add: parseOption_def)
  show "iteration2 Number tbl shape args st = ReturnNull (setHelp (logError ?msg ?st1))"
  proof (cases "startsWith tok ''--''")
    case True
    then show ?thesis
      using po by (simp add: iteration2_def longOption2_def tok)
  next
    case False
    with cls have "startsWith tok ''-''" "length tok \<le> 2" by simp_all
    with False show ?thesis
      using po by (simp add: iteration2_def shortOption2_def tok)
  qed
  show "iteration3 Number tbl shape args st = ReturnNull (setHelp (logError ?msg ?st1))"
    if "startsWith tok ''--''"
    using that po by (simp add: iteration3_def processOptionValue_eq tok Let_def)
qed

text \<open>A flag inside combined short flags that is not boolean and has to take its value from
  the next token; \<open>xs\<close> are the flags before it.\<close>

lemma combined_needs_value1:
  assumes tok: "args ! idx st = CHR ''-'' # xs @ c # ys"
    and two: "xs \<noteq> [] \<or> ys \<noteq> []" and first: "hd (xs @ [c]) \<noteq> CHR ''-''"
    and pre: "combinedFlags1 Number tbl shape args xs st = Continue s"
    and k: "lookupKey tbl [CHR ''-'', c] = Some k" and nb: "\<not> isBooleanKind (typeOf shape k)"
    and nxt: "idx s + 1 < length args" "startsWith (args ! (idx s + 1)) ''-''"
  shows "iteration1 Number tbl shape args st
      = ReturnNull (logError (''Option '' @ [CHR ''-'', c] @ '' requires a value'') s)"
proof -
  have cls: "\<not> startsWith (CHR ''-'' # xs @ c # ys) ''--''" "startsWith (CHR ''-'' # xs @ c # ys) ''-''"
    "length (CHR ''-'' # xs @ c # ys) > 2"
    using two first by (cases xs; simp add: startsWith_def)+
  have step: "combinedFlags1 Number tbl shape args (c # ys) s
      = ReturnNull (logError (''Option '' @ [CHR ''-'', c] @ '' requires a value'') s)"
    using k nb nxt by (simp add: at_def)
  have "combinedFlags1 Number tbl shape args (xs @ c # ys) st
      = ReturnNull (logError (''Option '' @ [CHR ''-'', c] @ '' requires a value'') s)"
    unfolding combinedFlags1_append pre using step by simp
  then show ?thesis
    using cls by (simp add: iteration1_def tok)
qed

lemma combined_needs_value2:
  assumes tok: "args ! idx st = CHR ''-'' # xs @ c # ys"
    and two: "xs \<noteq> [] \<or> ys \<noteq> []" and first: "hd (xs @ [c]) \<noteq> CHR ''-''"
    and pre: "combinedFlags2 Number tbl shape args xs
        (setIdx (idx st + 1) (markProcessed (idx st) st)) = Continue s"
    and c: "c \<noteq> CHR ''=''"
    and k: "lookupKey tbl [CHR ''-'', c] = Some k" and f: "map_of shape k = Some f"
    and nb: "\<not> isBooleanKind (fieldType f)"
    and nxt: "idx s < length args" "startsWith (args ! idx s) ''-''"
  shows "iteration2 Number tbl shape args st
      = ReturnNull (setHelp (logError (''Option '' @ [CHR ''-'', c] @ '' requires a value'')
          (markProcessed (idx s - 1) s)))"
proof -
  let ?msg = "''Option '' @ [CHR ''-'', c] @ '' requires a value''"
  have cls: "\<not> startsWith (CHR ''-'' # xs @ c # ys) ''--''" "startsWith (CHR ''-'' # xs @ c # ys) ''-''"
    "length (CHR ''-'' # xs @ c # ys) > 2"
    using two first by (cases xs; simp add: startsWith_def)+
  have sp: "splitInlineValue [CHR ''-'', c] = ([CHR ''-'', c], None)"
    using c by (rule short_flag_token(2))
  have pos: "0 < idx s"
    using combinedFlags2_idx [OF pre] by simp
  then have i: "idx s - 1 + 1 = idx s"
    by simp
  have step: "combinedFlags2 Number tbl shape args (c # ys) s
      = ReturnNull (setHelp (logError ?msg (markProcessed (idx s - 1) s)))"
  proof (cases "isZodArray (fieldType f)")
    case True
    have "parseOption [CHR ''-'', c] args (idx s - 1) tbl shape s
        = (OptionSuccess k (fieldType f) None (idx s - 1), markProcessed (idx s - 1) s)"
      using sp k f nb True by (simp add: parseOption_def del: One_nat_def)
    then show ?thesis
      using nb nxt by (simp del: One_nat_def)
  next
    case False
    have "parseOption [CHR ''-'', c] args (idx s - 1) tbl shape s
        = (OptionFailure (idx s - 1), setHelp (logError ?msg (markProcessed (idx s - 1) s)))"
      using sp k f nb False nxt i by (simp add: parseOption_def del: One_nat_def)
    then show ?thesis
      by (simp del: One_nat_def)
  qed
  have "combinedFlags2 Number tbl shape args (xs @ c # ys)
        (setIdx (idx st + 1) (markProcessed (idx st) st))
      = ReturnNull (setHelp (logError ?msg (markProcessed (idx s - 1) s)))"
    unfolding combinedFlags2_append pre using step by simp
  then show ?thesis
    using cls by (simp add: iteration2_def tok)
qed


text \<open>
  C10. A token that begins with \<open>-\<close> counts as a flag whatever follows the dash (a negative
  number such as \<open>-5\<close> too), and no resolver takes it as a value.

  Where a scan stands at a long or a single short option of a scalar field (neither boolean
  nor array) that has no inline value, and the next token begins with \<open>-\<close>, the resolver
  logs \<open>Option <token> requires a value\<close> (the token as the alias table knows it) and returns
  \<open>null\<close>: both copies of zli.ts, and index.ts for a long option. The same holds for a flag
  inside combined short flags that is not boolean, in both copies of zli.ts, whatever the
  flags \<open>xs\<close> before it did. A pass over a long option of an array field, followed by the
  tokens \<open>vs\<close> without a leading dash and then by the end or by a token that begins with
  \<open>-\<close>, stores exactly \<open>vs\<close> in both copies of zli.ts and leaves \<open>i\<close> at the token with the
  dash; in index.ts it stores the empty sequence.
\<close>

theorem dash_token_is_not_a_value:
  "(idx st < length args \<and> args ! idx st = tok
      \<and> (startsWith tok ''--'' \<or> startsWith tok ''-'' \<and> length tok \<le> 2)
      \<and> splitInlineValue tok = (arg, inl) \<and> \<not> truthy inl
      \<and> lookupKey tbl arg = Some k \<and> map_of shape k = Some f
      \<and> \<not> isBooleanKind (fieldType f) \<and> \<not> isZodArray (fieldType f)
      \<and> idx st + 1 < length args \<and> startsWith (args ! (idx st + 1)) ''-'' \<longrightarrow>
        scan1 Number tbl shape args st
          = ReturnNull (logError (''Option '' @ arg @ '' requires a value'')
              (markProcessed (idx st) st))
        \<and> scan2 Number tbl shape args st
          = Some (ReturnNull (setHelp (logError (''Option '' @ arg @ '' requires a value'')
              (markProcessed (idx st) st))))
        \<and> (startsWith tok ''--'' \<longrightarrow>
            scan3 Number tbl shape args st
              = ReturnNull (setHelp (logError (''Option '' @ arg @ '' requires a value'')
                  (markProcessed (idx st) st)))))
   \<and> (idx st < length args \<and> args ! idx st = CHR ''-'' # xs @ c # ys
      \<and> (xs \<noteq> [] \<or> ys \<noteq> []) \<and> hd (xs @ [c]) \<noteq> CHR ''-''
      \<and> combinedFlags1 Number tbl shape args xs st = Continue s1
      \<and> lookupKey tbl [CHR ''-'', c] = Some k \<and> \<not> isBooleanKind (typeOf shape k)
      \<and> idx s1 + 1 < length args \<and> startsWith (args ! (idx s1 + 1)) ''-'' \<longrightarrow>
        scan1 Number tbl shape args st
          = ReturnNull (logError (''Option '' @ [CHR ''-'', c] @ '' requires a value'') s1))
   \<and> (idx st < length args \<and> args ! idx st = CHR ''-'' # xs @ c # ys
      \<and> (xs \<noteq> [] \<or> ys \<noteq> []) \<and> hd (xs @ [c]) \<noteq> CHR ''-'' \<and> c \<noteq> CHR ''=''
      \<and> combinedFlags2 Number tbl shape args xs
            (setIdx (idx st + 1) (markProcessed (idx st) st)) = Continue s2
      \<and> lookupKey tbl [CHR ''-'', c] = Some k \<and> map_of shape k = Some f
      \<and> \<not> isBooleanKind (fieldType f)
      \<and> idx s2 < length args \<and> startsWith (args ! idx s2) ''-'' \<longrightarrow>
        scan2 Number tbl shape args st
          = Some (ReturnNull (setHelp
              (logError (''Option '' @ [CHR ''-'', c] @ '' requires a value'')
                (markProcessed (idx s2 - 1) s2)))))
   \<and> (args = pre @ tok # vs @ rest \<and> idx st = length pre
      \<and> list_all (\<lambda>t. \<not> startsWith t ''-'') vs \<and> (rest = [] \<or> startsWith (hd rest) ''-'')
      \<and> startsWith tok ''--'' \<and> splitInlineValue tok = (arg, inl)
      \<and> lookupKey tbl arg = Some k \<and> map_of shape k = Some f \<and> isZodArray (fieldType f) \<longrightarrow>
        iteration1 Number tbl shape args st = Continue (afterArray k vs st)
        \<and> iteration2 Number tbl shape args st = Continue (afterArray k vs st)
        \<and> iteration3 Number tbl shape args st = Continue (afterArray k [] st))
   \<and> ((startsWith tok ''--'' \<or> startsWith tok ''-'' \<and> length tok \<le> 2)
      \<and> splitInlineValue tok = (arg, inl) \<and> \<not> truthy inl
      \<and> lookupKey (recognizedOptions1 shape) arg = Some k \<and> map_of shape k = Some f
      \<and> \<not> isBooleanKind (fieldType f) \<and> \<not> isZodArray (fieldType f)
      \<and> startsWith dashed ''-'' \<longrightarrow>
        parseArgs1 Number safeParse (tok # dashed # rest) (ZodObject shape d)
          = Inr (None, logError (''Option '' @ arg @ '' requires a value'')
              (markProcessed 0 (initialScan False))))
   \<and> ((startsWith tok ''--'' \<or> startsWith tok ''-'' \<and> length tok \<le> 2)
      \<and> splitInlineValue tok = (arg, inl) \<and> \<not> truthy inl
      \<and> lookupKey (recognizedOptions2 shape) arg = Some k \<and> map_of shape k = Some f
      \<and> \<not> isBooleanKind (fieldType f) \<and> \<not> isZodArray (fieldType f)
      \<and> startsWith dashed ''-'' \<longrightarrow>
        parseArgs2 Number safeParse h (tok # dashed # rest) (ZodObject shape d)
          = Some (Inr (None, setHelp (logError (''Option '' @ arg @ '' requires a value'')
              (markProcessed 0 (initialScan h)))))
        \<and> (startsWith tok ''--'' \<longrightarrow>
            processArguments Number safeParse h (tok # dashed # rest) (ZodObject shape d)
              = Inr (None, setHelp (logError (''Option '' @ arg @ '' requires a value'')
                  (markProcessed 0 (initialScan h))))))
   \<and> (list_all (\<lambda>t. \<not> startsWith t ''-'') vs
      \<and> startsWith tok ''--'' \<and> splitInlineValue tok = (arg, inl)
      \<and> lookupKey (recognizedOptions1 shape) arg = Some k \<and> map_of shape k = Some f
      \<and> isZodArray (fieldType f)
      \<and> startsWith dashed ''--'' \<and> splitInlineValue dashed = (other, inl')
      \<and> lookupKey (recognizedOptions1 shape) other = None \<longrightarrow>
        parseArgs1 Number safeParse (tok # vs @ [dashed]) (ZodObject shape d)
          = Inr (None, logError (''Unknown option: '' @ other)
              (afterArray k vs (initialScan False))))
   \<and> (list_all (\<lambda>t. \<not> startsWith t ''-'') vs
      \<and> startsWith tok ''--'' \<and> splitInlineValue tok = (arg, inl)
      \<and> lookupKey (recognizedOptions2 shape) arg = Some k \<and> map_of shape k = Some f
      \<and> isZodArray (fieldType f)
      \<and> startsWith dashed ''--'' \<and> splitInlineValue dashed = (other, inl')
      \<and> lookupKey (recognizedOptions2 shape) other = None \<longrightarrow>
        parseArgs2 Number safeParse h (tok # vs @ [dashed]) (ZodObject shape d)
          = Some (Inr (None, setHelp (logError (''Unknown option: '' @ other)
              (afterArray k vs (initialScan h))))))"
proof -
  have scalar: "scan1 Number tbl shape args st
          = ReturnNull (logError (''Option '' @ arg @ '' requires a value'')
              (markProcessed (idx st) st))
        \<and> scan2 Number tbl shape args st
          = Some (ReturnNull (setHelp (logError (''Option '' @ arg @ '' requires a value'')
              (markProcessed (idx st) st))))
        \<and> (startsWith tok ''--'' \<longrightarrow>
            scan3 Number tbl shape args st
              = ReturnNull (setHelp (logError (''Option '' @ arg @ '' requires a value'')
                  (markProcessed (idx st) st))))"
    if i: "idx st < length args" and tok: "args ! idx st = tok"
      and cls: "startsWith tok ''--'' \<or> startsWith tok ''-'' \<and> length tok \<le> 2"
      and sp: "splitInlineValue tok = (arg, inl)" and inl: "\<not> truthy inl"
      and k: "lookupKey tbl arg = Some k" and f: "map_of shape k = Some f"
      and nb: "\<not> isBooleanKind (fieldType f)" and na: "\<not> isZodArray (fieldType f)"
      and nxt: "idx st + 1 < length args" "startsWith (args ! (idx st + 1)) ''-''"
  proof -
    note p = scalar_needs_value [OF tok cls sp inl k f nb na nxt]
    from i p(1) have "scan1 Number tbl shape args st
          = ReturnNull (logError (''Option '' @ arg @ '' requires a value'')
              (markProcessed (idx st) st))"
      by (simp add: scan1.simps [of _ _ _ args st])
    moreover from i p(2) have "scan2 Number tbl shape args st
          = Some (ReturnNull (setHelp (logError (''Option '' @ arg @ '' requires a value'')
              (markProcessed (idx st) st))))"
      by (simp add: scan2.simps [of _ _ _ args st])
    moreover from i p(3) have "scan3 Number tbl shape args st
              = ReturnNull (setHelp (logError (''Option '' @ arg @ '' requires a value'')
                  (markProcessed (idx st) st)))"
      if "startsWith tok ''--''"
      using that by (simp add: scan3.simps [of _ _ _ args st])
    ultimately show ?thesis
      by blast
  qed
  have combined1: "scan1 Number tbl shape args st
          = ReturnNull (logError (''Option '' @ [CHR ''-'', c] @ '' requires a value'') s1)"
    if i: "idx st < length args" and tok: "args ! idx st = CHR ''-'' # xs @ c # ys"
      and two: "xs \<noteq> [] \<or> ys \<noteq> []" and first: "hd (xs @ [c]) \<noteq> CHR ''-''"
      and pre: "combinedFlags1 Number tbl shape args xs st = Continue s1"
      and k: "lookupKey tbl [CHR ''-'', c] = Some k" and nb: "\<not> isBooleanKind (typeOf shape k)"
      and nxt: "idx s1 + 1 < length args" "startsWith (args ! (idx s1 + 1)) ''-''"
    using i combined_needs_value1 [OF tok two first pre k nb nxt]
    by (simp add: scan1.simps [of _ _ _ args st])
  have combined2: "scan2 Number tbl shape args st
          = Some (ReturnNull (setHelp
              (logError (''Option '' @ [CHR ''-'', c] @ '' requires a value'')
                (markProcessed (idx s2 - 1) s2))))"
    if i: "idx st < length args" and tok: "args ! idx st = CHR ''-'' # xs @ c # ys"
      and two: "xs \<noteq> [] \<or> ys \<noteq> []" and first: "hd (xs @ [c]) \<noteq> CHR ''-''"
      and c: "c \<noteq> CHR ''=''"
      and pre: "combinedFlags2 Number tbl shape args xs
            (setIdx (idx st + 1) (markProcessed (idx st) st)) = Continue s2"
      and k: "lookupKey tbl [CHR ''-'', c] = Some k" and f: "map_of shape k = Some f"
      and nb: "\<not> isBooleanKind (fieldType f)"
      and nxt: "idx s2 < length args" "startsWith (args ! idx s2) ''-''"
    using i combined_needs_value2 [OF tok two first pre c k f nb nxt]
    by (simp add: scan2.simps [of _ _ _ args st])
  have array: "iteration1 Number tbl shape args st = Continue (afterArray k vs st)
        \<and> iteration2 Number tbl shape args st = Continue (afterArray k vs st)
        \<and> iteration3 Number tbl shape args st = Continue (afterArray k [] st)"
    if "args = pre @ tok # vs @ rest" "idx st = length pre"
      "list_all (\<lambda>t. \<not> startsWith t ''-'') vs" "rest = [] \<or> startsWith (hd rest) ''-''"
      "startsWith tok ''--''" "splitInlineValue tok = (arg, inl)"
      "lookupKey tbl arg = Some k" "map_of shape k = Some f" "isZodArray (fieldType f)"
    using array_pass [OF that] by simp
  have first1: "parseArgs1 Number safeParse (tok # dashed # rest) (ZodObject shape d)
          = Inr (None, logError (''Option '' @ arg @ '' requires a value'')
              (markProcessed 0 (initialScan False)))"
    if cls: "startsWith tok ''--'' \<or> startsWith tok ''-'' \<and> length tok \<le> 2"
      and sp: "splitInlineValue tok = (arg, inl)" and inl: "\<not> truthy inl"
      and k: "lookupKey (recognizedOptions1 shape) arg = Some k" and f: "map_of shape k = Some f"
      and nb: "\<not> isBooleanKind (fieldType f)" and na: "\<not> isZodArray (fieldType f)"
      and dd: "startsWith dashed ''-''"
  proof -
    let ?st = "initialScan False :: 'a scan"
    have "iteration1 Number (recognizedOptions1 shape) shape (tok # dashed # rest) ?st
        = ReturnNull (logError (''Option '' @ arg @ '' requires a value'')
            (markProcessed (idx ?st) ?st))"
      by (rule scalar_needs_value(1) [OF _ cls sp inl k f nb na]) (simp_all add: dd)
    then have "scan1 Number (recognizedOptions1 shape) shape (tok # dashed # rest) ?st
        = ReturnNull (logError (''Option '' @ arg @ '' requires a value'') (markProcessed 0 ?st))"
      by (simp add: scan1.simps [of _ _ _ _ ?st])
    then show ?thesis
      by (simp add: parseArgs1_def)
  qed
  have first2: "parseArgs2 Number safeParse h (tok # dashed # rest) (ZodObject shape d)
          = Some (Inr (None, setHelp (logError (''Option '' @ arg @ '' requires a value'')
              (markProcessed 0 (initialScan h)))))
        \<and> (startsWith tok ''--'' \<longrightarrow>
            processArguments Number safeParse h (tok # dashed # rest) (ZodObject shape d)
              = Inr (None, setHelp (logError (''Option '' @ arg @ '' requires a value'')
                  (markProcessed 0 (initialScan h)))))"
    if cls: "startsWith tok ''--'' \<or> startsWith tok ''-'' \<and> length tok \<le> 2"
      and sp: "splitInlineValue tok = (arg, inl)" and inl: "\<not> truthy inl"
      and k: "lookupKey (recognizedOptions2 shape) arg = Some k" and f: "map_of shape k = Some f"
      and nb: "\<not> isBooleanKind (fieldType f)" and na: "\<not> isZodArray (fieldType f)"
      and dd: "startsWith dashed ''-''"
  proof -
    let ?st = "initialScan h :: 'a scan"
    let ?r = "setHelp (logError (''Option '' @ arg @ '' requires a value'') (markProcessed 0 ?st))"
    have "iteration2 Number (recognizedOptions2 shape) shape (tok # dashed # rest) ?st
        = ReturnNull (setHelp (logError (''Option '' @ arg @ '' requires a value'')
            (markProcessed (idx ?st) ?st)))"
      by (rule scalar_needs_value(2) [OF _ cls sp inl k f nb na]) (simp_all add: dd)
    then have "scan2 Number (recognizedOptions2 shape) shape (tok # dashed # rest) ?st
        = Some (ReturnNull ?r)"
      by (simp add: scan2.simps [of _ _ _ _ ?st])
    then have two: "parseArgs2 Number safeParse h (tok # dashed # rest) (ZodObject shape d)
        = Some (Inr (None, ?r))"
      by (simp add: parseArgs2_def)
    have three: "processArguments Number safeParse h (tok # dashed # rest) (ZodObject shape d)
        = Inr (None, ?r)" if long: "startsWith tok ''--''"
    proof -
      have "iteration3 Number (recognizedOptions2 shape) shape (tok # dashed # rest) ?st
          = ReturnNull (setHelp (logError (''Option '' @ arg @ '' requires a value'')
              (markProcessed (idx ?st) ?st)))"
        by (rule scalar_needs_value(3) [OF _ cls sp inl k f nb na _ _ long]) (simp_all add: dd)
      then have "scan3 Number (optionAliasMap shape) shape (tok # dashed # rest) ?st
          = ReturnNull ?r"
        by (simp add: scan3.simps [of _ _ _ _ ?st] optionAliasMap_eq)
      then show ?thesis
        by (simp add: processArguments_def)
    qed
    from two three show ?thesis
      by blast
  qed
  have stop1: "parseArgs1 Number safeParse (tok # vs @ [dashed]) (ZodObject shape d)
          = Inr (None, logError (''Unknown option: '' @ other)
              (afterArray k vs (initialScan False)))"
    if vs: "list_all (\<lambda>t. \<not> startsWith t ''-'') vs"
      and long: "startsWith tok ''--''" and sp: "splitInlineValue tok = (arg, inl)"
      and k: "lookupKey (recognizedOptions1 shape) arg = Some k" and f: "map_of shape k = Some f"
      and a: "isZodArray (fieldType f)"
      and dl: "startsWith dashed ''--''" and dsp: "splitInlineValue dashed = (other, inl')"
      and dk: "lookupKey (recognizedOptions1 shape) other = None"
  proof -
    let ?st = "initialScan False :: 'a scan"
    let ?args = "tok # vs @ [dashed]"
    let ?s = "afterArray k vs ?st"
    have seg: "?args = [] @ tok # vs @ [dashed]"
      by simp
    have "startsWith (hd [dashed]) ''-''"
      using dl by (simp add: startsWith_dash)
    then have one: "iteration1 Number (recognizedOptions1 shape) shape ?args ?st = Continue ?s"
      by (intro array_pass(1) [OF seg _ vs _ long sp k f a]) simp_all
    have ix: "idx ?s = Suc (length vs)"
      by (simp add: afterArray_def)
    have at: "?args ! idx ?s = dashed"
      by (simp add: ix nth_append)
    have two: "iteration1 Number (recognizedOptions1 shape) shape ?args ?s
        = ReturnNull (logError (''Unknown option: '' @ other) ?s)"
      by (rule unknown_long_pass(1) [OF _ _ dk]) (simp_all add: at dsp dl)
    have "scan1 Number (recognizedOptions1 shape) shape ?args ?st
        = ReturnNull (logError (''Unknown option: '' @ other) ?s)"
      using one two ix
      by (simp add: scan1.simps [of _ _ _ _ ?st] scan1.simps [of _ _ _ _ ?s])
    then show ?thesis
      by (simp add: parseArgs1_def)
  qed
  have stop2: "parseArgs2 Number safeParse h (tok # vs @ [dashed]) (ZodObject shape d)
          = Some (Inr (None, setHelp (logError (''Unknown option: '' @ other)
              (afterArray k vs (initialScan h)))))"
    if vs: "list_all (\<lambda>t. \<not> startsWith t ''-'') vs"
      and long: "startsWith tok ''--''" and sp: "splitInlineValue tok = (arg, inl)"
      and k: "lookupKey (recognizedOptions2 shape) arg = Some k" and f: "map_of shape k = Some f"
      and a: "isZodArray (fieldType f)"
      and dl: "startsWith dashed ''--''" and dsp: "splitInlineValue dashed = (other, inl')"
      and dk: "lookupKey (recognizedOptions2 shape) other = None"
  proof -
    let ?st = "initialScan h :: 'a scan"
    let ?args = "tok # vs @ [dashed]"
    let ?s = "afterArray k vs ?st"
    have seg: "?args = [] @ tok # vs @ [dashed]"
      by simp
    have "startsWith (hd [dashed]) ''-''"
      using dl by (simp add: startsWith_dash)
    then have one: "iteration2 Number (recognizedOptions2 shape) shape ?args ?st = Continue ?s"
      by (intro array_pass(2) [OF seg _ vs _ long sp k f a]) simp_all
    have ix: "idx ?s = Suc (length vs)"
      by (simp add: afterArray_def)
    have at: "?args ! idx ?s = dashed"
      by (simp add: ix nth_append)
    have two: "iteration2 Number (recognizedOptions2 shape) shape ?args ?s
        = ReturnNull (setHelp (logError (''Unknown option: '' @ other) ?s))"
      by (rule unknown_long_pass(2) [OF _ _ dk]) (simp_all add: at dsp dl)
    have "scan2 Number (recognizedOptions2 shape) shape ?args ?st
        = Some (ReturnNull (setHelp (logError (''Unknown option: '' @ other) ?s)))"
      using one two ix
      by (simp add: scan2.simps [of _ _ _ _ ?st] scan2.simps [of _ _ _ _ ?s])
    then show ?thesis
      by (simp add: parseArgs2_def)
  qed
  show ?thesis
    apply (intro conjI)
    subgoal using scalar by blast
    subgoal using combined1 by blast
    subgoal using combined2 by blast
    subgoal using array by blast
    subgoal using first1 by blast
    subgoal using first2 by blast
    subgoal using stop1 by blast
    subgoal using stop2 by blast
    done
qed


theorem dash_token_is_not_a_value_witness:
  "scan1 decimal (recognizedOptions1 nameAgeShape) nameAgeShape [''--age'', ''-5''] (initialScan False)
     = ReturnNull (logError ''Option --age requires a value'' (markProcessed 0 (initialScan False)))
   \<and> scan2 decimal (recognizedOptions2 nameAgeShape) nameAgeShape [''--age'', ''-5''] (initialScan False)
     = Some (ReturnNull (setHelp (logError ''Option --age requires a value''
          (markProcessed 0 (initialScan False)))))
   \<and> scan3 decimal (optionAliasMap nameAgeShape) nameAgeShape [''--age'', ''-5''] (initialScan False)
     = ReturnNull (setHelp (logError ''Option --age requires a value''
          (markProcessed 0 (initialScan False))))
   \<and> scan1 decimal (recognizedOptions1 nameAgeShape) nameAgeShape [''-a'', ''-5''] (initialScan False)
     = ReturnNull (logError ''Option -a requires a value'' (markProcessed 0 (initialScan False)))
   \<and> scan2 decimal (recognizedOptions2 nameAgeShape) nameAgeShape [''-a'', ''-5''] (initialScan False)
     = Some (ReturnNull (setHelp (logError ''Option -a requires a value''
          (markProcessed 0 (initialScan False)))))
   \<and> scan1 decimal (recognizedOptions1 nameAgeShape) nameAgeShape [''-va'', ''-5''] (initialScan False)
     = ReturnNull (logError ''Option -a requires a value''
          (assign ''verbose'' (VBoolean True) (initialScan False)))
   \<and> scan2 decimal (recognizedOptions2 nameAgeShape) nameAgeShape [''-va'', ''-5''] (initialScan False)
     = Some (ReturnNull (setHelp (logError ''Option -a requires a value''
          (markProcessed 0 (assign ''verbose'' (VBoolean True)
            (markProcessed 0 (setIdx 1 (markProcessed 0 (initialScan False)))))))))
   \<and> iteration1 decimal (recognizedOptions1 tagsShape) tagsShape
         [''--tags'', ''x'', ''y'', ''-5'', ''z''] (initialScan False)
     = Continue (afterArray ''tags'' [''x'', ''y''] (initialScan False))
   \<and> iteration2 decimal (recognizedOptions2 tagsShape) tagsShape
         [''--tags'', ''x'', ''y'', ''-5'', ''z''] (initialScan False)
     = Continue (afterArray ''tags'' [''x'', ''y''] (initialScan False))
   \<and> iteration3 decimal (optionAliasMap tagsShape) tagsShape
         [''--tags'', ''x'', ''y'', ''-5'', ''z''] (initialScan False)
     = Continue (afterArray ''tags'' [] (initialScan False))
   \<and> parseArgs1 decimal safeValidate [''--age'', ''-5''] (ZodObject nameAgeShape None)
     = Inr (None, logError ''Option --age requires a value'' (markProcessed 0 (initialScan False)))
   \<and> parseArgs2 decimal safeValidate False [''--age'', ''-5''] (ZodObject nameAgeShape None)
     = Some (Inr (None, setHelp (logError ''Option --age requires a value''
          (markProcessed 0 (initialScan False)))))
   \<and> processArguments decimal safeValidate False [''--age'', ''-5''] (ZodObject nameAgeShape None)
     = Inr (None, setHelp (logError ''Option --age requires a value''
          (markProcessed 0 (initialScan False))))
   \<and> parseArgs1 decimal safeValidate [''--tags'', ''x'', ''y'', ''--5'']
         (ZodObject tagsShape None)
     = Inr (None, logError ''Unknown option: --5''
          (afterArray ''tags'' [''x'', ''y''] (initialScan False)))
   \<and> parseArgs2 decimal safeValidate False [''--tags'', ''x'', ''y'', ''--5'']
         (ZodObject tagsShape None)
     = Some (Inr (None, setHelp (logError ''Unknown option: --5''
          (afterArray ''tags'' [''x'', ''y''] (initialScan False)))))"
proof -
  let ?st = "initialScan False :: nat scan"
  let ?age = "declared ZodNumber [''a'']"
  let ?tags = "declared (ZodArray ZodString) []"
  let ?t1 = "recognizedOptions1 nameAgeShape"
  let ?t2 = "recognizedOptions2 nameAgeShape"
  have i: "idx ?st = 0"
    by (simp add: initialScan_def)
  have k: "lookupKey ?t1 ''--age'' = Some ''age''" "lookupKey ?t2 ''--age'' = Some ''age''"
    "lookupKey ?t1 ''-a'' = Some ''age''" "lookupKey ?t2 ''-a'' = Some ''age''"
    "lookupKey ?t1 ''-v'' = Some ''verbose''" "lookupKey ?t2 ''-v'' = Some ''verbose''"
    "lookupKey (recognizedOptions1 tagsShape) ''--tags'' = Some ''tags''"
    "lookupKey (recognizedOptions2 tagsShape) ''--tags'' = Some ''tags''"
    by code_simp+
  have f: "map_of nameAgeShape ''age'' = Some ?age" "\<not> isBooleanKind (fieldType ?age)"
    "\<not> isZodArray (fieldType ?age)" "typeOf nameAgeShape ''age'' = fieldType ?age"
    "map_of nameAgeShape ''verbose'' = Some (declared (ZodOptional ZodBoolean) [''v''])"
    "isBooleanKind (typeOf nameAgeShape ''verbose'')"
    "map_of tagsShape ''tags'' = Some ?tags" "isZodArray (fieldType ?tags)"
    by (simp_all add: nameAgeShape_def tagsShape_def declared_def typeOf_def)
  have sp: "splitInlineValue ''--age'' = (''--age'', None)" "splitInlineValue ''-a'' = (''-a'', None)"
    "splitInlineValue ''--tags'' = (''--tags'', None)"
    "splitInlineValue ''-v'' = (''-v'', None)"
    by (simp_all add: splitInlineValue_def includesChar_def)
  have sw: "startsWith ''--age'' ''--''" "startsWith ''-a'' ''-''" "startsWith ''-5'' ''-''"
    "startsWith ''--tags'' ''--''" "\<not> startsWith ''x'' ''-''" "\<not> startsWith ''y'' ''-''"
    by (simp_all add: startsWith_def)
  from dash_token_is_not_a_value [where st = ?st and args = "[''--age'', ''-5'']" and tok = "''--age''" and arg = "''--age''"
      and inl = None and tbl = ?t1 and shape = nameAgeShape and k = "''age''" and f = ?age
      and Number = decimal,
      THEN conjunct1, THEN mp] k(1) f(1-3) sp(1) sw
  have a1: "scan1 decimal ?t1 nameAgeShape [''--age'', ''-5''] ?st
     = ReturnNull (logError ''Option --age requires a value'' (markProcessed 0 ?st))"
    by (simp add: i)
  from dash_token_is_not_a_value [where st = ?st and args = "[''--age'', ''-5'']" and tok = "''--age''" and arg = "''--age''"
      and inl = None and tbl = ?t2 and shape = nameAgeShape and k = "''age''" and f = ?age
      and Number = decimal,
      THEN conjunct1, THEN mp] k(2) f(1-3) sp(1) sw
  have a2: "scan2 decimal ?t2 nameAgeShape [''--age'', ''-5''] ?st
     = Some (ReturnNull (setHelp (logError ''Option --age requires a value'' (markProcessed 0 ?st))))"
    "scan3 decimal (optionAliasMap nameAgeShape) nameAgeShape [''--age'', ''-5''] ?st
     = ReturnNull (setHelp (logError ''Option --age requires a value'' (markProcessed 0 ?st)))"
    by (simp_all add: i optionAliasMap_eq)
  from dash_token_is_not_a_value [where st = ?st and args = "[''-a'', ''-5'']" and tok = "''-a''" and arg = "''-a''"
      and inl = None and tbl = ?t1 and shape = nameAgeShape and k = "''age''" and f = ?age
      and Number = decimal,
      THEN conjunct1, THEN mp] k(3) f(1-3) sp(2) sw
  have b1: "scan1 decimal ?t1 nameAgeShape [''-a'', ''-5''] ?st
     = ReturnNull (logError ''Option -a requires a value'' (markProcessed 0 ?st))"
    by (simp add: i)
  from dash_token_is_not_a_value [where st = ?st and args = "[''-a'', ''-5'']" and tok = "''-a''" and arg = "''-a''"
      and inl = None and tbl = ?t2 and shape = nameAgeShape and k = "''age''" and f = ?age
      and Number = decimal,
      THEN conjunct1, THEN mp] k(4) f(1-3) sp(2) sw
  have b2: "scan2 decimal ?t2 nameAgeShape [''-a'', ''-5''] ?st
     = Some (ReturnNull (setHelp (logError ''Option -a requires a value'' (markProcessed 0 ?st))))"
    by (simp add: i)
  have p1: "combinedFlags1 decimal ?t1 nameAgeShape [''-va'', ''-5''] ''v'' ?st
      = Continue (assign ''verbose'' (VBoolean True) ?st)"
    using k(5) f(6) by simp
  from dash_token_is_not_a_value [where st = ?st and args = "[''-va'', ''-5'']" and xs = "''v''" and c = "CHR ''a''"
      and ys = "[]" and ?s1.0 = "assign ''verbose'' (VBoolean True) ?st" and tbl = ?t1
      and shape = nameAgeShape and k = "''age''" and Number = decimal,
      THEN conjunct2, THEN conjunct1, THEN mp] p1 k(3) f(2,4) sw
  have c1: "scan1 decimal ?t1 nameAgeShape [''-va'', ''-5''] ?st
     = ReturnNull (logError ''Option -a requires a value''
          (assign ''verbose'' (VBoolean True) ?st))"
    by (simp add: i)
  have po: "parseOption ''-v'' [''-va'', ''-5''] 0 ?t2 nameAgeShape (setIdx 1 (markProcessed 0 ?st))
      = (OptionSuccess ''verbose'' (ZodOptional ZodBoolean) (Some ''true'') 0,
         markProcessed 0 (setIdx 1 (markProcessed 0 ?st)))"
    using k(6) f(5) sp(4) by (simp add: parseOption_def declared_def orTrue_def)
  have p2: "combinedFlags2 decimal ?t2 nameAgeShape [''-va'', ''-5''] ''v''
        (setIdx (idx ?st + 1) (markProcessed (idx ?st) ?st))
      = Continue (assign ''verbose'' (VBoolean True)
          (markProcessed 0 (setIdx 1 (markProcessed 0 ?st))))"
    using po by (simp add: i)
  from dash_token_is_not_a_value [where st = ?st and args = "[''-va'', ''-5'']" and xs = "''v''" and c = "CHR ''a''"
      and ys = "[]" and ?s2.0 = "assign ''verbose'' (VBoolean True)
          (markProcessed 0 (setIdx 1 (markProcessed 0 ?st)))" and tbl = ?t2
      and shape = nameAgeShape and k = "''age''" and f = ?age and Number = decimal,
      THEN conjunct2, THEN conjunct2, THEN conjunct1, THEN mp]
    p2 k(4) f(1,2) sw
  have c2: "scan2 decimal ?t2 nameAgeShape [''-va'', ''-5''] ?st
     = Some (ReturnNull (setHelp (logError ''Option -a requires a value''
          (markProcessed 0 (assign ''verbose'' (VBoolean True)
            (markProcessed 0 (setIdx 1 (markProcessed 0 ?st))))))))"
    by (simp add: i)
  from dash_token_is_not_a_value [where st = ?st and args = "[''--tags'', ''x'', ''y'', ''-5'', ''z'']" and pre = "[]"
      and tok = "''--tags''" and vs = "[''x'', ''y'']" and rest = "[''-5'', ''z'']"
      and arg = "''--tags''" and inl = None and tbl = "recognizedOptions1 tagsShape"
      and shape = tagsShape and k = "''tags''" and f = ?tags and Number = decimal,
      THEN conjunct2, THEN conjunct2, THEN conjunct2, THEN conjunct1, THEN mp]
    k(7) f(7,8) sp(3) sw
  have d1: "iteration1 decimal (recognizedOptions1 tagsShape) tagsShape
         [''--tags'', ''x'', ''y'', ''-5'', ''z''] ?st
     = Continue (afterArray ''tags'' [''x'', ''y''] ?st)"
    by (simp add: i)
  from dash_token_is_not_a_value [where st = ?st and args = "[''--tags'', ''x'', ''y'', ''-5'', ''z'']" and pre = "[]"
      and tok = "''--tags''" and vs = "[''x'', ''y'']" and rest = "[''-5'', ''z'']"
      and arg = "''--tags''" and inl = None and tbl = "recognizedOptions2 tagsShape"
      and shape = tagsShape and k = "''tags''" and f = ?tags and Number = decimal,
      THEN conjunct2, THEN conjunct2, THEN conjunct2, THEN conjunct1, THEN mp]
    k(8) f(7,8) sp(3) sw
  have d2: "iteration2 decimal (recognizedOptions2 tagsShape) tagsShape
         [''--tags'', ''x'', ''y'', ''-5'', ''z''] ?st
     = Continue (afterArray ''tags'' [''x'', ''y''] ?st)"
    "iteration3 decimal (optionAliasMap tagsShape) tagsShape
         [''--tags'', ''x'', ''y'', ''-5'', ''z''] ?st
     = Continue (afterArray ''tags'' [] ?st)"
    by (simp_all add: i optionAliasMap_eq)
  from dash_token_is_not_a_value [where tok = "''--age''" and arg = "''--age''" and inl = None
      and shape = nameAgeShape and k = "''age''" and f = ?age and dashed = "''-5''"
      and rest = "[]" and Number = decimal and safeParse = safeValidate and d = None,
      THEN conjunct2, THEN conjunct2, THEN conjunct2, THEN conjunct2, THEN conjunct1, THEN mp]
    k(1) f(1-3) sp(1) sw
  have e1: "parseArgs1 decimal safeValidate [''--age'', ''-5''] (ZodObject nameAgeShape None)
     = Inr (None, logError ''Option --age requires a value'' (markProcessed 0 ?st))"
    by simp
  from dash_token_is_not_a_value [where tok = "''--age''" and arg = "''--age''" and inl = None
      and shape = nameAgeShape and k = "''age''" and f = ?age and dashed = "''-5''"
      and rest = "[]" and Number = decimal and safeParse = safeValidate and d = None
      and h = False,
      THEN conjunct2, THEN conjunct2, THEN conjunct2, THEN conjunct2, THEN conjunct2,
      THEN conjunct1, THEN mp]
    k(2) f(1-3) sp(1) sw
  have e2: "parseArgs2 decimal safeValidate False [''--age'', ''-5''] (ZodObject nameAgeShape None)
     = Some (Inr (None, setHelp (logError ''Option --age requires a value'' (markProcessed 0 ?st))))"
    "processArguments decimal safeValidate False [''--age'', ''-5''] (ZodObject nameAgeShape None)
     = Inr (None, setHelp (logError ''Option --age requires a value'' (markProcessed 0 ?st)))"
    by simp_all
  have five: "startsWith ''--5'' ''--''" "splitInlineValue ''--5'' = (''--5'', None)"
    "lookupKey (recognizedOptions1 tagsShape) ''--5'' = None"
    "lookupKey (recognizedOptions2 tagsShape) ''--5'' = None"
    by (simp add: startsWith_def, simp add: splitInlineValue_def includesChar_def, code_simp+)
  from dash_token_is_not_a_value [where tok = "''--tags''" and arg = "''--tags''" and inl = None
      and shape = tagsShape and k = "''tags''" and f = ?tags and vs = "[''x'', ''y'']"
      and dashed = "''--5''" and other = "''--5''" and inl' = None
      and Number = decimal and safeParse = safeValidate and d = None,
      THEN conjunct2, THEN conjunct2, THEN conjunct2, THEN conjunct2, THEN conjunct2,
      THEN conjunct2, THEN conjunct1, THEN mp]
    k(7) f(7,8) sp(3) sw five
  have g1: "parseArgs1 decimal safeValidate [''--tags'', ''x'', ''y'', ''--5'']
         (ZodObject tagsShape None)
     = Inr (None, logError ''Unknown option: --5'' (afterArray ''tags'' [''x'', ''y''] ?st))"
    by simp
  from dash_token_is_not_a_value [where tok = "''--tags''" and arg = "''--tags''" and inl = None
      and shape = tagsShape and k = "''tags''" and f = ?tags and vs = "[''x'', ''y'']"
      and dashed = "''--5''" and other = "''--5''" and inl' = None
      and Number = decimal and safeParse = safeValidate and d = None and h = False,
      THEN conjunct2, THEN conjunct2, THEN conjunct2, THEN conjunct2, THEN conjunct2,
      THEN conjunct2, THEN conjunct2, THEN mp]
    k(8) f(7,8) sp(3) sw five
  have g2: "parseArgs2 decimal safeValidate False [''--tags'', ''x'', ''y'', ''--5'']
         (ZodObject tagsShape None)
     = Some (Inr (None, setHelp (logError ''Unknown option: --5''
          (afterArray ''tags'' [''x'', ''y''] ?st))))"
    by simp
  from a1 a2 b1 b2 c1 c2 d1 d2 e1 e2 g1 g2 show ?thesis
    by blast
qed


section \<open>C8: the single-dash token of every key\<close>























end
